(* ===== verification/Prelude.thy ===== *)
theory Prelude
  imports "HOL-Library.Word"
begin

text \<open>
  Prelude of the development: the widths of the C integer types, the shape of
  a C computation with error exits (\<open>prog\<close>), its combinators, and the weakest
  precondition calculus \<open>wp\<close> over it with the collections \<open>wp_simps\<close> (rules the
  simplifier applies to a goal \<open>wp m Q R U s\<close>) and \<open>wp_spec\<close> (contracts of
  operations).  Nothing here is specific to the lock.
\<close>

named_theorems wp_simps \<open>equations that push wp through a program\<close>
named_theorems wp_spec \<open>contracts of operations, in wp form\<close>

type_synonym c_int = "32 word"
type_synonym c_char = "8 word"
type_synonym c_long = "64 word"
type_synonym ptr = "nat option"

text \<open>
  An outcome of a C statement list: control falls through with a value
  (\<open>Ret\<close>), control jumps to the error label of the enclosing function with
  the source position that \<open>__PYX_ERR(f, line, label)\<close> records (\<open>Goto\<close>), or
  the computation has no further behaviour (\<open>Stuck\<close>): a call that never
  returns, a C undefined behaviour, or a Python C-API call made by a thread
  that does not hold the interpreter lock.
\<close>

datatype ub = Blocks | Undefined | NoGil

datatype ('s, 'a) out = Ret 'a 's | Goto nat int 's | Stuck ub

type_synonym ('s, 'a) prog = "'s \<Rightarrow> ('s, 'a) out"

definition ret :: "'a \<Rightarrow> ('s, 'a) prog" where
  "ret a s = Ret a s"

definition bnd :: "('s, 'a) prog \<Rightarrow> ('a \<Rightarrow> ('s, 'b) prog) \<Rightarrow> ('s, 'b) prog" where
  "bnd m f s = (case m s of Ret a t \<Rightarrow> f a t | Goto p l t \<Rightarrow> Goto p l t | Stuck u \<Rightarrow> Stuck u)"

definition sq :: "('s, 'a) prog \<Rightarrow> ('s, 'b) prog \<Rightarrow> ('s, 'b) prog" where
  "sq m n = bnd m (\<lambda>_. n)"

definition pyx_err :: "nat \<Rightarrow> int \<Rightarrow> ('s, 'a) prog" where
  "pyx_err p l s = Goto p l s"

definition stuck :: "ub \<Rightarrow> ('s, 'a) prog" where
  "stuck u s = Stuck u"

definition rd :: "('s \<Rightarrow> 'a) \<Rightarrow> ('s, 'a) prog" where
  "rd g s = Ret (g s) s"

definition upd :: "('s \<Rightarrow> 's) \<Rightarrow> ('s, unit) prog" where
  "upd g s = Ret () (g s)"

definition at_label :: "('s, 'a) prog \<Rightarrow> (nat \<Rightarrow> int \<Rightarrow> ('s, 'a) prog) \<Rightarrow> ('s, 'a) prog" where
  "at_label m h s = (case m s of Ret a t \<Rightarrow> Ret a t | Goto p l t \<Rightarrow> h p l t | Stuck u \<Rightarrow> Stuck u)"

definition whn :: "bool \<Rightarrow> ('s, unit) prog \<Rightarrow> ('s, unit) prog" where
  "whn b m = (if b then m else ret ())"

primrec prog_list :: "('s, unit) prog list \<Rightarrow> ('s, unit) prog" where
  "prog_list [] = ret ()"
| "prog_list (m # ms) = sq m (prog_list ms)"

definition wp :: "('s, 'a) prog \<Rightarrow> ('a \<Rightarrow> 's \<Rightarrow> bool) \<Rightarrow> (nat \<Rightarrow> int \<Rightarrow> 's \<Rightarrow> bool) \<Rightarrow>
    (ub \<Rightarrow> bool) \<Rightarrow> 's \<Rightarrow> bool" where
  "wp m Q R U s = (case m s of Ret a t \<Rightarrow> Q a t | Goto p l t \<Rightarrow> R p l t | Stuck u \<Rightarrow> U u)"

lemma wp_ret [wp_simps]: "wp (ret a) Q R U s = Q a s"
  by (simp add: wp_def ret_def)

lemma wp_bnd [wp_simps]: "wp (bnd m f) Q R U s = wp m (\<lambda>a. wp (f a) Q R U) R U s"
  by (simp add: wp_def bnd_def split: out.splits)

lemma wp_sq [wp_simps]: "wp (sq m n) Q R U s = wp m (\<lambda>_. wp n Q R U) R U s"
  by (simp add: sq_def wp_bnd)

lemma wp_pyx_err [wp_simps]: "wp (pyx_err p l) Q R U s = R p l s"
  by (simp add: wp_def pyx_err_def)

lemma wp_stuck [wp_simps]: "wp (stuck u) Q R U s = U u"
  by (simp add: wp_def stuck_def)

lemma wp_rd [wp_simps]: "wp (rd g) Q R U s = Q (g s) s"
  by (simp add: wp_def rd_def)

lemma wp_upd [wp_simps]: "wp (upd g) Q R U s = Q () (g s)"
  by (simp add: wp_def upd_def)

lemma wp_at_label [wp_simps]:
  "wp (at_label m h) Q R U s = wp m Q (\<lambda>p l. wp (h p l) Q R U) U s"
  by (simp add: wp_def at_label_def split: out.splits)

lemma wp_if [wp_simps]:
  "wp (if b then m else n) Q R U s = (if b then wp m Q R U s else wp n Q R U s)"
  by simp

lemma wp_whn [wp_simps]: "wp (whn b m) Q R U s = (if b then wp m Q R U s else Q () s)"
  by (simp add: whn_def wp_ret)

lemma wp_case_option [wp_simps]:
  "wp (case x of None \<Rightarrow> m | Some y \<Rightarrow> f y) Q R U s =
    (case x of None \<Rightarrow> wp m Q R U s | Some y \<Rightarrow> wp (f y) Q R U s)"
  by (simp split: option.splits)

lemma wp_case_prod [wp_simps]:
  "wp (case x of (y, z) \<Rightarrow> f y z) Q R U s = (case x of (y, z) \<Rightarrow> wp (f y z) Q R U s)"
  by (simp split: prod.splits)

lemma wp_mono:
  assumes "wp m Q R U s"
    and "\<And>a t. Q a t \<Longrightarrow> Q' a t" and "\<And>p l t. R p l t \<Longrightarrow> R' p l t" and "\<And>u. U u \<Longrightarrow> U' u"
  shows "wp m Q' R' U' s"
  using assms by (simp add: wp_def split: out.splits)

lemma wp_conj:
  assumes "wp m Q R U s" and "wp m Q' R' U' s"
  shows "wp m (\<lambda>a t. Q a t \<and> Q' a t) (\<lambda>p l t. R p l t \<and> R' p l t) (\<lambda>u. U u \<and> U' u) s"
  using assms by (simp add: wp_def split: out.splits)

lemma wp_RetD: "wp m Q R U s \<Longrightarrow> m s = Ret a t \<Longrightarrow> Q a t"
  by (simp add: wp_def)

lemma wp_GotoD: "wp m Q R U s \<Longrightarrow> m s = Goto p l t \<Longrightarrow> R p l t"
  by (simp add: wp_def)

lemma wp_StuckD: "wp m Q R U s \<Longrightarrow> m s = Stuck u \<Longrightarrow> U u"
  by (simp add: wp_def)

text \<open>Executing a program forward: what the witnesses and the exact results use.\<close>

lemmas run_defs = ret_def bnd_def sq_def pyx_err_def stuck_def rd_def upd_def at_label_def whn_def

lemma bnd_Ret [simp]: "m s = Ret a t \<Longrightarrow> bnd m f s = f a t"
  by (simp add: bnd_def)

lemma bnd_Goto [simp]: "m s = Goto p l t \<Longrightarrow> bnd m f s = Goto p l t"
  by (simp add: bnd_def)

lemma sq_Ret [simp]: "m s = Ret a t \<Longrightarrow> sq m n s = n t"
  by (simp add: sq_def)

lemma sq_Goto [simp]: "m s = Goto p l t \<Longrightarrow> sq m n s = Goto p l t"
  by (simp add: sq_def)

lemma bnd_assoc: "bnd (bnd m f) g = bnd m (\<lambda>a. bnd (f a) g)"
  by (rule ext) (simp add: bnd_def split: out.splits)

lemma ret_apply [simp]: "ret a s = Ret a s"
  by (simp add: ret_def)

text \<open>
  A C string as \<open>PyBytes_FromString\<close> and the POSIX calls read it stops at the
  first NUL character.
\<close>

definition c_str :: "string \<Rightarrow> string" where
  "c_str xs = takeWhile (\<lambda>c. c \<noteq> CHR 0x00) xs"

lemma c_str_idem [simp]: "c_str (c_str xs) = c_str xs"
  by (simp add: c_str_def takeWhile_idem)

lemma c_str_id: "CHR 0x00 \<notin> set xs \<Longrightarrow> c_str xs = xs"
  by (induction xs) (auto simp: c_str_def)

text \<open>Conversions of C: a store into a \<open>char\<close> keeps the low eight bits.\<close>

definition to_char :: "c_int \<Rightarrow> c_char" where
  "to_char v = ucast v"

end
