(* ===== verification/Env.thy ===== *)
theory Env
  imports Prelude
begin

text \<open>
  The data of the model: Python objects and classes as far as the extension
  module handles them, the C structures of HybridLock.c, the state of the
  process, and the interface of everything that is not code of HybridLock.c
  (POSIX semaphores and shared memory, the clock, the memory allocator, and
  the CPython C-API).  The interface is a record \<open>env\<close> of functions over an
  abstract world \<open>'w\<close>, and every definition of the development that uses it
  takes it as an argument \<open>E\<close>.
\<close>

section \<open>Python objects\<close>

text \<open>
  Classes: the built-in ones the module names, its own extension type, and
  \<open>Derived n c\<close> for a class statement \<open>class n(c)\<close>.
\<close>

datatype cls = ObjectT | BaseExceptionT | ExceptionT | SystemErrorT | TypeErrorT | ValueErrorT
  | ArithmeticErrorT | OverflowErrorT | NameErrorT | AttributeErrorT | ImportErrorT | MemoryErrorT
  | RuntimeErrorT | RecursionErrorT | OSErrorT | TimeoutErrorT | UnicodeErrorT | UnicodeDecodeErrorT
  | KeyboardInterruptT | NoneT | BoolT | IntT | BytesT | ByteArrayT | StrT | TupleT | DictT
  | TypeT | HybridLockT | OtherT | Derived string cls

fun tp_base :: "cls \<Rightarrow> cls option" where
  "tp_base ObjectT = None"
| "tp_base ExceptionT = Some BaseExceptionT"
| "tp_base KeyboardInterruptT = Some BaseExceptionT"
| "tp_base SystemErrorT = Some ExceptionT"
| "tp_base TypeErrorT = Some ExceptionT"
| "tp_base ValueErrorT = Some ExceptionT"
| "tp_base ArithmeticErrorT = Some ExceptionT"
| "tp_base OverflowErrorT = Some ArithmeticErrorT"
| "tp_base NameErrorT = Some ExceptionT"
| "tp_base AttributeErrorT = Some ExceptionT"
| "tp_base ImportErrorT = Some ExceptionT"
| "tp_base MemoryErrorT = Some ExceptionT"
| "tp_base RuntimeErrorT = Some ExceptionT"
| "tp_base RecursionErrorT = Some RuntimeErrorT"
| "tp_base OSErrorT = Some ExceptionT"
| "tp_base TimeoutErrorT = Some OSErrorT"
| "tp_base UnicodeErrorT = Some ValueErrorT"
| "tp_base UnicodeDecodeErrorT = Some UnicodeErrorT"
| "tp_base BoolT = Some IntT"
| "tp_base (Derived n c) = Some c"
| "tp_base _ = Some ObjectT"

fun cls_rank :: "cls \<Rightarrow> nat" where
  "cls_rank (Derived n c) = Suc (cls_rank c)"
| "cls_rank ObjectT = 0"
| "cls_rank BaseExceptionT = 1"
| "cls_rank ExceptionT = 2"
| "cls_rank IntT = 1"
| "cls_rank BoolT = 2"
| "cls_rank OverflowErrorT = 4"
| "cls_rank RecursionErrorT = 4"
| "cls_rank TimeoutErrorT = 4"
| "cls_rank UnicodeErrorT = 4"
| "cls_rank UnicodeDecodeErrorT = 5"
| "cls_rank _ = 3"

lemma tp_base_rank: "tp_base a = Some b \<Longrightarrow> cls_rank b < cls_rank a"
  by (cases a) auto

function tp_mro :: "cls \<Rightarrow> cls list" where
  "tp_mro a = a # (case tp_base a of None \<Rightarrow> [] | Some b \<Rightarrow> tp_mro b)"
  by pat_completeness auto
termination
  by (relation "measure cls_rank") (auto dest: tp_base_rank)

declare tp_mro.simps [simp del]

text \<open>
  Objects.  \<open>PyExc c args\<close> is an exception instance, \<open>PyLock n\<close> the
  \<open>HybridLock\<close> instance stored under \<open>n\<close>, \<open>PyNum b\<close> an object of another
  type; \<open>b\<close> says whether the type has the number slot \<open>nb_int\<close>.
\<close>

datatype pyobj = PyNone | PyBool bool | PyInt int | PyBytes string | PyByteArray string
  | PyStr string | PyTuple "pyobj list" | PyCls cls | PyExc cls "pyobj list" | PyLock nat
  | PyMeth nat string | PyNum bool | PyOther nat

fun py_type :: "pyobj \<Rightarrow> cls" where
  "py_type PyNone = NoneT"
| "py_type (PyBool b) = BoolT"
| "py_type (PyInt i) = IntT"
| "py_type (PyBytes s) = BytesT"
| "py_type (PyByteArray s) = ByteArrayT"
| "py_type (PyStr s) = StrT"
| "py_type (PyTuple xs) = TupleT"
| "py_type (PyCls c) = TypeT"
| "py_type (PyExc c xs) = c"
| "py_type (PyLock n) = HybridLockT"
| "py_type _ = OtherT"

text \<open>A code object made for a traceback entry, and the entry itself.\<close>

datatype pycode = PyCode (co_name: string) (co_line: int) (co_file: string)

type_synonym tbent = "pycode \<times> int"

text \<open>The error indicator of a thread: type, value and traceback.\<close>

datatype pyerr = PyErr (e_type: cls) (e_value: pyobj) (e_tb: "tbent list")

section \<open>The C structures and the process state\<close>

text \<open>\<open>struct __pyx_obj_10HybridLock_HybridLock\<close>; a NULL pointer is None.\<close>

record hlock =
  semaphore :: ptr
  cleaned_up :: c_int
  spin_lock_char :: ptr
  spin_lock_pid :: ptr
  shm_fd :: c_int
  sem_loc :: ptr

definition hlock_zero :: hlock where
  "hlock_zero = \<lparr>semaphore = None, cleaned_up = 0, spin_lock_char = None, spin_lock_pid = None,
    shm_fd = 0, sem_loc = None\<rparr>"

text \<open>\<open>struct __Pyx_CodeObjectCache\<close>: an array of \<open>max_count\<close> slots, the
  first \<open>count\<close> of them in use.\<close>

record codecache =
  cc_entries :: "(int \<times> pycode) list option"
  cc_count :: nat
  cc_max :: nat

text \<open>
  The process: the world outside it, the extension objects on the Python
  heap, the blocks \<open>malloc\<close> returned that are not freed, the thread's error
  indicator, whether the thread holds the interpreter lock, the dictionaries
  of the module and of \<open>builtins\<close>, and the C globals of the module.
\<close>

record 'w cst =
  wld :: 'w
  objs :: "nat \<Rightarrow> hlock option"
  nobj :: nat
  cmem :: "nat \<Rightarrow> (nat \<times> string) option"
  nmem :: nat
  curexc :: "pyerr option"
  gil :: bool
  mdict :: "string \<Rightarrow> pyobj option"
  bdict :: "string \<Rightarrow> pyobj option"
  v_LOCKED :: c_char
  v_UNLOCKED :: c_char
  v_DESTROYED :: c_char
  v_k :: c_int
  cocache :: codecache

section \<open>The interface to code outside HybridLock.c\<close>

text \<open>
  What a call into the operating system does: it returns, it never returns,
  or its arguments make the behaviour undefined.
\<close>

datatype 'a sysres = Sys 'a | SysBlocks | SysUndef

record 'w env =
  x_sem_open :: "string \<Rightarrow> c_int \<Rightarrow> c_int \<Rightarrow> c_int \<Rightarrow> 'w \<Rightarrow> (ptr \<times> 'w) sysres"
  x_sem_close :: "nat \<Rightarrow> 'w \<Rightarrow> (c_int \<times> 'w) sysres"
  x_sem_unlink :: "string \<Rightarrow> 'w \<Rightarrow> (c_int \<times> 'w) sysres"
  x_sem_wait :: "nat \<Rightarrow> 'w \<Rightarrow> (c_int \<times> 'w) sysres"
  x_sem_timedwait :: "nat \<Rightarrow> c_long \<Rightarrow> c_long \<Rightarrow> 'w \<Rightarrow> (c_int \<times> 'w) sysres"
  x_sem_post :: "nat \<Rightarrow> 'w \<Rightarrow> (c_int \<times> 'w) sysres"
  x_sem_getvalue :: "nat \<Rightarrow> 'w \<Rightarrow> ((c_int \<times> c_int) \<times> 'w) sysres"
  x_shm_open :: "string \<Rightarrow> c_int \<Rightarrow> c_int \<Rightarrow> 'w \<Rightarrow> (c_int \<times> 'w) sysres"
  x_shm_unlink :: "string \<Rightarrow> 'w \<Rightarrow> (c_int \<times> 'w) sysres"
  x_fchmod :: "c_int \<Rightarrow> c_int \<Rightarrow> 'w \<Rightarrow> (c_int \<times> 'w) sysres"
  x_ftruncate :: "c_int \<Rightarrow> c_long \<Rightarrow> 'w \<Rightarrow> (c_int \<times> 'w) sysres"
  x_mmap :: "c_int \<Rightarrow> c_int \<Rightarrow> 'w \<Rightarrow> (ptr \<times> 'w) sysres"
  x_close :: "c_int \<Rightarrow> 'w \<Rightarrow> (c_int \<times> 'w) sysres"
  x_getpagesize :: "'w \<Rightarrow> (c_int \<times> 'w) sysres"
  x_getpid :: "'w \<Rightarrow> (c_int \<times> 'w) sysres"
  x_clock_gettime :: "'w \<Rightarrow> ((c_int \<times> c_long \<times> c_long) \<times> 'w) sysres"
  x_errno :: "'w \<Rightarrow> c_int"
  x_strerror :: "c_int \<Rightarrow> string"
  x_ld8 :: "nat \<Rightarrow> 'w \<Rightarrow> (c_char \<times> 'w) sysres"
  x_st8 :: "nat \<Rightarrow> c_char \<Rightarrow> 'w \<Rightarrow> (unit \<times> 'w) sysres"
  x_ld32 :: "nat \<Rightarrow> 'w \<Rightarrow> (c_int \<times> 'w) sysres"
  x_st32 :: "nat \<Rightarrow> c_int \<Rightarrow> 'w \<Rightarrow> (unit \<times> 'w) sysres"
  x_malloc :: "nat \<Rightarrow> 'w \<Rightarrow> (bool \<times> 'w) sysres"
  x_gil :: "'w \<Rightarrow> (unit \<times> 'w) sysres"
  x_py :: "string \<Rightarrow> 'w \<Rightarrow> (pyerr option \<times> 'w) sysres"
  x_call :: "pyobj \<Rightarrow> pyobj list \<Rightarrow> 'w \<Rightarrow> ((pyobj option \<times> pyerr option) \<times> 'w) sysres"

text \<open>The constants of the Linux headers that HybridLock.c uses.\<close>

definition ENOENT :: c_int where "ENOENT = 2"
definition ETIMEDOUT :: c_int where "ETIMEDOUT = 110"
definition O_RDWR :: c_int where "O_RDWR = 2"
definition O_CREAT :: c_int where "O_CREAT = 64"
definition O_EXCL :: c_int where "O_EXCL = 128"

lemmas posix_consts = ENOENT_def ETIMEDOUT_def O_RDWR_def O_CREAT_def O_EXCL_def

text \<open>
  \<open>x_py f\<close> is one call of the C-API function \<open>f\<close> whose only effects the module
  can see are that it fails with an exception or does not; \<open>x_call\<close> is a call
  of a Python object that is not one of the exception classes (a module global
  that was rebound), which may return a value or NULL, with or without an
  exception; \<open>x_gil\<close> is the wait for the interpreter lock; \<open>x_ld8\<close> and its
  siblings are accesses to shared memory, which other processes write too.
\<close>

section \<open>Primitive statements\<close>

type_synonym ('w, 'a) cprog = "('w cst, 'a) prog"

text \<open>A call into the operating system.\<close>

definition sysc :: "('w \<Rightarrow> ('a \<times> 'w) sysres) \<Rightarrow> ('w, 'a) cprog" where
  "sysc f s = (case f (wld s) of Sys (a, w) \<Rightarrow> Ret a (s\<lparr>wld := w\<rparr>)
    | SysBlocks \<Rightarrow> Stuck Blocks | SysUndef \<Rightarrow> Stuck Undefined)"

text \<open>Dereferencing a pointer: NULL is undefined behaviour.\<close>

definition nonnull :: "ptr \<Rightarrow> ('w, nat) cprog" where
  "nonnull p = (case p of None \<Rightarrow> stuck Undefined | Some a \<Rightarrow> ret a)"

definition ld8 :: "'w env \<Rightarrow> ptr \<Rightarrow> ('w, c_char) cprog" where
  "ld8 E p = bnd (nonnull p) (\<lambda>a. sysc (x_ld8 E a))"

definition st8 :: "'w env \<Rightarrow> ptr \<Rightarrow> c_char \<Rightarrow> ('w, unit) cprog" where
  "st8 E p v = bnd (nonnull p) (\<lambda>a. sysc (x_st8 E a v))"

definition ld32 :: "'w env \<Rightarrow> ptr \<Rightarrow> ('w, c_int) cprog" where
  "ld32 E p = bnd (nonnull p) (\<lambda>a. sysc (x_ld32 E a))"

definition st32 :: "'w env \<Rightarrow> ptr \<Rightarrow> c_int \<Rightarrow> ('w, unit) cprog" where
  "st32 E p v = bnd (nonnull p) (\<lambda>a. sysc (x_st32 E a v))"

text \<open>A field of \<open>self\<close>, read and written.\<close>

definition self_rd :: "nat \<Rightarrow> (hlock \<Rightarrow> 'a) \<Rightarrow> ('w, 'a) cprog" where
  "self_rd n g s = (case objs s n of None \<Rightarrow> Stuck Undefined | Some h \<Rightarrow> Ret (g h) s)"

definition self_wr :: "nat \<Rightarrow> (hlock \<Rightarrow> hlock) \<Rightarrow> ('w, unit) cprog" where
  "self_wr n g s = (case objs s n of None \<Rightarrow> Stuck Undefined
    | Some h \<Rightarrow> Ret () (s\<lparr>objs := (objs s)(n := Some (g h))\<rparr>))"

text \<open>
  The heap of the C library: a block has a size and, once a string has been
  copied into it, that string.  \<open>strcpy\<close> needs room for the terminating NUL;
  a block that \<open>free\<close> has returned must not be used or freed again.
\<close>

definition c_malloc :: "'w env \<Rightarrow> nat \<Rightarrow> ('w, ptr) cprog" where
  "c_malloc E n = bnd (sysc (x_malloc E n)) (\<lambda>ok s. if ok
    then Ret (Some (nmem s)) (s\<lparr>cmem := (cmem s)(nmem s := Some (n, [])), nmem := Suc (nmem s)\<rparr>)
    else Ret None s)"

definition c_strcpy :: "ptr \<Rightarrow> string \<Rightarrow> ('w, ptr) cprog" where
  "c_strcpy p v = bnd (nonnull p) (\<lambda>a s. case cmem s a of None \<Rightarrow> Stuck Undefined
    | Some (n, _) \<Rightarrow> if length v < n then Ret (Some a) (s\<lparr>cmem := (cmem s)(a := Some (n, v))\<rparr>)
        else Stuck Undefined)"

definition c_string :: "ptr \<Rightarrow> ('w, string) cprog" where
  "c_string p = bnd (nonnull p) (\<lambda>a s. case cmem s a of None \<Rightarrow> Stuck Undefined
    | Some (n, v) \<Rightarrow> Ret v s)"

definition c_free :: "ptr \<Rightarrow> ('w, unit) cprog" where
  "c_free p s = (case p of None \<Rightarrow> Ret () s
    | Some a \<Rightarrow> (case cmem s a of None \<Rightarrow> Stuck Undefined
        | Some _ \<Rightarrow> Ret () (s\<lparr>cmem := (cmem s)(a := None)\<rparr>)))"

text \<open>
  The interpreter lock.  A Python C-API call made without it is an error of
  the program (\<open>NoGil\<close>); giving it up and taking it are \<open>PyEval_SaveThread\<close>
  and \<open>PyEval_RestoreThread\<close>; taking it may wait, and other threads may change
  the world meanwhile.
\<close>

definition need_gil :: "('w, unit) cprog" where
  "need_gil s = (if gil s then Ret () s else Stuck NoGil)"

definition unblock_threads :: "('w, unit) cprog" where
  "unblock_threads = sq need_gil (upd (\<lambda>s. s\<lparr>gil := False\<rparr>))"

definition block_threads :: "'w env \<Rightarrow> ('w, unit) cprog" where
  "block_threads E = bnd (rd gil) (\<lambda>g. if g then stuck Undefined
    else sq (sysc (x_gil E)) (upd (\<lambda>s. s\<lparr>gil := True\<rparr>)))"

definition gilstate_ensure :: "'w env \<Rightarrow> ('w, bool) cprog" where
  "gilstate_ensure E = bnd (rd gil) (\<lambda>g. if g then ret True
    else sq (sysc (x_gil E)) (sq (upd (\<lambda>s. s\<lparr>gil := True\<rparr>)) (ret False)))"

definition gilstate_release :: "bool \<Rightarrow> ('w, unit) cprog" where
  "gilstate_release g = sq need_gil (upd (\<lambda>s. s\<lparr>gil := g\<rparr>))"

text \<open>\<open>PyErr_SetString\<close>/\<open>PyErr_SetObject\<close>: replace the error indicator.\<close>

definition set_err :: "cls \<Rightarrow> pyobj \<Rightarrow> ('w, unit) cprog" where
  "set_err c v = sq need_gil (upd (\<lambda>s. s\<lparr>curexc := Some (PyErr c v [])\<rparr>))"

definition set_pyerr :: "pyerr \<Rightarrow> ('w, unit) cprog" where
  "set_pyerr e = sq need_gil (upd (\<lambda>s. s\<lparr>curexc := Some e\<rparr>))"

text \<open>
  A C-API call that builds an object and may fail: on failure the error
  indicator is set and the result NULL (None).
\<close>

definition capi :: "'w env \<Rightarrow> string \<Rightarrow> 'a \<Rightarrow> ('w, 'a option) cprog" where
  "capi E f v = sq need_gil (bnd (sysc (x_py E f)) (\<lambda>r. case r of
      None \<Rightarrow> ret (Some v)
    | Some e \<Rightarrow> sq (set_pyerr e) (ret None)))"

text \<open>\<open>if (unlikely(!t)) __PYX_ERR(0, l, label)\<close> after a call that returned \<open>t\<close>.\<close>

definition chk :: "int \<Rightarrow> ('w, 'a option) cprog \<Rightarrow> ('w, 'a) cprog" where
  "chk l m = bnd m (\<lambda>t. case t of None \<Rightarrow> pyx_err 0 l | Some v \<Rightarrow> ret v)"

end
