(* ===== verification/CodeCache.thy ===== *)
theory CodeCache
  imports Env
begin

text \<open>
  The cache of code objects that \<open>__Pyx_AddTraceback\<close> keeps, keyed by the line
  of the source: a sorted array, searched by bisection, grown by 64 slots.
  The locale \<open>code_store\<close> states what the traceback code relies on; it is
  interpreted on the array implementation at the end of the theory.
\<close>

section \<open>The operations\<close>

definition code_line_at :: "(int \<times> pycode) list \<Rightarrow> int \<Rightarrow> int" where
  "code_line_at es i = fst (es ! nat i)"

text \<open>The \<open>while (start < end)\<close> loop: Inl is the early \<open>return mid\<close>, Inr the
  value of \<open>mid\<close> when the loop ends.\<close>

function bisect_loop :: "(int \<times> pycode) list \<Rightarrow> int \<Rightarrow> int \<Rightarrow> int \<Rightarrow> int \<Rightarrow> int + int" where
  "bisect_loop es line start mid en =
    (if start < en then
       (let m = start + (en - start) div 2 in
        if line < code_line_at es m then bisect_loop es line start m m
        else if line > code_line_at es m then bisect_loop es line (m + 1) m en
        else Inl m)
     else Inr mid)"
  by pat_completeness auto
termination
  by (relation "measure (\<lambda>(es, line, start, mid, en). nat (en - start))") auto

declare bisect_loop.simps [simp del]

definition pyx_bisect_code_objects :: "(int \<times> pycode) list \<Rightarrow> nat \<Rightarrow> int \<Rightarrow> int" where
  "pyx_bisect_code_objects es count line =
    (if int count - 1 \<ge> 0 \<and> line > code_line_at es (int count - 1) then int count
     else (case bisect_loop es line 0 0 (int count - 1) of
         Inl m \<Rightarrow> m
       | Inr mid \<Rightarrow> if line \<le> code_line_at es mid then mid else mid + 1))"

definition pyx_find_code_object :: "codecache \<Rightarrow> int \<Rightarrow> pycode option" where
  "pyx_find_code_object cc line = (case cc_entries cc of
      None \<Rightarrow> None
    | Some es \<Rightarrow> if line = 0 then None
        else (let pos = pyx_bisect_code_objects es (cc_count cc) line in
          if pos \<ge> int (cc_count cc) \<or> code_line_at es pos \<noteq> line then None
          else Some (snd (es ! nat pos))))"

text \<open>Slots that \<open>PyMem_Malloc\<close> and \<open>PyMem_Realloc\<close> leave uninitialised.\<close>

definition uninit_slots :: "nat \<Rightarrow> (int \<times> pycode) list" where
  "uninit_slots n = replicate n (0, PyCode [] 0 [])"

text \<open>\<open>for (i = count; i > pos; i--) entries[i] = entries[i-1];\<close>\<close>

fun shift_up :: "nat \<Rightarrow> nat \<Rightarrow> 'a list \<Rightarrow> 'a list" where
  "shift_up i pos es = (if pos < i then shift_up (i - 1) pos (es[i := es ! (i - 1)]) else es)"

declare shift_up.simps [simp del]

text \<open>\<open>mem\<close> says whether the allocation the call may need succeeds.\<close>

definition pyx_insert_code_object :: "bool \<Rightarrow> int \<Rightarrow> pycode \<Rightarrow> codecache \<Rightarrow> codecache" where
  "pyx_insert_code_object mem line code cc =
    (if line = 0 then cc
     else (case cc_entries cc of
       None \<Rightarrow> if mem
         then cc\<lparr>cc_entries := Some ((uninit_slots 64)[0 := (line, code)]), cc_max := 64, cc_count := 1\<rparr>
         else cc
     | Some es \<Rightarrow>
         (let pos = nat (pyx_bisect_code_objects es (cc_count cc) line) in
          if pos < cc_count cc \<and> fst (es ! pos) = line
          then cc\<lparr>cc_entries := Some (es[pos := (line, code)])\<rparr>
          else if cc_count cc = cc_max cc \<and> \<not> mem then cc
          else (let es1 = (if cc_count cc = cc_max cc then es @ uninit_slots 64 else es);
                    mx = (if cc_count cc = cc_max cc then cc_max cc + 64 else cc_max cc) in
            cc\<lparr>cc_entries := Some ((shift_up (cc_count cc) pos es1)[pos := (line, code)]),
               cc_max := mx, cc_count := cc_count cc + 1\<rparr>))))"

definition empty_cache :: codecache where
  "empty_cache = \<lparr>cc_entries = None, cc_count = 0, cc_max = 0\<rparr>"

section \<open>The invariant and the map the array stands for\<close>

definition cc_ok :: "codecache \<Rightarrow> bool" where
  "cc_ok cc = (case cc_entries cc of
      None \<Rightarrow> cc_count cc = 0
    | Some es \<Rightarrow> length es = cc_max cc \<and> 1 \<le> cc_count cc \<and> cc_count cc \<le> cc_max cc
        \<and> sorted_wrt (<) (map fst (take (cc_count cc) es))
        \<and> 0 \<notin> set (map fst (take (cc_count cc) es)))"

definition cc_map :: "codecache \<Rightarrow> int \<Rightarrow> pycode option" where
  "cc_map cc = (case cc_entries cc of None \<Rightarrow> Map.empty | Some es \<Rightarrow> map_of (take (cc_count cc) es))"

text \<open>\<open>splits_at es n line p\<close>: position \<open>p\<close> splits the first \<open>n\<close> keys at \<open>line\<close>.\<close>

definition splits_at :: "(int \<times> pycode) list \<Rightarrow> nat \<Rightarrow> int \<Rightarrow> int \<Rightarrow> bool" where
  "splits_at es n line p = (0 \<le> p \<and> p \<le> int n \<and> (\<forall>i < nat p. fst (es ! i) < line)
    \<and> (\<forall>i. nat p \<le> i \<and> i < n \<longrightarrow> line \<le> fst (es ! i)))"

definition keys_sorted :: "(int \<times> pycode) list \<Rightarrow> nat \<Rightarrow> bool" where
  "keys_sorted es n = (\<forall>i j. i < j \<and> j < n \<longrightarrow> fst (es ! i) < fst (es ! j))"

lemma keys_sorted_iff: "n \<le> length es \<Longrightarrow> sorted_wrt (<) (map fst (take n es)) = keys_sorted es n"
  by (auto simp: sorted_wrt_iff_nth_less keys_sorted_def)

lemma keys_sorted_le: "keys_sorted es n \<Longrightarrow> i \<le> j \<Longrightarrow> j < n \<Longrightarrow> fst (es ! i) \<le> fst (es ! j)"
  by (cases "i = j") (auto simp: keys_sorted_def intro: less_imp_le)

lemma keys_sorted_less: "keys_sorted es n \<Longrightarrow> i < j \<Longrightarrow> j < n \<Longrightarrow> fst (es ! i) < fst (es ! j)"
  by (simp add: keys_sorted_def)

text \<open>The loop keeps: everything before \<open>start\<close> is smaller, everything from
  \<open>en\<close> on is at least \<open>line\<close>, and \<open>mid\<close> is the bound it moved last.\<close>

lemma bisect_loop_correct:
  assumes "keys_sorted es n" and "0 \<le> start" and "start \<le> en" and "en < int n"
    and "\<forall>i < nat start. fst (es ! i) < line"
    and "\<forall>i. nat en \<le> i \<and> i < n \<longrightarrow> line \<le> fst (es ! i)"
    and "mid = en \<and> line < code_line_at es mid \<or> mid + 1 = start \<and> code_line_at es mid < line
      \<or> mid = start"
  shows "case bisect_loop es line start mid en of
      Inl m \<Rightarrow> splits_at es n line m
    | Inr m \<Rightarrow> splits_at es n line (if line \<le> code_line_at es m then m else m + 1)"
  using assms
proof (induction es line start mid en rule: bisect_loop.induct)
  case (1 es line start mid en)
  define m where "m = start + (en - start) div 2"
  show ?case
  proof (cases "start < en")
    case False
    then have se: "start = en" using 1 by simp
    have "bisect_loop es line start mid en = Inr mid"
      using False by (simp add: bisect_loop.simps [of es line start mid en])
    then show ?thesis
      using "1.prems" se by (auto simp: splits_at_def code_line_at_def)
  next
    case True
    have m: "start \<le> m" "m < en" using True by (auto simp: m_def)
    have mn: "nat m < n" using m 1 by auto
    have eq: "bisect_loop es line start mid en = (if line < code_line_at es m then bisect_loop es line start m m
        else if line > code_line_at es m then bisect_loop es line (m + 1) m en else Inl m)"
      using True by (simp add: bisect_loop.simps [of es line start mid en] m_def Let_def)
    consider "line < code_line_at es m" | "line > code_line_at es m" | "line = code_line_at es m"
      by linarith
    then show ?thesis
    proof cases
      case 1
      have ge: "\<forall>i. nat m \<le> i \<and> i < n \<longrightarrow> line \<le> fst (es ! i)"
        using 1 keys_sorted_le [OF "1.prems"(1), of "nat m"] by (force simp: code_line_at_def)
      have "bisect_loop es line start mid en = bisect_loop es line start m m" using eq 1 by simp
      moreover note "1.IH"(1) [OF True m_def 1]
      ultimately show ?thesis using 1 "1.prems" m ge by simp
    next
      case 2
      have lt: "\<forall>i < nat (m + 1). fst (es ! i) < line"
      proof (intro allI impI)
        fix i assume "i < nat (m + 1)"
        then have "i \<le> nat m" using m 1 by auto
        then have "fst (es ! i) \<le> fst (es ! nat m)" by (rule keys_sorted_le [OF "1.prems"(1) _ mn])
        then show "fst (es ! i) < line" using 2 by (simp add: code_line_at_def)
      qed
      have "bisect_loop es line start mid en = bisect_loop es line (m + 1) m en" using eq 2 by simp
      moreover note "1.IH"(2) [OF True m_def _ 2]
      ultimately show ?thesis using 2 "1.prems" m lt by simp
    next
      case 3
      have "\<forall>i < nat m. fst (es ! i) < line"
        using 3 keys_sorted_less [OF "1.prems"(1) _ mn] by (simp add: code_line_at_def)
      moreover have "\<forall>i. nat m \<le> i \<and> i < n \<longrightarrow> line \<le> fst (es ! i)"
        using 3 keys_sorted_le [OF "1.prems"(1), of "nat m"] by (simp add: code_line_at_def)
      ultimately have "splits_at es n line m" using mn m "1.prems"(2,4) by (simp add: splits_at_def)
      then show ?thesis using eq 3 by simp
    qed
  qed
qed


lemma bisect_splits:
  assumes "keys_sorted es n" and "0 < n"
  shows "splits_at es n line (pyx_bisect_code_objects es n line)"
proof (cases "line > code_line_at es (int n - 1)")
  case True
  then have "fst (es ! (n - 1)) < line" using assms(2) by (simp add: code_line_at_def nat_diff_distrib)
  moreover have "fst (es ! i) \<le> fst (es ! (n - 1))" if "i < n" for i
    using that keys_sorted_le [OF assms(1)] by simp
  ultimately have "\<forall>i < n. fst (es ! i) < line" by (meson le_less_trans)
  then show ?thesis using True assms(2) by (simp add: pyx_bisect_code_objects_def splits_at_def)
next
  case False
  have "line \<le> fst (es ! (n - 1))" using False assms(2) by (simp add: code_line_at_def nat_diff_distrib)
  then have last: "\<forall>i. nat (int n - 1) \<le> i \<and> i < n \<longrightarrow> line \<le> fst (es ! i)"
    using assms(2) keys_sorted_le [OF assms(1)] by (auto simp: nat_diff_distrib intro: order_trans)
  show ?thesis
    using bisect_loop_correct [OF assms(1), of 0 "int n - 1" line 0] False assms(2) last
    by (auto simp: pyx_bisect_code_objects_def split: sum.splits if_splits)
qed

lemma splits_at_Some:
  assumes "splits_at es n line p" and "keys_sorted es n" and "n \<le> length es"
  shows "map_of (take n es) line = (if nat p < n \<and> fst (es ! nat p) = line then Some (snd (es ! nat p)) else None)"
proof -
  have d: "distinct (map fst (take n es))"
    using assms(2,3) by (auto simp: distinct_conv_nth neq_iff dest: keys_sorted_less)
  show ?thesis
  proof (cases "nat p < n \<and> fst (es ! nat p) = line")
    case True
    then have "take n es ! nat p \<in> set (take n es)" using assms(3) by (intro nth_mem) simp
    then have "(line, snd (es ! nat p)) \<in> set (take n es)" using True by (metis nth_take prod.collapse)
    then show ?thesis using True d by (simp add: map_of_is_SomeI)
  next
    case False
    have "line \<notin> fst ` set (take n es)"
    proof
      assume "line \<in> fst ` set (take n es)"
      then obtain i where i: "i < n" "fst (es ! i) = line"
        using assms(3) by (auto simp: in_set_conv_nth)
      then have ip: "nat p \<le> i" using assms(1) by (force simp: splits_at_def not_less [symmetric])
      then have "nat p < n" using i by simp
      moreover have "fst (es ! nat p) \<le> line" using keys_sorted_le [OF assms(2) ip i(1)] i(2) by simp
      moreover have "line \<le> fst (es ! nat p)" using assms(1) \<open>nat p < n\<close> by (simp add: splits_at_def)
      ultimately show False using False by simp
    qed
    then show ?thesis using False by (auto simp: map_of_eq_None_iff)
  qed
qed

lemma cc_ok_SomeD:
  assumes "cc_ok cc" and "cc_entries cc = Some es"
  shows "keys_sorted es (cc_count cc)" and "0 < cc_count cc" and "cc_count cc \<le> length es"
    and "length es = cc_max cc" and "0 \<notin> set (map fst (take (cc_count cc) es))"
  using assms by (auto simp: cc_ok_def keys_sorted_iff)

lemma map_of_ne_key: "0 \<notin> set (map fst xs) \<Longrightarrow> map_of xs 0 = None"
  by (auto simp: map_of_eq_None_iff)

lemma find_is_cc_map:
  assumes "cc_ok cc"
  shows "pyx_find_code_object cc line = cc_map cc line"
proof (cases "cc_entries cc")
  case None
  then show ?thesis by (simp add: pyx_find_code_object_def cc_map_def)
next
  case (Some es)
  note ok = cc_ok_SomeD [OF assms Some]
  have sp: "splits_at es (cc_count cc) line (pyx_bisect_code_objects es (cc_count cc) line)"
    by (rule bisect_splits [OF ok(1,2)])
  show ?thesis
    using splits_at_Some [OF sp ok(1,3)] map_of_ne_key [OF ok(5)] sp
    by (auto simp: pyx_find_code_object_def cc_map_def Some Let_def code_line_at_def splits_at_def)
qed

lemma shift_up_length [simp]: "length (shift_up i pos es) = length es"
  by (induction i pos es rule: shift_up.induct) (simp add: shift_up.simps)

lemma shift_up_nth:
  "j < length es \<Longrightarrow> i < length es \<Longrightarrow>
    shift_up i pos es ! j = (if pos < j \<and> j \<le> i then es ! (j - 1) else es ! j)"
proof (induction i pos es rule: shift_up.induct)
  case (1 i pos es)
  show ?case
  proof (cases "pos < i")
    case True
    have "shift_up i pos es ! j = shift_up (i - 1) pos (es[i := es ! (i - 1)]) ! j"
      using True by (simp add: shift_up.simps [of i])
    also have "\<dots> = (if pos < j \<and> j \<le> i - 1 then es[i := es ! (i - 1)] ! (j - 1) else es[i := es ! (i - 1)] ! j)"
      using 1 True by simp
    also have "\<dots> = (if pos < j \<and> j \<le> i then es ! (j - 1) else es ! j)"
      using True 1(2,3) by (cases "j = i") auto
    finally show ?thesis .
  next
    case False
    then show ?thesis by (auto simp: shift_up.simps [of i])
  qed
qed

lemma take_shift_insert:
  assumes "p \<le> n" and "n < length es"
  shows "take (Suc n) ((shift_up n p es)[p := x]) = take p es @ x # drop p (take n es)"
proof (rule nth_equalityI)
  show "length (take (Suc n) ((shift_up n p es)[p := x])) = length (take p es @ x # drop p (take n es))"
    using assms by simp
next
  fix j assume "j < length (take (Suc n) ((shift_up n p es)[p := x]))"
  then have j: "j \<le> n" using assms by simp
  show "take (Suc n) ((shift_up n p es)[p := x]) ! j = (take p es @ x # drop p (take n es)) ! j"
    using assms j by (cases "j < p"; cases "j = p")
      (auto simp: shift_up_nth nth_append nth_list_update nth_Cons' min_def)
qed

lemma map_of_insert_mid:
  "k \<notin> fst ` set xs \<Longrightarrow> map_of (xs @ (k, v) # ys) = (map_of (xs @ ys))(k \<mapsto> v)"
  by (induction xs) auto


lemma strict_sorted_insert:
  assumes "sorted_wrt (<) (xs @ ys)" and "\<forall>x \<in> set xs. x < k" and "\<forall>y \<in> set ys. k < (y :: int)"
  shows "sorted_wrt (<) (xs @ k # ys)"
  using assms by (auto simp: sorted_wrt_append)

text \<open>
  What an insertion does to the sorted prefix, in the three cases of the code:
  first allocation, replacement of the object under an existing key, shift
  and store (with or without growing the array).
\<close>

lemma insert_first:
  assumes "cc_entries cc = None" and "line \<noteq> 0"
  shows "cc_ok (pyx_insert_code_object True line code cc)"
    and "cc_map (pyx_insert_code_object True line code cc) = [line \<mapsto> code]"
  using assms by (simp_all add: pyx_insert_code_object_def cc_ok_def cc_map_def uninit_slots_def
      numeral_eq_Suc list_update_code)

lemma insert_replace:
  assumes "cc_ok cc" and "cc_entries cc = Some es" and "line \<noteq> 0"
    and "nat p < cc_count cc" and "fst (es ! nat p) = line"
    and "p = pyx_bisect_code_objects es (cc_count cc) line"
  shows "cc_ok (pyx_insert_code_object mem line code cc)"
    and "cc_map (pyx_insert_code_object mem line code cc) = (cc_map cc)(line \<mapsto> code)"
proof -
  note ok = cc_ok_SomeD [OF assms(1,2)]
  let ?n = "cc_count cc" and ?i = "nat p"
  have eq: "pyx_insert_code_object mem line code cc = cc\<lparr>cc_entries := Some (es[?i := (line, code)])\<rparr>"
    using assms by (simp add: pyx_insert_code_object_def Let_def)
  have tk: "take ?n (es[?i := (line, code)]) = (take ?n es)[?i := (line, code)]"
    by (simp add: take_update_swap)
  have keys: "map fst (take ?n (es[?i := (line, code)])) = map fst (take ?n es)"
    using assms(4,5) ok(3) by (simp add: tk map_update list_update_same_conv)
  show "cc_ok (pyx_insert_code_object mem line code cc)"
    using assms(1,2) keys by (simp add: eq cc_ok_def)
  have pre: "line \<notin> fst ` set (take ?i es)"
    using ok(3) assms(4,5) keys_sorted_less [OF ok(1) _ assms(4)] by (fastforce simp: in_set_conv_nth)
  have "(line, snd (es ! ?i)) = es ! ?i" using assms(5) by (simp add: prod_eq_iff)
  then have "take ?n es = take ?i es @ (line, snd (es ! ?i)) # drop (Suc ?i) (take ?n es)"
    using id_take_nth_drop [of ?i "take ?n es"] assms(4) ok(3) by (simp add: min_absorb1)
  moreover have "(take ?n es)[?i := (line, code)] = take ?i es @ (line, code) # drop (Suc ?i) (take ?n es)"
    using upd_conv_take_nth_drop [of ?i "take ?n es"] assms(4) ok(3) by (simp add: min_def)
  ultimately have "map_of ((take ?n es)[?i := (line, code)]) = (map_of (take ?n es))(line \<mapsto> code)"
    using map_of_insert_mid [OF pre] by (metis fun_upd_upd)
  then show "cc_map (pyx_insert_code_object mem line code cc) = (cc_map cc)(line \<mapsto> code)"
    using assms(2) by (simp add: eq cc_map_def tk)
qed

lemma insert_shift:
  assumes "cc_ok cc" and "cc_entries cc = Some es" and "line \<noteq> 0"
    and "\<not> (nat p < cc_count cc \<and> fst (es ! nat p) = line)"
    and "p = pyx_bisect_code_objects es (cc_count cc) line"
    and "cc_count cc = cc_max cc \<Longrightarrow> mem"
  shows "cc_ok (pyx_insert_code_object mem line code cc)"
    and "cc_map (pyx_insert_code_object mem line code cc) = (cc_map cc)(line \<mapsto> code)"
proof -
  note ok = cc_ok_SomeD [OF assms(1,2)]
  let ?n = "cc_count cc" and ?i = "nat p"
  define es1 where "es1 = (if ?n = cc_max cc then es @ uninit_slots 64 else es)"
  define mx where "mx = (if ?n = cc_max cc then cc_max cc + 64 else cc_max cc)"
  have sp: "splits_at es ?n line p" unfolding assms(5) by (rule bisect_splits [OF ok(1,2)])
  have i: "?i \<le> ?n" using sp by (auto simp: splits_at_def)
  have len: "length es1 = mx" "?n < mx" using ok(3,4) by (auto simp: es1_def mx_def uninit_slots_def)
  have tn: "take ?n es1 = take ?n es" "take ?i es1 = take ?i es" using ok(3) i by (auto simp: es1_def)
  have eq: "pyx_insert_code_object mem line code cc = cc\<lparr>cc_entries :=
      Some ((shift_up ?n ?i es1)[?i := (line, code)]), cc_max := mx, cc_count := ?n + 1\<rparr>"
    using assms(2-6) by (auto simp: pyx_insert_code_object_def Let_def es1_def mx_def)
  let ?l = "take ?i es" and ?r = "drop ?i (take ?n es)"
  have tk: "take (?n + 1) ((shift_up ?n ?i es1)[?i := (line, code)]) = ?l @ (line, code) # ?r"
    using take_shift_insert [OF i, of es1 "(line, code)"] len tn by simp
  have lr: "take ?n es = ?l @ ?r" using i by (metis append_take_drop_id min.absorb1 take_take)
  then have ks: "map fst (take ?n es) = map fst ?l @ map fst ?r" by (metis map_append)
  have lt: "\<forall>x \<in> set (map fst ?l). x < line"
    using sp ok(3) i by (fastforce simp: splits_at_def in_set_conv_nth)
  have gt: "\<forall>x \<in> set (map fst ?r). line < x"
  proof
    fix x assume "x \<in> set (map fst ?r)"
    then obtain j where "j < length ?r" "x = map fst ?r ! j" by (auto simp: in_set_conv_nth)
    then have j: "?i + j < ?n" "x = fst (es ! (?i + j))" using ok(3) i by auto
    have "line \<le> x" using sp j by (simp add: splits_at_def)
    moreover have "x \<noteq> line"
    proof
      assume "x = line"
      moreover have "fst (es ! ?i) \<le> x" using keys_sorted_le [OF ok(1), of ?i "?i + j"] j by simp
      moreover have "line \<le> fst (es ! ?i)" using sp j by (simp add: splits_at_def)
      ultimately show False using assms(4) j by simp
    qed
    ultimately show "line < x" by simp
  qed
  have so: "sorted_wrt (<) (map fst ?l @ map fst ?r)"
    using ok(1) by (simp only: keys_sorted_iff [OF ok(3), symmetric] ks)
  have so': "sorted_wrt (<) (map fst (?l @ (line, code) # ?r))"
    using strict_sorted_insert [OF so lt gt] by simp
  have z: "0 \<notin> set (map fst (?l @ (line, code) # ?r))"
    using ok(5) assms(3) by (simp only: ks) auto
  show "cc_ok (pyx_insert_code_object mem line code cc)"
    using so' z tk len by (simp add: eq cc_ok_def)
  have "line \<notin> fst ` set ?l" using lt by auto
  then show "cc_map (pyx_insert_code_object mem line code cc) = (cc_map cc)(line \<mapsto> code)"
    using map_of_insert_mid [of line ?l code ?r] lr assms(2) tk by (simp add: eq cc_map_def)
qed

lemma insert_code_object_ok:
  assumes "cc_ok cc"
  shows "cc_ok (pyx_insert_code_object mem line code cc)"
    and "cc_map (pyx_insert_code_object mem line code cc) = cc_map cc
      \<or> line \<noteq> 0 \<and> cc_map (pyx_insert_code_object mem line code cc) = (cc_map cc)(line \<mapsto> code)"
    and "line \<noteq> 0 \<Longrightarrow> mem \<Longrightarrow>
      cc_map (pyx_insert_code_object mem line code cc) = (cc_map cc)(line \<mapsto> code)"
proof -
  let ?I = "pyx_insert_code_object mem line code cc"
  have "cc_ok ?I \<and> (?I = cc \<and> (line = 0 \<or> \<not> mem) \<or> line \<noteq> 0 \<and> cc_map ?I = (cc_map cc)(line \<mapsto> code))"
  proof (cases "line = 0")
    case True
    then show ?thesis using assms by (simp add: pyx_insert_code_object_def)
  next
    case nz: False
    show ?thesis
    proof (cases "cc_entries cc")
      case None
      then show ?thesis using nz assms insert_first [OF None nz, of code]
        by (cases mem) (auto simp: pyx_insert_code_object_def cc_map_def)
    next
      case (Some es)
      let ?p = "pyx_bisect_code_objects es (cc_count cc) line"
      consider "nat ?p < cc_count cc \<and> fst (es ! nat ?p) = line"
        | "\<not> (nat ?p < cc_count cc \<and> fst (es ! nat ?p) = line)" "cc_count cc = cc_max cc \<Longrightarrow> mem"
        | "\<not> (nat ?p < cc_count cc \<and> fst (es ! nat ?p) = line)" "cc_count cc = cc_max cc" "\<not> mem"
        by blast
      then show ?thesis
      proof cases
        case 1
        then show ?thesis using insert_replace [OF assms Some nz, of ?p] nz by simp
      next
        case 2
        then show ?thesis using insert_shift [OF assms Some nz, of ?p mem] nz by simp
      next
        case 3
        then have "?I = cc" using Some nz by (auto simp: pyx_insert_code_object_def Let_def)
        then show ?thesis using 3 assms by simp
      qed
    qed
  qed
  then show "cc_ok ?I" "cc_map ?I = cc_map cc \<or> line \<noteq> 0 \<and> cc_map ?I = (cc_map cc)(line \<mapsto> code)"
    "line \<noteq> 0 \<Longrightarrow> mem \<Longrightarrow> cc_map ?I = (cc_map cc)(line \<mapsto> code)" by auto
qed

section \<open>The interface the traceback code uses\<close>

text \<open>
  A store of code objects under line numbers: \<open>get\<close> after a successful
  \<open>put\<close> returns what was put and changes no other line, and a \<open>put\<close> that runs
  out of memory changes nothing else than at most its own line.
\<close>

locale code_store =
  fixes get :: "'s \<Rightarrow> int \<Rightarrow> pycode option"
    and put :: "bool \<Rightarrow> int \<Rightarrow> pycode \<Rightarrow> 's \<Rightarrow> 's"
    and ok :: "'s \<Rightarrow> bool"
    and empty_st :: 's
  assumes ok_empty: "ok empty_st"
    and get_empty: "get empty_st k = None"
    and ok_put: "ok s \<Longrightarrow> ok (put mem k c s)"
    and get_put: "ok s \<Longrightarrow> k \<noteq> 0 \<Longrightarrow> get (put True k c s) j = (if j = k then Some c else get s j)"
    and get_put_any: "ok s \<Longrightarrow> get (put mem k c s) j = get s j \<or> j = k \<and> get (put mem k c s) j = Some c"
begin

text \<open>The look-up-or-insert that a client does: the code object used, and the store.\<close>

definition fetch :: "bool \<Rightarrow> int \<Rightarrow> pycode \<Rightarrow> 's \<Rightarrow> pycode \<times> 's" where
  "fetch mem k mk s = (case get s k of Some c \<Rightarrow> (c, s) | None \<Rightarrow> (mk, put mem k mk s))"

lemma fetch_ok: "ok s \<Longrightarrow> ok (snd (fetch mem k mk s))"
  by (simp add: fetch_def ok_put split: option.splits)

text \<open>Once fetched with memory available, a line keeps its code object.\<close>

lemma fetch_stable:
  "ok s \<Longrightarrow> k \<noteq> 0 \<Longrightarrow> fst (fetch mem k mk' (snd (fetch True k mk s))) = fst (fetch True k mk s)"
  by (simp add: fetch_def get_put split: option.splits)

text \<open>A property of the stored pairs that the inserted pairs have is kept, and
  holds of every code object fetched.\<close>

lemma fetch_all:
  assumes "ok s" and "\<And>j c. get s j = Some c \<Longrightarrow> P j c" and "P k mk"
  shows "P k (fst (fetch mem k mk s))"
    and "get (snd (fetch mem k mk s)) j = Some c \<Longrightarrow> P j c"
  using assms get_put_any [OF assms(1), of mem k mk j]
  by (auto simp: fetch_def split: option.splits)

end

interpretation cc: code_store pyx_find_code_object pyx_insert_code_object cc_ok empty_cache
proof
  show "cc_ok empty_cache" by (simp add: cc_ok_def empty_cache_def)
next
  fix k show "pyx_find_code_object empty_cache k = None"
    by (simp add: pyx_find_code_object_def empty_cache_def)
next
  fix s :: codecache and mem k c assume s: "cc_ok s"
  then show ok: "cc_ok (pyx_insert_code_object mem k c s)" by (rule insert_code_object_ok)
  fix j
  show "pyx_find_code_object (pyx_insert_code_object mem k c s) j = pyx_find_code_object s j
      \<or> j = k \<and> pyx_find_code_object (pyx_insert_code_object mem k c s) j = Some c"
    using insert_code_object_ok(2) [OF s, of mem k c] by (auto simp: find_is_cc_map s ok split: if_splits)
next
  fix s :: codecache and k c j assume s: "cc_ok s" and k: "k \<noteq> (0 :: int)"
  then have "cc_ok (pyx_insert_code_object True k c s)" by (intro insert_code_object_ok)
  then show "pyx_find_code_object (pyx_insert_code_object True k c s) j
      = (if j = k then Some c else pyx_find_code_object s j)"
    using insert_code_object_ok(3) [OF s k] s by (simp add: find_is_cc_map)
qed

end
