(* ===== verification/Runtime.thy ===== *)
theory Runtime
  imports CodeCache
begin

text \<open>
  The Cython run-time part of HybridLock.c that the lock class uses: the
  error indicator, names of the module, calls, \<open>raise\<close>, exception matching
  and tracebacks; with the error protocol (\<open>sound\<close>) as their contract.
\<close>

section \<open>Exception classes\<close>

definition exc_class :: "cls \<Rightarrow> bool" where
  "exc_class c = (BaseExceptionT \<in> set (tp_mro c))"

text \<open>\<open>__Pyx_InBases\<close>: the walk along \<open>tp_base\<close>.\<close>

function in_bases :: "cls option \<Rightarrow> cls \<Rightarrow> bool" where
  "in_bases None b = (b = ObjectT)"
| "in_bases (Some a) b = (tp_base a = Some b \<or> in_bases (tp_base a) b)"
  by pat_completeness auto
termination
  by (relation "measure (\<lambda>(a, b). case a of None \<Rightarrow> 0 | Some c \<Rightarrow> Suc (cls_rank c))")
    (auto split: option.splits dest: tp_base_rank)

text \<open>\<open>__Pyx_IsSubtype\<close>; \<open>mro\<close> is \<open>a->tp_mro\<close>, None for a type that was not
  made ready.\<close>

definition is_subtype_mro :: "cls list option \<Rightarrow> cls \<Rightarrow> cls \<Rightarrow> bool" where
  "is_subtype_mro mro a b = (if a = b then True
    else (case mro of Some m \<Rightarrow> list_ex (\<lambda>c. c = b) m | None \<Rightarrow> in_bases (Some a) b))"

definition pyx_IsSubtype :: "cls \<Rightarrow> cls \<Rightarrow> bool" where
  "pyx_IsSubtype a b = is_subtype_mro (Some (tp_mro a)) a b"

definition inner_matches2 :: "cls \<Rightarrow> cls option \<Rightarrow> cls \<Rightarrow> bool" where
  "inner_matches2 err t1 t2 =
    (let res = (case t1 of Some t \<Rightarrow> pyx_IsSubtype err t | None \<Rightarrow> False)
     in if \<not> res then pyx_IsSubtype err t2 else res)"

definition given_matches_tuple :: "cls \<Rightarrow> pyobj list \<Rightarrow> bool" where
  "given_matches_tuple err ts =
    (if list_ex (\<lambda>t. t = PyCls err) ts then True
     else list_ex (\<lambda>t. case t of PyCls c \<Rightarrow> exc_class c \<and> inner_matches2 err None c | _ \<Rightarrow> False) ts)"

text \<open>\<open>PyErr_GivenExceptionMatches\<close> of the C-API: tuples are searched, two
  exception classes are compared by subclass, anything else by identity.\<close>

fun api_given_matches :: "cls \<Rightarrow> pyobj \<Rightarrow> bool" where
  "api_given_matches err (PyTuple ts) = (\<exists>t \<in> set ts. api_given_matches err t)"
| "api_given_matches err (PyCls c) = (if exc_class err \<and> exc_class c then c \<in> set (tp_mro err) else err = c)"
| "api_given_matches err _ = False"

definition pyx_GivenExceptionMatches :: "cls \<Rightarrow> pyobj \<Rightarrow> bool" where
  "pyx_GivenExceptionMatches err t =
    (if t = PyCls err then True
     else if exc_class err then
       (case t of
          PyCls c \<Rightarrow> if exc_class c then inner_matches2 err None c else api_given_matches err t
        | PyTuple ts \<Rightarrow> given_matches_tuple err ts
        | _ \<Rightarrow> api_given_matches err t)
     else api_given_matches err t)"

definition pyx_GivenExceptionMatches2 :: "cls \<Rightarrow> cls \<Rightarrow> cls \<Rightarrow> bool" where
  "pyx_GivenExceptionMatches2 err t1 t2 =
    (if err = t1 \<or> err = t2 then True
     else if exc_class err then inner_matches2 err (Some t1) t2
     else api_given_matches err (PyCls t1) \<or> api_given_matches err (PyCls t2))"

definition exception_matches_tuple :: "cls \<Rightarrow> pyobj list \<Rightarrow> bool" where
  "exception_matches_tuple err ts =
    (if list_ex (\<lambda>t. t = PyCls err) ts then True
     else list_ex (pyx_GivenExceptionMatches err) ts)"

text \<open>\<open>__Pyx_PyErr_ExceptionMatches\<close> on the error indicator of the thread.\<close>

definition pyx_ExceptionMatches :: "pyerr option \<Rightarrow> pyobj \<Rightarrow> bool" where
  "pyx_ExceptionMatches cur err = (case cur of
      None \<Rightarrow> False
    | Some e \<Rightarrow> if err = PyCls (e_type e) then True
        else (case err of
            PyTuple ts \<Rightarrow> exception_matches_tuple (e_type e) ts
          | _ \<Rightarrow> pyx_GivenExceptionMatches (e_type e) err))"

lemma tp_mro_refl [simp]: "c \<in> set (tp_mro c)"
  by (subst tp_mro.simps) simp

lemma tp_mro_unfold: "set (tp_mro a) = insert a (case tp_base a of None \<Rightarrow> {} | Some b \<Rightarrow> set (tp_mro b))"
  by (subst tp_mro.simps) (simp split: option.splits)

lemma tp_mro_rank: "d \<in> set (tp_mro c) \<Longrightarrow> cls_rank d \<le> cls_rank c"
proof (induction c rule: tp_mro.induct)
  case (1 c)
  then show ?case using tp_base_rank [of c]
    by (auto simp: tp_mro_unfold [of c] split: option.splits dest!: less_imp_le intro: order_trans)
qed

lemma tp_base_None: "tp_base a = None \<Longrightarrow> a = ObjectT"
  by (cases a) auto

text \<open>Every class ends in \<open>object\<close>, so the two ways of \<open>__Pyx_IsSubtype\<close> agree.\<close>

lemma object_in_mro [simp]: "ObjectT \<in> set (tp_mro a)"
proof (induction a rule: tp_mro.induct)
  case (1 a)
  then show ?case by (auto simp: tp_mro_unfold [of a] split: option.splits dest: tp_base_None)
qed

lemma in_bases_mro: "in_bases (Some a) b = (b \<in> set (tp_mro a) - {a} \<or> b = ObjectT)"
proof (induction a rule: tp_mro.induct)
  case (1 a)
  show ?case
  proof (cases "tp_base a")
    case None
    then show ?thesis by (auto simp: tp_mro_unfold [of a])
  next
    case (Some c)
    have "a \<notin> set (tp_mro c)" using tp_base_rank [OF Some] tp_mro_rank [of a c] by auto
    then show ?thesis using 1 [OF Some] Some by (auto simp: tp_mro_unfold [of a])
  qed
qed

lemma is_subtype_agree: "is_subtype_mro None a b = is_subtype_mro (Some (tp_mro a)) a b"
  by (auto simp: is_subtype_mro_def in_bases_mro list_ex_iff simp del: in_bases.simps)

lemma IsSubtype_mro: "pyx_IsSubtype a b = (b \<in> set (tp_mro a))"
  by (auto simp: pyx_IsSubtype_def is_subtype_mro_def list_ex_iff)

lemma inner_matches2_iff:
  "inner_matches2 e t1 t2 = ((\<exists>t. t1 = Some t \<and> t \<in> set (tp_mro e)) \<or> t2 \<in> set (tp_mro e))"
  by (auto simp: inner_matches2_def IsSubtype_mro Let_def split: option.splits)

lemma GivenExceptionMatches_cls:
  "exc_class e \<Longrightarrow> pyx_GivenExceptionMatches e (PyCls c) = (c \<in> set (tp_mro e) \<and> (exc_class c \<or> c = e))"
  by (auto simp: pyx_GivenExceptionMatches_def inner_matches2_iff)

text \<open>A tuple without nested tuples is matched as the interpreter matches it.\<close>

lemma given_matches_tuple_api:
  assumes "exc_class e" and "\<forall>t \<in> set ts. \<exists>c. t = PyCls c"
  shows "given_matches_tuple e ts = api_given_matches e (PyTuple ts)"
proof -
  have cls: "api_given_matches e t = (t = PyCls e
      \<or> (case t of PyCls c \<Rightarrow> exc_class c \<and> inner_matches2 e None c | _ \<Rightarrow> False))"
    if "t \<in> set ts" for t
    using that assms by (auto simp: inner_matches2_iff)
  show ?thesis
    by (simp add: given_matches_tuple_def list_ex_iff) (use cls in blast)
qed

section \<open>The error indicator\<close>

definition err_restore :: "pyerr option \<Rightarrow> ('w, unit) cprog" where
  "err_restore e = sq need_gil (upd (\<lambda>s. s\<lparr>curexc := e\<rparr>))"

definition err_fetch :: "('w, pyerr option) cprog" where
  "err_fetch = sq need_gil (bnd (rd curexc) (\<lambda>e. sq (upd (\<lambda>s. s\<lparr>curexc := None\<rparr>)) (ret e)))"

definition pyerr_occurred :: "('w, bool) cprog" where
  "pyerr_occurred = sq need_gil (rd (\<lambda>s. curexc s \<noteq> None))"

section \<open>Names and calls\<close>

text \<open>\<open>__Pyx_GetBuiltinName\<close>: an attribute of the module \<open>builtins\<close>; whatever
  made the look-up fail is replaced by a NameError.\<close>

definition pyx_GetBuiltinName :: "'w env \<Rightarrow> string \<Rightarrow> ('w, pyobj option) cprog" where
  "pyx_GetBuiltinName E name =
    bnd (capi E ''PyObject_GetAttr'' ()) (\<lambda>r. bnd (rd (\<lambda>s. bdict s name)) (\<lambda>b.
      case (r, b) of
        (Some _, Some v) \<Rightarrow> ret (Some v)
      | _ \<Rightarrow> sq (set_err NameErrorT (PyStr (''name '' @ [CHR 0x27] @ name @ [CHR 0x27] @ '' is not defined'')))
              (ret None)))"

definition pyx_GetModuleGlobalName :: "'w env \<Rightarrow> string \<Rightarrow> ('w, pyobj option) cprog" where
  "pyx_GetModuleGlobalName E name =
    bnd (capi E ''_PyDict_GetItem_KnownHash'' ()) (\<lambda>r. case r of
        None \<Rightarrow> ret None
      | Some _ \<Rightarrow> bnd (rd (\<lambda>s. mdict s name)) (\<lambda>v. case v of
            Some x \<Rightarrow> ret (Some x)
          | None \<Rightarrow> pyx_GetBuiltinName E name))"

text \<open>
  \<open>__Pyx_PyObject_Call\<close>.  A call of an exception class creates an instance
  with these arguments or fails; a call of any other object is \<open>x_call\<close>.  A
  NULL result without an exception becomes a SystemError.
\<close>

definition call_slot :: "'w env \<Rightarrow> pyobj \<Rightarrow> pyobj list \<Rightarrow> ('w, pyobj option) cprog" where
  "call_slot E f args = (case f of
      PyCls c \<Rightarrow> if exc_class c then capi E ''tp_call'' (PyExc c args)
        else bnd (sysc (x_call E f args)) (\<lambda>(r, e). case e of
            None \<Rightarrow> ret r | Some x \<Rightarrow> sq (set_pyerr x) (ret None))
    | _ \<Rightarrow> bnd (sysc (x_call E f args)) (\<lambda>(r, e). case e of
            None \<Rightarrow> ret r | Some x \<Rightarrow> sq (set_pyerr x) (ret None)))"

definition pyx_call_checked :: "'w env \<Rightarrow> ('w, pyobj option) cprog \<Rightarrow> ('w, pyobj option) cprog" where
  "pyx_call_checked E slot =
    bnd (capi E ''Py_EnterRecursiveCall'' ()) (\<lambda>t. case t of
        None \<Rightarrow> ret None
      | Some _ \<Rightarrow> bnd slot (\<lambda>r. case r of
            Some v \<Rightarrow> ret (Some v)
          | None \<Rightarrow> bnd pyerr_occurred (\<lambda>b. if b then ret None
              else sq (set_err SystemErrorT (PyStr ''NULL result without error in PyObject_Call'')) (ret None))))"

definition pyx_PyObject_Call :: "'w env \<Rightarrow> pyobj \<Rightarrow> pyobj list \<Rightarrow> ('w, pyobj option) cprog" where
  "pyx_PyObject_Call E f args = pyx_call_checked E (call_slot E f args)"

text \<open>
  An operator applied to objects of other types runs code of those types:
  the call \<open>x_call\<close> of the special method; the C-API guarantees an exception
  when it returns NULL.
\<close>

definition op_call :: "'w env \<Rightarrow> string \<Rightarrow> pyobj list \<Rightarrow> ('w, pyobj option) cprog" where
  "op_call E m args = bnd (sysc (x_call E (PyMeth 0 m) args)) (\<lambda>(r, e). case e of
      Some x \<Rightarrow> sq (set_pyerr x) (ret None)
    | None \<Rightarrow> (case r of
        Some v \<Rightarrow> ret (Some v)
      | None \<Rightarrow> sq (set_err SystemErrorT (PyStr ''NULL result without error'')) (ret None)))"

definition api_number_add :: "'w env \<Rightarrow> pyobj \<Rightarrow> pyobj \<Rightarrow> ('w, pyobj option) cprog" where
  "api_number_add E a b = (case (a, b) of
      (PyStr x, PyStr y) \<Rightarrow> capi E ''PyNumber_Add'' (PyStr (x @ y))
    | _ \<Rightarrow> op_call E ''__add__'' [a, b])"

definition api_richcompare_eq :: "'w env \<Rightarrow> pyobj \<Rightarrow> pyobj \<Rightarrow> ('w, pyobj option) cprog" where
  "api_richcompare_eq E a b = (case (a, b) of
      (PyInt x, PyInt y) \<Rightarrow> capi E ''PyObject_RichCompare'' (PyBool (x = y))
    | _ \<Rightarrow> op_call E ''__eq__'' [a, b])"

text \<open>\<open>__Pyx_PyObject_IsTrue\<close>: None is the result \<open>-1\<close>.\<close>

definition pyx_IsTrue :: "'w env \<Rightarrow> pyobj \<Rightarrow> ('w, bool option) cprog" where
  "pyx_IsTrue E x = (case x of
      PyBool b \<Rightarrow> ret (Some b)
    | PyNone \<Rightarrow> ret (Some False)
    | _ \<Rightarrow> bnd (op_call E ''__bool__'' [x]) (\<lambda>r. case r of
        None \<Rightarrow> ret None
      | Some v \<Rightarrow> ret (Some (v = PyBool True))))"

text \<open>\<open>__Pyx_decode_c_string(cstring, start, stop, NULL, errors, PyUnicode_DecodeUTF8)\<close>.\<close>

definition pyx_decode_c_string :: "'w env \<Rightarrow> string \<Rightarrow> int \<Rightarrow> int \<Rightarrow> ('w, pyobj option) cprog" where
  "pyx_decode_c_string E cs start0 stop0 =
    (let len = int (length (c_str cs));
         start = (if start0 < 0 then (if start0 + len < 0 then 0 else start0 + len) else start0);
         stop = (if stop0 < 0 then stop0 + len else stop0)
     in if stop \<le> start then ret (Some (PyStr []))
        else capi E ''PyUnicode_DecodeUTF8'' (PyStr (take (nat (stop - start)) (drop (nat start) cs))))"

text \<open>\<open>__Pyx_PyObject_CallNoArg\<close> and \<open>__Pyx_PyObject_CallOneArg\<close>: the argument
  tuple is built (\<open>PyTuple_New\<close> may fail), then the object is called.\<close>

definition pyx_PyObject_CallNoArg :: "'w env \<Rightarrow> pyobj \<Rightarrow> ('w, pyobj option) cprog" where
  "pyx_PyObject_CallNoArg E f = pyx_PyObject_Call E f []"

definition pyx_PyObject_CallOneArg :: "'w env \<Rightarrow> pyobj \<Rightarrow> pyobj \<Rightarrow> ('w, pyobj option) cprog" where
  "pyx_PyObject_CallOneArg E f x = bnd (capi E ''PyTuple_New'' ()) (\<lambda>t. case t of
      None \<Rightarrow> ret None | Some _ \<Rightarrow> pyx_PyObject_Call E f [x])"

section \<open>raise\<close>

text \<open>
  \<open>__Pyx_Raise(type, value, 0, 0)\<close>: HybridLock.c never passes a traceback or
  a cause.  It always leaves the error indicator set.
\<close>

definition raise_instance :: "'w env \<Rightarrow> cls \<Rightarrow> pyobj option \<Rightarrow> ('w, pyobj option) cprog" where
  "raise_instance E c v =
    bnd (case v of
          None \<Rightarrow> capi E ''PyTuple_New'' []
        | Some (PyTuple xs) \<Rightarrow> ret (Some xs)
        | Some x \<Rightarrow> capi E ''PyTuple_Pack'' [x]) (\<lambda>args. case args of
        None \<Rightarrow> ret None
      | Some xs \<Rightarrow> bnd (pyx_PyObject_Call E (PyCls c) xs) (\<lambda>o1. case o1 of
          None \<Rightarrow> ret None
        | Some i \<Rightarrow> if exc_class (py_type i) then ret (Some i)
            else sq (set_err TypeErrorT (PyStr ''calling a class should have returned an instance of BaseException''))
                    (ret None)))"

definition pyx_Raise :: "'w env \<Rightarrow> pyobj \<Rightarrow> pyobj option \<Rightarrow> ('w, unit) cprog" where
  "pyx_Raise E t value0 =
    (let value = (if value0 = Some PyNone then None else value0) in
     if exc_class (py_type t) then
       (case value of
          Some _ \<Rightarrow> set_err TypeErrorT (PyStr ''instance exception may not have a separate value'')
        | None \<Rightarrow> set_err (py_type t) t)
     else (case t of
        PyCls c \<Rightarrow>
          if exc_class c then
            (case value of
               Some v \<Rightarrow>
                 if exc_class (py_type v) \<and> (py_type v = c \<or> pyx_IsSubtype (py_type v) c)
                 then set_err (py_type v) v
                 else bnd (raise_instance E c (Some v)) (\<lambda>i. case i of
                     None \<Rightarrow> ret () | Some o1 \<Rightarrow> set_err c o1)
             | None \<Rightarrow> bnd (raise_instance E c None) (\<lambda>i. case i of
                     None \<Rightarrow> ret () | Some o1 \<Rightarrow> set_err c o1))
          else set_err TypeErrorT (PyStr ''raise: exception class must be a subclass of BaseException'')
      | _ \<Rightarrow> set_err TypeErrorT (PyStr ''raise: exception class must be a subclass of BaseException'')))"

section \<open>Tracebacks\<close>

text \<open>
  \<open>__Pyx_AddTraceback(funcname, c_line, py_line, filename)\<close> with \<open>c_line = 0\<close>,
  which is what \<open>__Pyx_CLineForTraceback\<close> returns unless a program sets
  \<open>cython_runtime.cline_in_traceback\<close>.  Each failure leaves the exception of
  the C-API call that failed in the place of the current one.
\<close>

definition pyx_CreateCodeObject :: "'w env \<Rightarrow> string \<Rightarrow> int \<Rightarrow> string \<Rightarrow> ('w, pycode option) cprog" where
  "pyx_CreateCodeObject E funcname py_line filename =
    capi E ''PyCode_NewEmpty'' (PyCode funcname py_line filename)"

definition add_tb :: "tbent \<Rightarrow> pyerr \<Rightarrow> pyerr" where
  "add_tb x e = PyErr (e_type e) (e_value e) (x # e_tb e)"

definition traceback_here :: "'w env \<Rightarrow> pycode \<Rightarrow> int \<Rightarrow> ('w, unit) cprog" where
  "traceback_here E code py_line =
    bnd (capi E ''PyFrame_New'' ()) (\<lambda>f. case f of
        None \<Rightarrow> ret ()
      | Some _ \<Rightarrow> bnd (capi E ''PyTraceBack_Here'' ()) (\<lambda>t. case t of
            None \<Rightarrow> ret ()
          | Some _ \<Rightarrow> upd (\<lambda>s. s\<lparr>curexc := map_option (add_tb (code, py_line)) (curexc s)\<rparr>)))"

text \<open>The insertion allocates only when the array is absent or full.\<close>

definition cache_alloc :: "'w env \<Rightarrow> codecache \<Rightarrow> ('w, bool) cprog" where
  "cache_alloc E c = (if cc_entries c = None \<or> cc_count c = cc_max c
    then sysc (x_malloc E (16 * (cc_max c + 64))) else ret True)"

definition pyx_AddTraceback :: "'w env \<Rightarrow> string \<Rightarrow> int \<Rightarrow> string \<Rightarrow> ('w, unit) cprog" where
  "pyx_AddTraceback E funcname py_line filename =
    bnd (rd cocache) (\<lambda>c0. case pyx_find_code_object c0 py_line of
        Some code \<Rightarrow> traceback_here E code py_line
      | None \<Rightarrow> bnd (pyx_CreateCodeObject E funcname py_line filename) (\<lambda>r. case r of
            None \<Rightarrow> ret ()
          | Some code \<Rightarrow> bnd (cache_alloc E c0) (\<lambda>mem.
              sq (upd (\<lambda>s. s\<lparr>cocache := pyx_insert_code_object mem py_line code (cocache s)\<rparr>))
                 (traceback_here E code py_line))))"

text \<open>The source files a traceback can name (\<open>__pyx_f\<close>).\<close>

definition pyx_f :: "nat \<Rightarrow> string" where
  "pyx_f i = (if i = 0 then ''speedysvc/hybrid_lock/linux/HybridLock.pyx'' else ''stringsource'')"

text \<open>
  The common end of a function: at its error label the traceback entry is
  added and the error value returned.
\<close>

definition exit_err :: "'w env \<Rightarrow> string \<Rightarrow> 'a \<Rightarrow> ('w, 'a) cprog \<Rightarrow> ('w, 'a) cprog" where
  "exit_err E fn v m = at_label m (\<lambda>f l. sq (pyx_AddTraceback E fn l (pyx_f f)) (ret v))"

end
