(* ===== verification/ErrProto.thy ===== *)
theory ErrProto
  imports Runtime
begin

text \<open>
  The protocol that every function of the module follows towards the
  interpreter: C-API calls are made with the interpreter lock held, an error
  value is returned exactly when an exception is pending.  The locale \<open>frame\<close>
  carries the judgement \<open>J P Q R m\<close> for a relation \<open>F\<close> that says what the run
  may change besides the world, the error indicator, the interpreter lock and
  the code-object cache; its rules follow the statements of the code.
\<close>

named_theorems J_rules \<open>rules of the judgement J\<close>

definition pyok :: "'w cst \<Rightarrow> bool" where
  "pyok s = (gil s \<and> curexc s = None)"

definition pyex :: "'w cst \<Rightarrow> bool" where
  "pyex s = (gil s \<and> curexc s \<noteq> None)"

definition nogil :: "'w cst \<Rightarrow> bool" where
  "nogil s = (\<not> gil s \<and> curexc s = None)"

definition nogil_ex :: "'w cst \<Rightarrow> bool" where
  "nogil_ex s = (\<not> gil s \<and> curexc s \<noteq> None)"

lemmas state_defs = pyok_def pyex_def nogil_def nogil_ex_def

text \<open>A result None, or an error value \<open>e\<close>, goes with a pending exception.\<close>

definition optq :: "'a option \<Rightarrow> 'w cst \<Rightarrow> bool" where
  "optq r = (if r = None then pyex else pyok)"

definition valq :: "'a \<Rightarrow> 'a \<Rightarrow> 'w cst \<Rightarrow> bool" where
  "valq e r = (if r = e then pyex else pyok)"

locale frame =
  fixes F :: "'w cst \<Rightarrow> 'w cst \<Rightarrow> bool"
  assumes F_refl: "F s s"
    and F_trans: "F s t \<Longrightarrow> F t u \<Longrightarrow> F s u"
    and F_wld: "F s (s\<lparr>wld := w\<rparr>)"
    and F_curexc: "F s (s\<lparr>curexc := e\<rparr>)"
    and F_gil: "F s (s\<lparr>gil := g\<rparr>)"
    and F_cocache: "F s (s\<lparr>cocache := pyx_insert_code_object mem l c (cocache s)\<rparr>)"
begin

definition J :: "('w cst \<Rightarrow> bool) \<Rightarrow> ('a \<Rightarrow> 'w cst \<Rightarrow> bool) \<Rightarrow> ('w cst \<Rightarrow> bool) \<Rightarrow> ('w, 'a) cprog \<Rightarrow> bool" where
  "J P Q R m = (\<forall>s. P s \<longrightarrow> wp m (\<lambda>a t. F s t \<and> Q a t) (\<lambda>p l t. F s t \<and> R t) (\<lambda>u. u \<noteq> NoGil) s)"

lemma JI: "(\<And>s. P s \<Longrightarrow> wp m (\<lambda>a t. F s t \<and> Q a t) (\<lambda>p l t. F s t \<and> R t) (\<lambda>u. u \<noteq> NoGil) s) \<Longrightarrow> J P Q R m"
  by (simp add: J_def)

lemma JD: "J P Q R m \<Longrightarrow> P s \<Longrightarrow> wp m (\<lambda>a t. F s t \<and> Q a t) (\<lambda>p l t. F s t \<and> R t) (\<lambda>u. u \<noteq> NoGil) s"
  by (simp add: J_def)

lemma J_bnd [J_rules]: "J P Q' R m \<Longrightarrow> (\<And>a. J (Q' a) Q R (f a)) \<Longrightarrow> J P Q R (bnd m f)"
  by (rule JI) (fastforce simp: wp_bnd dest!: JD elim!: wp_mono intro: F_trans)

lemma J_sq [J_rules]: "J P Q' R m \<Longrightarrow> (\<And>a. J (Q' a) Q R n) \<Longrightarrow> J P Q R (sq m n)"
  unfolding sq_def by (rule J_bnd)

lemma J_weaken: "J P Q R m \<Longrightarrow> (\<And>s. P' s \<Longrightarrow> P s) \<Longrightarrow> (\<And>a t. Q a t \<Longrightarrow> Q' a t) \<Longrightarrow>
    (\<And>t. R t \<Longrightarrow> R' t) \<Longrightarrow> J P' Q' R' m"
  by (rule JI) (fastforce dest!: JD elim!: wp_mono)

lemma J_ret [J_rules]: "Q a = P \<Longrightarrow> J P Q R (ret a)"
  by (rule JI) (simp add: wp_ret F_refl)

lemma J_ret_imp: "(\<And>s. P s \<Longrightarrow> Q a s) \<Longrightarrow> J P Q R (ret a)"
  by (rule JI) (simp add: wp_ret F_refl)

lemma J_ret_any: "J P (\<lambda>_. P) R (ret a)"
  by (rule J_ret) simp

lemma J_pyx_err [J_rules]: "J R Q R (pyx_err p l)"
  by (rule JI) (simp add: wp_pyx_err F_refl)

lemma J_stuck [J_rules]: "J P Q R (stuck Undefined)"
  by (rule JI) (simp add: wp_stuck)

lemma J_rd [J_rules]: "J P (\<lambda>_. P) R (rd g)"
  by (rule JI) (simp add: wp_rd F_refl)

lemma J_if [J_rules]: "(b \<Longrightarrow> J P Q R m) \<Longrightarrow> (\<not> b \<Longrightarrow> J P Q R n) \<Longrightarrow> J P Q R (if b then m else n)"
  by simp

lemma J_whn [J_rules]: "(b \<Longrightarrow> J P (\<lambda>_. P) R m) \<Longrightarrow> J P (\<lambda>_. P) R (whn b m)"
  by (simp add: whn_def J_ret_any)

lemma J_case_option: "J P Q R m \<Longrightarrow> (\<And>v. J P Q R (f v)) \<Longrightarrow>
    J P Q R (case x of None \<Rightarrow> m | Some v \<Rightarrow> f v)"
  by (simp split: option.splits)

lemma J_optq [J_rules]: "J pyex Q R m \<Longrightarrow> (\<And>v. J pyok Q R (f v)) \<Longrightarrow>
    J (optq x) Q R (case x of None \<Rightarrow> m | Some v \<Rightarrow> f v)"
  by (simp add: optq_def split: option.splits)

lemma J_valq [J_rules]: "J pyex Q R m \<Longrightarrow> (x \<noteq> e \<Longrightarrow> J pyok Q R n) \<Longrightarrow>
    J (valq e x) Q R (if x = e then m else n)"
  by (simp add: valq_def)

lemma J_ret_optq [J_rules]: "J pyex optq R (ret None)" "J pyok optq R (ret (Some v))"
  "J (optq x) optq R (ret x)"
  by (simp_all add: J_ret optq_def)

lemma J_ret_valq: "J pyex (valq e) R (ret e)" "v \<noteq> e \<Longrightarrow> J pyok (valq e) R (ret v)"
  "J (valq e x) (valq e) R (ret x)"
  by (simp_all add: J_ret valq_def)

lemma J_sysc [J_rules]: "(\<And>s w. P (s\<lparr>wld := w\<rparr>) = P s) \<Longrightarrow> J P (\<lambda>_. P) R (sysc f)"
  by (rule JI) (simp add: wp_def sysc_def F_wld split: sysres.splits)

lemma J_nonnull [J_rules]: "J P (\<lambda>_. P) R (nonnull p)"
  by (simp add: nonnull_def J_ret_any J_stuck split: option.splits)

lemma stable_wld [simp]: "pyok (s\<lparr>wld := w\<rparr>) = pyok s" "pyex (s\<lparr>wld := w\<rparr>) = pyex s"
  "nogil (s\<lparr>wld := w\<rparr>) = nogil s" "nogil_ex (s\<lparr>wld := w\<rparr>) = nogil_ex s"
  by (simp_all add: state_defs)

lemma J_mem [J_rules]:
  assumes "\<And>s w. P (s\<lparr>wld := w\<rparr>) = P s"
  shows "J P (\<lambda>_. P) R (ld8 E p)" "J P (\<lambda>_. P) R (st8 E p v)" "J P (\<lambda>_. P) R (ld32 E p)"
    "J P (\<lambda>_. P) R (st32 E p x)"
  unfolding ld8_def st8_def ld32_def st32_def
  by (rule J_bnd [OF J_nonnull] J_sysc assms)+

lemma J_self_rd [J_rules]: "J P (\<lambda>_. P) R (self_rd n g)"
  by (rule JI) (simp add: wp_def self_rd_def F_refl split: option.splits)

lemma J_c_string [J_rules]: "J P (\<lambda>_. P) R (c_string p)"
  by (rule JI) (simp add: wp_def c_string_def nonnull_def bnd_def stuck_def ret_def F_refl split: option.splits)

lemma J_need_gil [J_rules]: "J pyok (\<lambda>_. pyok) R need_gil" "J pyex (\<lambda>_. pyex) R need_gil"
  by (rule JI, simp add: wp_def need_gil_def state_defs F_refl)+

lemma J_set_err [J_rules]: "J pyok (\<lambda>_. pyex) R (set_err c v)" "J pyex (\<lambda>_. pyex) R (set_err c v)"
  by (rule JI, simp add: wp_def set_err_def sq_def bnd_def upd_def need_gil_def state_defs F_curexc)+

lemma J_set_pyerr [J_rules]: "J pyok (\<lambda>_. pyex) R (set_pyerr e)" "J pyex (\<lambda>_. pyex) R (set_pyerr e)"
  by (rule JI, simp add: wp_def set_pyerr_def sq_def bnd_def upd_def need_gil_def state_defs F_curexc)+

lemma J_capi [J_rules]: "J pyok optq R (capi E f v)" "J pyex (\<lambda>_. pyex) R (capi E f v)"
  unfolding capi_def
  by (rule J_sq J_bnd J_need_gil J_sysc stable_wld J_case_option J_set_pyerr J_ret_optq J_ret_any)+

lemma J_chk [J_rules]: "J P optq pyex m \<Longrightarrow> J P (\<lambda>_. pyok) pyex (chk l m)"
  unfolding chk_def by (erule J_bnd) (rule J_optq J_pyx_err J_ret_any)+

lemma J_unblock [J_rules]: "J pyok (\<lambda>_. nogil) R unblock_threads"
  by (rule JI) (simp add: wp_def unblock_threads_def sq_def bnd_def upd_def need_gil_def state_defs F_gil)

lemma J_block [J_rules]: "J nogil (\<lambda>_. pyok) R (block_threads E)" "J nogil_ex (\<lambda>_. pyex) R (block_threads E)"
  by (rule JI, simp add: wp_simps wp_def block_threads_def sq_def bnd_def upd_def rd_def stuck_def sysc_def
      state_defs split: sysres.splits, blast intro: F_trans F_gil F_wld)+

lemma J_ensure [J_rules]: "J nogil (\<lambda>g. if g then (\<lambda>_. False) else pyok) R (gilstate_ensure E)"
  by (rule JI, simp add: wp_simps wp_def gilstate_ensure_def sq_def bnd_def upd_def rd_def ret_def sysc_def
      state_defs split: sysres.splits, blast intro: F_trans F_gil F_wld)

lemma J_False [J_rules]: "J (\<lambda>_. False) Q R m"
  by (simp add: J_def)

lemma J_if_pre: "(b \<Longrightarrow> J P Q R m) \<Longrightarrow> (\<not> b \<Longrightarrow> J P' Q R m) \<Longrightarrow> J (if b then P else P') Q R m"
  by simp

lemma J_release_ex: "J pyex (\<lambda>_. nogil_ex) R (gilstate_release False)"
  by (rule JI) (simp add: wp_def gilstate_release_def sq_def bnd_def upd_def need_gil_def state_defs F_gil)

text \<open>The run-time functions.\<close>

lemma J_at_label: "J P Q R' m \<Longrightarrow> (\<And>p l. J R' Q R (h p l)) \<Longrightarrow> J P Q R (at_label m h)"
  by (rule JI) (fastforce simp: wp_at_label dest!: JD elim!: wp_mono intro: F_trans)

lemma J_upd: "(\<And>s. P s \<Longrightarrow> F s (g s) \<and> P' (g s)) \<Longrightarrow> J P (\<lambda>_. P') R (upd g)"
  by (rule JI) (simp add: wp_upd)

lemma J_GetBuiltinName: "J pyok optq R (pyx_GetBuiltinName E n)"
proof -
  have "J (optq r) optq R (case (r, b) of (Some _, Some v) \<Rightarrow> ret (Some v)
      | _ \<Rightarrow> sq (set_err NameErrorT x) (ret None))" for r :: "unit option" and b x
    by (cases r; cases b) (auto simp: optq_def intro!: J_sq J_set_err J_ret)
  then show ?thesis unfolding pyx_GetBuiltinName_def by (intro J_bnd [OF J_capi(1)] J_bnd [OF J_rd])
qed

lemma J_GetModuleGlobalName [J_rules]: "J pyok optq R (pyx_GetModuleGlobalName E n)"
  unfolding pyx_GetModuleGlobalName_def
  by (intro J_bnd [OF J_capi(1)] J_optq J_ret_optq J_bnd [OF J_rd] J_case_option J_GetBuiltinName)

definition callq :: "pyobj option \<Rightarrow> 'w cst \<Rightarrow> bool" where
  "callq r = (if r = None then gil else pyok)"

lemma J_x_call: "J pyok callq R (bnd (sysc f) (\<lambda>(r, e). case e of
    None \<Rightarrow> ret r | Some x \<Rightarrow> sq (set_pyerr x) (ret None)))"
proof -
  have "J pyok callq R (case e of None \<Rightarrow> ret r | Some x \<Rightarrow> sq (set_pyerr x) (ret None))"
    for r :: "pyobj option" and e
    by (cases e; rule JI) (auto simp: wp_def ret_def callq_def state_defs F_refl F_curexc set_pyerr_def sq_def bnd_def
        need_gil_def upd_def)
  then show ?thesis by (intro J_bnd [OF J_sysc]) (auto split: prod.splits)
qed

lemma J_call_slot: "J pyok callq R (call_slot E f args)"
proof -
  have "J pyok callq R (capi E g v)" for g v
    by (rule J_weaken [OF J_capi(1)]) (auto simp: optq_def callq_def state_defs split: if_splits)
  then show ?thesis by (auto simp: call_slot_def J_x_call split: pyobj.splits)
qed

lemma J_occurred: "J gil (\<lambda>b. if b then pyex else pyok) R pyerr_occurred"
  by (rule JI) (simp add: wp_def pyerr_occurred_def sq_def bnd_def rd_def need_gil_def state_defs F_refl)

lemma J_call_checked:
  assumes "J pyok callq R slot"
  shows "J pyok optq R (pyx_call_checked E slot)"
proof -
  have "J (callq r) optq R (case r of Some v \<Rightarrow> ret (Some v)
      | None \<Rightarrow> bnd pyerr_occurred (\<lambda>b. if b then ret None else sq (set_err SystemErrorT x) (ret None)))" for r x
    by (cases r) (auto simp: callq_def intro!: J_ret_optq J_bnd [OF J_occurred] J_if_pre J_sq [OF J_set_err(1)])
  then show ?thesis unfolding pyx_call_checked_def
    by (intro J_bnd [OF J_capi(1)] J_optq J_ret_optq J_bnd [OF assms])
qed

lemma optq_callq: "J P optq R m \<Longrightarrow> J P callq R m"
  by (erule J_weaken) (auto simp: optq_def callq_def state_defs split: if_splits)

lemma J_PyObject_Call [J_rules]: "J pyok optq R (pyx_PyObject_Call E f args)"
  unfolding pyx_PyObject_Call_def by (rule J_call_checked [OF J_call_slot])

lemma J_op_call: "J pyok optq R (op_call E m args)"
proof -
  have "J pyok optq R (case e of Some x \<Rightarrow> sq (set_pyerr x) (ret None)
    | None \<Rightarrow> (case r of Some v \<Rightarrow> ret (Some v) | None \<Rightarrow> sq (set_err SystemErrorT y) (ret None)))"
    for r :: "pyobj option" and e y
    by (cases e; cases r) (auto intro!: J_ret_optq J_sq [OF J_set_err(1)] J_sq [OF J_set_pyerr(1)])
  then show ?thesis unfolding op_call_def by (intro J_bnd [OF J_sysc]) (auto split: prod.splits)
qed

lemma J_number_add: "J pyok optq R (api_number_add E a b)"
  unfolding api_number_add_def by (auto intro: J_op_call J_capi split: pyobj.splits prod.splits)

lemma J_richcompare_eq: "J pyok optq R (api_richcompare_eq E a b)"
  unfolding api_richcompare_eq_def by (auto intro: J_op_call J_capi split: pyobj.splits prod.splits)

lemma J_IsTrue: "J pyok optq R (pyx_IsTrue E x)"
proof -
  have "J pyok optq R (bnd (op_call E m a) (\<lambda>r. case r of None \<Rightarrow> ret None | Some v \<Rightarrow> ret (Some (f v))))" for m a f
    by (intro J_bnd [OF J_op_call] J_optq J_ret_optq)
  then show ?thesis unfolding pyx_IsTrue_def by (auto intro: J_ret_optq split: pyobj.splits)
qed

lemma J_decode: "J pyok optq R (pyx_decode_c_string E cs a b)"
  unfolding pyx_decode_c_string_def Let_def by (auto intro: J_ret_optq J_capi)

lemma J_CallNoArg [J_rules]: "J pyok optq R (pyx_PyObject_CallNoArg E f)"
  unfolding pyx_PyObject_CallNoArg_def by (rule J_PyObject_Call)

lemma J_CallOneArg [J_rules]: "J pyok optq R (pyx_PyObject_CallOneArg E f x)"
  unfolding pyx_PyObject_CallOneArg_def by (intro J_bnd [OF J_capi(1)] J_optq J_ret_optq J_PyObject_Call)

lemma J_raise_instance: "J pyok optq R (raise_instance E c v)"
proof -
  have args: "J pyok optq R (case v of None \<Rightarrow> capi E ''PyTuple_New'' [] | Some (PyTuple xs) \<Rightarrow> ret (Some xs)
      | Some x \<Rightarrow> capi E ''PyTuple_Pack'' [x])"
    by (auto intro: J_capi J_ret_optq split: option.splits pyobj.splits)
  show ?thesis unfolding raise_instance_def
    by (intro J_bnd [OF args] J_bnd [OF J_PyObject_Call] J_optq J_ret_optq J_if J_sq [OF J_set_err(1)])
qed

lemma J_Raise [J_rules]: "J pyok (\<lambda>_. pyex) R (pyx_Raise E t v)"
proof -
  have "J pyok (\<lambda>_. pyex) R (bnd (raise_instance E c x) (\<lambda>i. case i of None \<Rightarrow> ret () | Some o1 \<Rightarrow> set_err c o1))"
    for c x by (intro J_bnd [OF J_raise_instance] J_optq J_ret_any J_set_err)
  then show ?thesis
    by (auto simp: pyx_Raise_def Let_def intro!: J_set_err split: pyobj.splits option.splits)
qed

lemma J_traceback_here: "J pyex (\<lambda>_. pyex) R (traceback_here E code l)"
proof -
  have "J pyex (\<lambda>_. pyex) R (upd (\<lambda>s. s\<lparr>curexc := map_option (add_tb x) (curexc s)\<rparr>))" for x
    by (rule J_upd) (simp add: F_curexc pyex_def)
  then show ?thesis unfolding traceback_here_def
    by (intro J_bnd [OF J_capi(2)] J_case_option J_ret_any)
qed

lemma J_AddTraceback: "J pyex (\<lambda>_. pyex) R (pyx_AddTraceback E fn l file)"
proof -
  have ins: "J pyex (\<lambda>_. pyex) R (upd (\<lambda>s. s\<lparr>cocache := pyx_insert_code_object mem l c (cocache s)\<rparr>))" for mem c
    by (rule J_upd) (simp add: F_cocache pyex_def)
  have al: "J pyex (\<lambda>_. pyex) R (cache_alloc E c)" for c
    unfolding cache_alloc_def by (intro J_if J_ret_any J_sysc stable_wld)
  show ?thesis unfolding pyx_AddTraceback_def pyx_CreateCodeObject_def
    by (intro J_bnd [OF J_rd] J_case_option J_traceback_here J_bnd [OF J_capi(2)] J_ret_any
        J_bnd [OF al] J_sq [OF ins])
qed

lemma J_exit_err: "J P Q pyex m \<Longrightarrow> Q v = pyex \<Longrightarrow> J P Q R (exit_err E fn v m)"
  unfolding exit_err_def by (erule J_at_label) (intro J_sq [OF J_AddTraceback] J_ret)

end

text \<open>The two frames used: the run leaves everything else alone, or anything.\<close>

definition same :: "'w cst \<Rightarrow> 'w cst \<Rightarrow> bool" where
  "same s t = (objs t = objs s \<and> nobj t = nobj s \<and> cmem t = cmem s \<and> nmem t = nmem s
    \<and> mdict t = mdict s \<and> bdict t = bdict s \<and> v_LOCKED t = v_LOCKED s \<and> v_UNLOCKED t = v_UNLOCKED s
    \<and> v_DESTROYED t = v_DESTROYED s \<and> v_k t = v_k s \<and> (cc_ok (cocache s) \<longrightarrow> cc_ok (cocache t)))"

interpretation keep: frame same
  by unfold_locales (auto simp: same_def cc.ok_put)

interpretation anyf: frame "\<lambda>_ _. True"
  by unfold_locales simp_all

end
