(* ===== verification/PyArgs.thy ===== *)
theory PyArgs
  imports ErrProto
begin

text \<open>
  Arguments of the Python-visible functions: positional and keyword arguments
  are sorted into a vector of values (\<open>unpack_args\<close>, with
  \<open>__Pyx_ParseOptionalKeywords\<close>), then converted to C integers
  (\<open>__Pyx_PyInt_As_int\<close>) and C strings.  The fast path of the integer
  conversion, which reads the base \<open>2^30\<close> digits of a Python int, is shown
  equivalent to a range check.
\<close>

section \<open>Decimal text\<close>

fun show_nat :: "nat \<Rightarrow> string" where
  "show_nat n = (if n < 10 then [char_of (48 + n)] else show_nat (n div 10) @ [char_of (48 + n mod 10)])"

declare show_nat.simps [simp del]

definition show_int :: "int \<Rightarrow> string" where
  "show_int i = (if i < 0 then CHR 0x2D # show_nat (nat (- i)) else show_nat (nat i))"

section \<open>Python integers\<close>

text \<open>\<open>Py_SIZE\<close> and \<open>ob_digit\<close> of an int: sign times number of digits, and the
  digits of the magnitude in base \<open>2^30\<close>, least significant first.\<close>

fun digits30 :: "nat \<Rightarrow> nat list" where
  "digits30 n = (if n = 0 then [] else (n mod 2 ^ 30) # digits30 (n div 2 ^ 30))"

declare digits30.simps [simp del]

definition ob_digit :: "int \<Rightarrow> nat list" where
  "ob_digit i = digits30 (nat \<bar>i\<bar>)"

definition Py_SIZE :: "int \<Rightarrow> int" where
  "Py_SIZE i = sgn i * int (length (ob_digit i))"

text \<open>\<open>__PYX_VERIFY_RETURN_INT(int, func_type, v)\<close>: \<open>v\<close> as the value of the
  wider type, truncated to \<open>int\<close> and compared; None is \<open>raise_overflow\<close>.\<close>

definition verify_int :: "int \<Rightarrow> c_int option" where
  "verify_int v = (let r = word_of_int v :: c_int in if v \<noteq> sint r then None else Some r)"

text \<open>\<open>PyLong_AsLong\<close>: None is the OverflowError it sets.\<close>

definition api_AsLong :: "int \<Rightarrow> int option" where
  "api_AsLong i = (if - (2 ^ 63) \<le> i \<and> i < 2 ^ 63 then Some i else None)"

text \<open>The \<open>switch (Py_SIZE(x))\<close> of \<open>__Pyx_PyInt_As_int\<close> and what follows it.
  Inl True is \<open>raise_overflow\<close>, Inl False the error of \<open>PyLong_AsLong\<close>.\<close>

definition pylong_as_int :: "int \<Rightarrow> bool + c_int" where
  "pylong_as_int i =
    (let d = ob_digit i;
         ovf = (\<lambda>r. case r of Some v \<Rightarrow> Inr v | None \<Rightarrow> Inl True)
     in
     if Py_SIZE i = 0 then Inr 0
     else if Py_SIZE i = - 1 then ovf (verify_int (- int (d ! 0)))
     else if Py_SIZE i = 1 then ovf (verify_int (int (d ! 0)))
     else if Py_SIZE i = - 2 then ovf (verify_int (- int (d ! 1 * 2 ^ 30 + d ! 0)))
     else if Py_SIZE i = 2 then ovf (verify_int (int (d ! 1 * 2 ^ 30 + d ! 0)))
     else (case api_AsLong i of
         None \<Rightarrow> Inl False
       | Some v \<Rightarrow> ovf (verify_int v)))"

definition overflow_msg :: string where
  "overflow_msg = ''value too large to convert to int''"

definition aslong_msg :: string where
  "aslong_msg = ''Python int too large to convert to C long''"

fun tp_name :: "cls \<Rightarrow> string" where
  "tp_name NoneT = ''NoneType''"
| "tp_name BoolT = ''bool''"
| "tp_name IntT = ''int''"
| "tp_name BytesT = ''bytes''"
| "tp_name ByteArrayT = ''bytearray''"
| "tp_name StrT = ''str''"
| "tp_name TupleT = ''tuple''"
| "tp_name TypeT = ''type''"
| "tp_name HybridLockT = ''HybridLock.HybridLock''"
| "tp_name (Derived n c) = n"
| "tp_name _ = ''object''"

text \<open>\<open>__Pyx_PyNumber_IntOrLong\<close> for an object that is not an int: the \<open>nb_int\<close>
  slot, and \<open>__Pyx_PyNumber_IntOrLongWrongResultType\<close> for its result.\<close>

definition pyx_WrongResultType :: "'w env \<Rightarrow> pyobj \<Rightarrow> ('w, pyobj option) cprog" where
  "pyx_WrongResultType E res = (case res of
      PyBool b \<Rightarrow> capi E ''PyErr_WarnFormat'' (PyBool b)
    | _ \<Rightarrow> sq (set_err TypeErrorT (PyStr (''__int__ returned non-int (type '' @ take 200 (tp_name (py_type res)) @ '')'')))
          (ret None))"

text \<open>The slot \<open>nb_int\<close> is code of another type; it may return NULL without an exception.\<close>

definition nb_int :: "'w env \<Rightarrow> pyobj \<Rightarrow> ('w, pyobj option) cprog" where
  "nb_int E x = bnd (sysc (x_call E (PyMeth 0 ''__int__'') [x])) (\<lambda>(r, e). case e of
      None \<Rightarrow> ret r
    | Some y \<Rightarrow> sq (set_pyerr y) (ret None))"

definition pyx_IntOrLong :: "'w env \<Rightarrow> pyobj \<Rightarrow> ('w, pyobj option) cprog" where
  "pyx_IntOrLong E x = (case x of
      PyInt i \<Rightarrow> ret (Some x)
    | PyBool b \<Rightarrow> ret (Some x)
    | _ \<Rightarrow> bnd (if x = PyNum True then nb_int E x else ret None) (\<lambda>r. case r of
          Some v \<Rightarrow> (case v of PyInt i \<Rightarrow> ret (Some v) | _ \<Rightarrow> pyx_WrongResultType E v)
        | None \<Rightarrow> bnd pyerr_occurred (\<lambda>b. if b then ret None
            else sq (set_err TypeErrorT (PyStr ''an integer is required'')) (ret None))))"

definition long_as_int :: "int \<Rightarrow> ('w, c_int option) cprog" where
  "long_as_int i = (case pylong_as_int i of
      Inr v \<Rightarrow> ret (Some v)
    | Inl True \<Rightarrow> sq (set_err OverflowErrorT (PyStr overflow_msg)) (ret None)
    | Inl False \<Rightarrow> sq (set_err OverflowErrorT (PyStr aslong_msg)) (ret None))"

text \<open>\<open>__Pyx_PyInt_As_int\<close>; None stands for the result \<open>-1\<close> with an exception
  set, which is how every caller tells it from the value \<open>-1\<close>.\<close>

definition pyx_As_int :: "'w env \<Rightarrow> pyobj \<Rightarrow> ('w, c_int option) cprog" where
  "pyx_As_int E x = (case x of
      PyInt i \<Rightarrow> long_as_int i
    | PyBool b \<Rightarrow> long_as_int (if b then 1 else 0)
    | _ \<Rightarrow> bnd (pyx_IntOrLong E x) (\<lambda>t. case t of
          None \<Rightarrow> ret None
        | Some (PyInt i) \<Rightarrow> long_as_int i
        | Some (PyBool b) \<Rightarrow> long_as_int (if b then 1 else 0)
        | Some _ \<Rightarrow> stuck Undefined))"

text \<open>\<open>__Pyx_PyInt_From_int\<close>.\<close>

definition pyx_From_int :: "'w env \<Rightarrow> c_int \<Rightarrow> ('w, pyobj option) cprog" where
  "pyx_From_int E v = capi E ''PyInt_FromLong'' (PyInt (sint v))"

section \<open>C strings\<close>

text \<open>\<open>__Pyx_PyObject_AsWritableString\<close>: the buffer of a bytes or bytearray
  object; \<open>PyBytes_AsStringAndSize\<close> refuses anything else.\<close>

definition pyx_AsString :: "pyobj \<Rightarrow> ('w, string option) cprog" where
  "pyx_AsString x = (case x of
      PyByteArray s \<Rightarrow> ret (Some s)
    | PyBytes s \<Rightarrow> ret (Some s)
    | _ \<Rightarrow> sq (set_err TypeErrorT (PyStr (''expected bytes, '' @ take 200 (tp_name (py_type x)) @ '' found'')))
          (ret None))"

section \<open>Sorting the arguments\<close>

definition argtuple_msg :: "string \<Rightarrow> bool \<Rightarrow> nat \<Rightarrow> nat \<Rightarrow> nat \<Rightarrow> string" where
  "argtuple_msg fname exact num_min num_max num_found =
    (let expected = (if num_found < num_min then num_min else num_max);
         more_or_less = (if exact then ''exactly'' else if num_found < num_min then ''at least'' else ''at most'')
     in take 200 fname @ ''() takes '' @ take 8 more_or_less @ '' '' @ show_nat expected
        @ '' positional argument'' @ (if expected = 1 then '''' else ''s'')
        @ '' ('' @ show_nat num_found @ '' given)'')"

definition pyx_RaiseArgtupleInvalid ::
    "string \<Rightarrow> bool \<Rightarrow> nat \<Rightarrow> nat \<Rightarrow> nat \<Rightarrow> ('w, unit) cprog" where
  "pyx_RaiseArgtupleInvalid fname exact num_min num_max num_found =
    set_err TypeErrorT (PyStr (argtuple_msg fname exact num_min num_max num_found))"

definition pyx_RaiseDoubleKeywords :: "string \<Rightarrow> string \<Rightarrow> ('w, unit) cprog" where
  "pyx_RaiseDoubleKeywords fname kw =
    set_err TypeErrorT (PyStr (fname @ ''() got multiple values for keyword argument '' @ [CHR 0x27] @ kw @ [CHR 0x27]))"

fun index_of :: "string \<Rightarrow> string list \<Rightarrow> nat option" where
  "index_of k [] = None"
| "index_of k (n # ns) = (if n = k then Some 0 else map_option Suc (index_of k ns))"

text \<open>\<open>__Pyx_ParseOptionalKeywords\<close> with \<open>kwds2 = 0\<close>, over the entries of the
  keyword dictionary in order; None is the result \<open>-1\<close>.\<close>

fun parse_keywords :: "(pyobj \<times> pyobj) list \<Rightarrow> string list \<Rightarrow> pyobj option list \<Rightarrow> nat \<Rightarrow> string \<Rightarrow>
    ('w, pyobj option list option) cprog" where
  "parse_keywords [] names values num_pos fname = ret (Some values)"
| "parse_keywords ((key, value) # kwds) names values num_pos fname = (case key of
      PyStr k \<Rightarrow> (case index_of k (drop num_pos names) of
          Some i \<Rightarrow> parse_keywords kwds names (values[num_pos + i := Some value]) num_pos fname
        | None \<Rightarrow> (case index_of k (take num_pos names) of
            Some _ \<Rightarrow> sq (pyx_RaiseDoubleKeywords fname k) (ret None)
          | None \<Rightarrow> sq (set_err TypeErrorT (PyStr (fname @ ''() got an unexpected keyword argument ''
                @ [CHR 0x27] @ k @ [CHR 0x27]))) (ret None)))
    | _ \<Rightarrow> sq (set_err TypeErrorT (PyStr (take 200 fname @ ''() keywords must be strings''))) (ret None))"

text \<open>
  The look-ups by name for the parameters that no positional argument fills:
  a required one that is missing is an error at once, an optional one is
  looked up only while keyword arguments are left.
\<close>

fun kw_fill :: "(pyobj \<times> pyobj) list \<Rightarrow> string list \<Rightarrow> nat \<Rightarrow> nat \<Rightarrow> pyobj option list \<Rightarrow> int \<Rightarrow>
    (nat, pyobj option list \<times> int) sum" where
  "kw_fill kwds [] nreq i values left = Inr (values, left)"
| "kw_fill kwds (n # ns) nreq i values left =
    (if i < nreq then
       (case map_of kwds (PyStr n) of
          Some v \<Rightarrow> kw_fill kwds ns nreq (i + 1) (values[i := Some v]) (left - 1)
        | None \<Rightarrow> Inl i)
     else if left > 0 then
       (case map_of kwds (PyStr n) of
          Some v \<Rightarrow> kw_fill kwds ns nreq (i + 1) (values[i := Some v]) (left - 1)
        | None \<Rightarrow> kw_fill kwds ns nreq (i + 1) values left)
     else kw_fill kwds ns nreq (i + 1) values left)"

text \<open>The argument part of a wrapper; its error exit is at \<open>line\<close>.\<close>

definition unpack_args :: "string \<Rightarrow> string list \<Rightarrow> nat \<Rightarrow> int \<Rightarrow> pyobj list \<Rightarrow>
    (pyobj \<times> pyobj) list option \<Rightarrow> ('w, pyobj option list) cprog" where
  "unpack_args fname names nreq line args kwds =
    (let n = length args; mx = length names;
         invalid = (\<lambda>found. sq (pyx_RaiseArgtupleInvalid fname False nreq mx found) (pyx_err 0 line))
     in case kwds of
       Some ks \<Rightarrow>
         if n > mx then invalid n
         else (case kw_fill ks (drop n names) nreq n (map Some args @ replicate (mx - n) None) (int (length ks)) of
             Inl found \<Rightarrow> invalid found
           | Inr (values, left) \<Rightarrow>
               if left > 0 then
                 bnd (parse_keywords ks names values n fname) (\<lambda>r. case r of
                     None \<Rightarrow> pyx_err 0 line | Some vs \<Rightarrow> ret vs)
               else ret values)
     | None \<Rightarrow> if nreq \<le> n \<and> n \<le> mx then ret (map Some args @ replicate (mx - n) None)
         else invalid n)"

text \<open>A converted argument, or its default.\<close>

definition arg_int :: "'w env \<Rightarrow> int \<Rightarrow> pyobj option \<Rightarrow> c_int \<Rightarrow> ('w, c_int) cprog" where
  "arg_int E line v dflt = (case v of
      Some x \<Rightarrow> bnd (pyx_As_int E x) (\<lambda>t. case t of None \<Rightarrow> pyx_err 0 line | Some r \<Rightarrow> ret r)
    | None \<Rightarrow> ret dflt)"

definition arg_str :: "int \<Rightarrow> pyobj option \<Rightarrow> ('w, string) cprog" where
  "arg_str line v = (case v of
      Some x \<Rightarrow> bnd (pyx_AsString x) (\<lambda>t. case t of None \<Rightarrow> pyx_err 0 line | Some r \<Rightarrow> ret r)
    | None \<Rightarrow> stuck Undefined)"

text \<open>
  A Python wrapper: convert the arguments, with an error exit of its own, then
  call the implementation.
\<close>

definition arg_wrapper :: "'w env \<Rightarrow> string \<Rightarrow> 'r \<Rightarrow> ('w, 'x) cprog \<Rightarrow> ('x \<Rightarrow> ('w, 'r) cprog) \<Rightarrow> ('w, 'r) cprog" where
  "arg_wrapper E fn v parse body =
    bnd (exit_err E fn None (bnd parse (\<lambda>x. ret (Some x)))) (\<lambda>r. case r of
        None \<Rightarrow> ret v
      | Some x \<Rightarrow> body x)"

section \<open>The conversion of integers\<close>

lemma digits30_cases:
  "n = 0 \<Longrightarrow> digits30 n = []"
  "0 < n \<Longrightarrow> n < 2 ^ 30 \<Longrightarrow> digits30 n = [n]"
  "2 ^ 30 \<le> n \<Longrightarrow> n < 2 ^ 60 \<Longrightarrow> digits30 n = [n mod 2 ^ 30, n div 2 ^ 30]"
  "2 ^ 60 \<le> n \<Longrightarrow> 2 < length (digits30 n)"
proof -
  have z: "digits30 0 = []" by (simp add: digits30.simps)
  then show "n = 0 \<Longrightarrow> digits30 n = []" by simp
  have one: "digits30 m = [m]" if "0 < m" "m < 2 ^ 30" for m
    using that z by (simp add: digits30.simps [of m])
  then show "0 < n \<Longrightarrow> n < 2 ^ 30 \<Longrightarrow> digits30 n = [n]" .
  show "digits30 n = [n mod 2 ^ 30, n div 2 ^ 30]" if "2 ^ 30 \<le> n" "n < 2 ^ 60"
    using that one [of "n div 2 ^ 30"] by (simp add: digits30.simps [of n] div_greater_zero_iff div_less_iff_less_mult)
  show "2 < length (digits30 n)" if "2 ^ 60 \<le> n"
  proof -
    have a: "0 < n div 2 ^ 30 div 2 ^ 30" using that by (simp add: div_greater_zero_iff flip: div_mult2_eq)
    then have b: "0 < n div 2 ^ 30" by (metis div_0 gr0I less_numeral_extra(3))
    have "digits30 n = (n mod 2 ^ 30) # (n div 2 ^ 30 mod 2 ^ 30) # (n div 2 ^ 30 div 2 ^ 30 mod 2 ^ 30)
        # digits30 (n div 2 ^ 30 div 2 ^ 30 div 2 ^ 30)"
      using a b that
      by (simp only: digits30.simps [of n] digits30.simps [of "n div 2 ^ 30"]
          digits30.simps [of "n div 2 ^ 30 div 2 ^ 30"]) simp
    then show ?thesis by simp
  qed
qed

lemma verify_int_range: "verify_int v = (if - (2 ^ 31) \<le> v \<and> v < 2 ^ 31 then Some (word_of_int v) else None)"
proof -
  have "sint (word_of_int v :: c_int) = v" if "- (2 ^ 31) \<le> v \<and> v < 2 ^ 31"
    using that by (simp add: signed_of_int signed_take_bit_int_eq_self)
  moreover have "- (2 ^ 31) \<le> sint w \<and> sint w < 2 ^ 31" for w :: c_int
    using sint_ge [of w] sint_lt [of w] by simp
  ultimately show ?thesis unfolding verify_int_def Let_def by metis
qed

definition int_range :: "int \<Rightarrow> bool" where
  "int_range i = (- (2 ^ 31) \<le> i \<and> i < 2 ^ 31)"

lemma pylong_as_int_ref:
  "pylong_as_int i = (if int_range i then Inr (word_of_int i)
    else Inl (- (2 ^ 63) \<le> i \<and> i < 2 ^ 63))"
proof -
  let ?n = "nat \<bar>i\<bar>"
  consider "i = 0" | "0 < ?n" "?n < 2 ^ 30" | "2 ^ 30 \<le> ?n" "?n < 2 ^ 60" | "2 ^ 60 \<le> ?n" by fastforce
  then show ?thesis
  proof cases
    case 1
    then show ?thesis by (simp add: pylong_as_int_def Py_SIZE_def ob_digit_def int_range_def)
  next
    case 2
    have v: "verify_int i = Some (word_of_int i)" using 2 by (auto simp: verify_int_range)
    have r: "int_range i" using 2 by (auto simp: int_range_def)
    show ?thesis using 2 v r
      by (cases "i > 0") (auto simp: pylong_as_int_def Py_SIZE_def ob_digit_def digits30_cases(2) Let_def)
  next
    case 3
    have sz: "Py_SIZE i = 2 * sgn i" using 3 by (simp add: Py_SIZE_def ob_digit_def digits30_cases(3))
    have dg: "int (ob_digit i ! 1 * 2 ^ 30 + ob_digit i ! 0) = \<bar>i\<bar>"
      using 3 by (simp add: ob_digit_def digits30_cases(3) div_mult_mod_eq)
    have "pylong_as_int i = (case verify_int i of Some v \<Rightarrow> Inr v | None \<Rightarrow> Inl True)"
      using 3 by (cases "i > 0") (simp_all only: pylong_as_int_def Let_def dg sz, auto)
    moreover have "- (2 ^ 63) \<le> i \<and> i < 2 ^ 63" using 3 by auto
    ultimately show ?thesis by (simp add: verify_int_range int_range_def)
  next
    case 4
    have "Py_SIZE i > 2 \<or> Py_SIZE i < - 2"
      using digits30_cases(4) [OF 4] 4 by (cases "i > 0") (auto simp: Py_SIZE_def ob_digit_def)
    moreover have "\<not> int_range i" using 4 by (auto simp: int_range_def)
    ultimately show ?thesis
      by (auto simp: pylong_as_int_def Let_def api_AsLong_def verify_int_range int_range_def)
  qed
qed

lemma sint_int_range [simp]: "int_range (sint (w :: c_int))"
  using sint_ge [of w] sint_lt [of w] by (simp add: int_range_def)

lemma pylong_as_int_sint [simp]: "pylong_as_int (sint (w :: c_int)) = Inr w"
  by (simp add: pylong_as_int_ref)

section \<open>The error protocol\<close>

lemma J_long_as_int: "keep.J pyok optq R (long_as_int i)"
  unfolding long_as_int_def
  by (auto intro!: keep.J_ret_optq keep.J_sq [OF keep.J_set_err(1)] split: sum.splits bool.splits)

lemma J_WrongResultType: "keep.J pyok optq R (pyx_WrongResultType E x)"
  unfolding pyx_WrongResultType_def
  by (auto intro!: keep.J_ret_optq keep.J_capi keep.J_sq [OF keep.J_set_err(1)] split: pyobj.splits)

lemma J_IntOrLong: "keep.J pyok optq R (pyx_IntOrLong E x)"
proof -
  have s: "keep.J pyok keep.callq R (if z = PyNum True then nb_int E z else ret None)" for z
    unfolding nb_int_def using keep.J_x_call by (auto intro!: keep.J_ret_imp simp: keep.callq_def state_defs)
  have r: "keep.J (keep.callq t) optq R (case t of
      Some v \<Rightarrow> (case v of PyInt i \<Rightarrow> ret (Some v) | _ \<Rightarrow> pyx_WrongResultType E v)
    | None \<Rightarrow> bnd pyerr_occurred (\<lambda>b. if b then ret None else sq (set_err TypeErrorT y) (ret None)))" for t y
    by (auto simp: keep.callq_def intro!: keep.J_ret_optq J_WrongResultType keep.J_bnd [OF keep.J_occurred] keep.J_if_pre
        keep.J_sq [OF keep.J_set_err(1)] split: option.splits pyobj.splits)
  note b = keep.J_bnd [OF s r]
  show ?thesis unfolding pyx_IntOrLong_def
    by (cases x; simp only: pyobj.case keep.J_ret_optq; (rule b)?)
qed

lemma J_As_int: "keep.J pyok optq R (pyx_As_int E x)"
proof -
  have "keep.J (optq t) optq R (case t of None \<Rightarrow> ret None | Some (PyInt i) \<Rightarrow> long_as_int i
    | Some (PyBool b) \<Rightarrow> long_as_int (if b then 1 else 0) | Some _ \<Rightarrow> stuck Undefined)" for t
    by (auto simp: optq_def intro!: keep.J_ret_optq J_long_as_int keep.J_stuck split: option.splits pyobj.splits)
  then have res: "keep.J pyok optq R (bnd (pyx_IntOrLong E x) (\<lambda>t. case t of None \<Rightarrow> ret None
    | Some (PyInt i) \<Rightarrow> long_as_int i | Some (PyBool b) \<Rightarrow> long_as_int (if b then 1 else 0)
    | Some _ \<Rightarrow> stuck Undefined))" for x
    by (rule keep.J_bnd [OF J_IntOrLong])
  show ?thesis unfolding pyx_As_int_def
    by (cases x) (simp_all only: pyobj.case J_long_as_int res)
qed

lemma J_From_int: "keep.J pyok optq R (pyx_From_int E v)"
  unfolding pyx_From_int_def by (rule keep.J_capi)

lemma J_AsString: "keep.J pyok optq R (pyx_AsString x)"
  unfolding pyx_AsString_def
  by (auto intro!: keep.J_ret_optq keep.J_sq [OF keep.J_set_err(1)] split: pyobj.splits)

lemma J_arg_int: "keep.J pyok (\<lambda>_. pyok) pyex (arg_int E l v d)"
  unfolding arg_int_def
  by (auto intro!: keep.J_ret_any keep.J_bnd [OF J_As_int] keep.J_optq keep.J_pyx_err split: option.splits)

lemma J_arg_str: "keep.J pyok (\<lambda>_. pyok) pyex (arg_str l v)"
  unfolding arg_str_def
  by (cases v) (auto intro!: keep.J_stuck keep.J_ret_any keep.J_bnd [OF J_AsString] keep.J_optq keep.J_pyx_err)

lemma J_parse_keywords: "keep.J pyok optq R (parse_keywords kwds names vs n fname)"
proof (induction kwds arbitrary: vs)
  case (Cons kv kwds)
  have "keep.J pyok optq R (sq (set_err c v) (ret None))" for c v
    by (intro keep.J_sq [OF keep.J_set_err(1)] keep.J_ret_optq)
  then show ?case using Cons
    by (cases kv) (auto simp: pyx_RaiseDoubleKeywords_def split: pyobj.splits option.splits)
qed (simp add: keep.J_ret_optq)

lemma J_unpack_args: "keep.J pyok (\<lambda>_. pyok) pyex (unpack_args fname names nreq l args kwds)"
proof -
  have inv: "keep.J pyok (\<lambda>_. pyok) pyex (sq (pyx_RaiseArgtupleInvalid fname False nreq m k) (pyx_err 0 l))" for m k
    unfolding pyx_RaiseArgtupleInvalid_def by (intro keep.J_sq [OF keep.J_set_err(1)] keep.J_pyx_err)
  have "keep.J pyok (\<lambda>_. pyok) pyex (bnd (parse_keywords ks names vs n fname) (\<lambda>r. case r of
      None \<Rightarrow> pyx_err 0 l | Some x \<Rightarrow> ret x))" for ks vs n
    by (intro keep.J_bnd [OF J_parse_keywords] keep.J_optq keep.J_pyx_err keep.J_ret_any)
  then show ?thesis unfolding unpack_args_def Let_def
    by (auto intro: inv keep.J_ret_any split: option.splits sum.splits)
qed

lemma J_arg_parse:
  assumes "keep.J pyok (\<lambda>_. pyok) pyex parse"
  shows "keep.J pyok optq R (exit_err E fn None (bnd parse (\<lambda>x. ret (Some x))))"
  by (rule keep.J_exit_err, (rule keep.J_bnd [OF assms] keep.J_ret_optq)+) (simp add: optq_def)

section \<open>Plain calls\<close>

text \<open>An argument vector without keywords, of an accepted length, is unpacked
  in order, the missing parameters left empty.\<close>

lemma unpack_positional:
  "nreq \<le> length args \<Longrightarrow> length args \<le> length names \<Longrightarrow>
    unpack_args fname names nreq l args None s
      = Ret (map Some args @ replicate (length names - length args) None) s"
  by (simp add: unpack_args_def)

end
