(* ===== verification/HL_Lock.thy ===== *)
theory HL_Lock
  imports PyArgs "HOL-Library.Signed_Division"
begin

text \<open>
  The lock itself: the clock, \<open>get_value\<close>, \<open>lock\<close>, \<open>unlock\<close>,
  \<open>get_destroyed\<close> and \<open>get_pid_holding_lock\<close> of \<open>HybridLock\<close>, as the C
  functions the extension type's vtable holds, and the error protocol of each.
\<close>

unbundle bit_operations_syntax

section \<open>Clock\<close>

text \<open>\<open>__Pyx_div_long\<close>: floor division on \<open>long\<close>.\<close>

definition pyx_div_long :: "c_long \<Rightarrow> c_long \<Rightarrow> c_long" where
  "pyx_div_long a b =
    (let q = word_of_int (sint a sdiv sint b);
         r = a - q * b
     in q - (if r \<noteq> 0 \<and> sint (r XOR b) < 0 then 1 else 0))"

text \<open>The clock in milliseconds.  The arithmetic on \<open>long\<close> wraps around, as the extension
  is compiled with the interpreter's -fwrapv.\<close>

definition get_current_time_ms :: "'w env \<Rightarrow> ('w, c_long) cprog" where
  "get_current_time_ms E = bnd (sysc (x_clock_gettime E)) (\<lambda>(r, sec, nsec).
    ret (sec * 0x3E8 + pyx_div_long nsec 0xF4240))"

lemma sint_range64: "- (2 ^ 63) \<le> sint (x :: c_long)" "sint x < 2 ^ 63"
  using sint_range_size [of x] by (simp_all add: word_size)

lemma sint_of_range64: "- (2 ^ 63) \<le> i \<Longrightarrow> i < 2 ^ 63 \<Longrightarrow> sint (word_of_int i :: c_long) = i"
  by (simp add: signed_of_int signed_take_bit_int_eq_self)

lemma sdiv_range:
  fixes x y :: int
  assumes "- (2 ^ 63) \<le> x" "x < 2 ^ 63" "y \<noteq> 0" "\<not> (x = - (2 ^ 63) \<and> y = - 1)"
  shows "- (2 ^ 63) \<le> x sdiv y \<and> x sdiv y < 2 ^ 63 \<and> (\<not> y dvd x \<longrightarrow> - (2 ^ 63) < x sdiv y)"
proof (cases "\<bar>y\<bar> = 1")
  case True
  then have "y = 1 \<or> y = - 1" by auto
  then show ?thesis using assms by auto
next
  case False
  then have "\<bar>x\<bar> div \<bar>y\<bar> \<le> \<bar>x\<bar> div 2" using assms(3) by (intro zdiv_mono2) auto
  moreover have "\<bar>x\<bar> div 2 \<le> 2 ^ 62" using assms(1,2) by simp
  moreover have "\<bar>x sdiv y\<bar> \<le> \<bar>x\<bar> div \<bar>y\<bar>"
    using div_int_pos_iff [of "\<bar>x\<bar>" "\<bar>y\<bar>"] by (cases "x = 0") (simp_all add: signed_divide_int_def abs_mult assms(3))
  ultimately have "\<bar>x sdiv y\<bar> \<le> 2 ^ 62" by linarith
  then show ?thesis by (auto simp: abs_le_iff)
qed

lemma div_long_floor:
  assumes "sint b \<noteq> 0" and "\<not> (sint a = - (2 ^ 63) \<and> sint b = - 1)"
  shows "sint (pyx_div_long a b) = sint a div sint b"
proof -
  let ?x = "sint a" and ?y = "sint b"
  let ?q = "?x sdiv ?y" and ?m = "?x smod ?y"
  let ?r = "a - word_of_int ?q * b"
  have q: "- (2 ^ 63) \<le> ?q" "?q < 2 ^ 63" "\<not> ?y dvd ?x \<Longrightarrow> - (2 ^ 63) < ?q"
    using sdiv_range [of ?x ?y] sint_range64 [of a] assms by auto
  have "\<bar>?m\<bar> < \<bar>?y\<bar>" using smod_int_range [of ?y ?x] assms(1) by auto
  then have mr: "- (2 ^ 63) \<le> ?m" "?m < 2 ^ 63" using sint_range64 [of b] by auto
  have "?r = word_of_int (?x - ?q * ?y)" by simp
  then have r: "?r = word_of_int ?m" by (simp only: minus_sdiv_mult_eq_smod)
  have rs: "sint ?r = ?m" unfolding r by (rule sint_of_range64 [OF mr])
  have m0: "?m = 0 \<longleftrightarrow> ?y dvd ?x"
    by (auto simp: smod_int_alt_def sgn_0_0 dvd_eq_mod_eq_0 [of "\<bar>?y\<bar>", symmetric])
  have z: "?r \<noteq> 0 \<longleftrightarrow> \<not> ?y dvd ?x"
    using rs m0 by (metis signed_eq_0_iff)
  have n: "sint (?r XOR b) < 0 \<longleftrightarrow> (?m < 0) \<noteq> (?y < 0)"
    by (simp only: signed_xor_eq xor_negative_int_iff rs)
  have p: "\<not> z mod \<bar>?y\<bar> < 0" "0 < z mod \<bar>?y\<bar> \<longleftrightarrow> z mod \<bar>?y\<bar> \<noteq> 0" for z
    using pos_mod_sign [of "\<bar>?y\<bar>" z] assms(1) by linarith+
  have sg: "\<not> ?y dvd ?x \<Longrightarrow> (?m < 0) = (?x < 0) \<and> ?x \<noteq> 0"
    using m0 by (auto simp: smod_int_alt_def sgn_if p split: if_splits)
  have "?x div ?y = ?q - (if ?r \<noteq> 0 \<and> sint (?r XOR b) < 0 then 1 else 0)"
    unfolding divide_int_eq_signed_divide_int [of ?x ?y] z n
    using sg assms(1) by (cases "?y dvd ?x") (simp_all add: sgn_if)
  moreover have "sint (word_of_int ?q - (if ?r \<noteq> 0 \<and> sint (?r XOR b) < 0 then 1 else 0) :: c_long)
      = ?q - (if ?r \<noteq> 0 \<and> sint (?r XOR b) < 0 then 1 else 0)"
    using sint_of_range64 [of "?q - 1"] sint_of_range64 [of ?q] q z by auto
  ultimately show ?thesis by (simp add: pyx_div_long_def Let_def)
qed

text \<open>The clock in milliseconds, when the product does not overflow.\<close>

lemma clock_ms:
  assumes "x_clock_gettime E (wld c) = Sys ((r, sec, nsec), w')"
    and "- (2 ^ 52) \<le> sint sec" and "sint sec < 2 ^ 52" and "0 \<le> sint nsec" and "sint nsec < 10 ^ 9"
  shows "\<exists>v. get_current_time_ms E c = Ret v (c\<lparr>wld := w'\<rparr>) \<and> sint v = sint sec * 1000 + sint nsec div 10 ^ 6"
proof -
  let ?v = "sec * 0x3E8 + pyx_div_long nsec 0xF4240"
  have d: "sint (pyx_div_long nsec 0xF4240) = sint nsec div 10 ^ 6"
    using div_long_floor [of "0xF4240" nsec] by simp
  have n: "0 \<le> sint nsec div 10 ^ 6" "sint nsec div 10 ^ 6 < 1000" using assms(4,5) by auto
  have v: "?v = word_of_int (sint sec * 1000 + sint nsec div 10 ^ 6)"
    unfolding d [symmetric] by simp
  have "sint ?v = sint sec * 1000 + sint nsec div 10 ^ 6"
    unfolding v by (rule sint_of_range64) (use assms(2,3) n in simp_all)
  then show ?thesis using assms(1) by (simp add: get_current_time_ms_def bnd_def sysc_def)
qed

section \<open>Raising from the class\<close>

text \<open>\<open>raise Exception(msg)\<close> at a line of the source.\<close>

definition raise_const :: "'w env \<Rightarrow> int \<Rightarrow> cls \<Rightarrow> pyobj list \<Rightarrow> ('w, 'a) cprog" where
  "raise_const E l c args = bnd (chk l (pyx_PyObject_Call E (PyCls c) args)) (\<lambda>e.
    sq (pyx_Raise E e None) (pyx_err 0 l))"

text \<open>\<open>raise name(...)\<close> of a class looked up in the module at run time.\<close>

definition call_args :: "'w env \<Rightarrow> pyobj \<Rightarrow> pyobj list \<Rightarrow> ('w, pyobj option) cprog" where
  "call_args E f args = (case args of
      [] \<Rightarrow> pyx_PyObject_CallNoArg E f
    | [x] \<Rightarrow> pyx_PyObject_CallOneArg E f x
    | _ \<Rightarrow> bnd (capi E ''PyTuple_New'' ()) (\<lambda>t. case t of
        None \<Rightarrow> ret None | Some _ \<Rightarrow> pyx_PyObject_Call E f args))"

definition raise_global :: "'w env \<Rightarrow> int \<Rightarrow> string \<Rightarrow> pyobj list \<Rightarrow> ('w, 'a) cprog" where
  "raise_global E l name args =
    bnd (chk l (pyx_GetModuleGlobalName E name)) (\<lambda>f.
    bnd (chk l (call_args E f args)) (\<lambda>e.
    sq (pyx_Raise E e None) (pyx_err 0 l)))"

section \<open>get_destroyed, get_value\<close>

definition is_destroyed :: "'w env \<Rightarrow> nat \<Rightarrow> ('w, bool) cprog" where
  "is_destroyed E self = bnd (self_rd self spin_lock_char) (\<lambda>p. bnd (ld8 E p) (\<lambda>c.
    bnd (rd v_DESTROYED) (\<lambda>d. ret (c = d))))"

definition get_destroyed_f :: "'w env \<Rightarrow> nat \<Rightarrow> ('w, c_int) cprog" where
  "get_destroyed_f E self = bnd (is_destroyed E self) (\<lambda>b. ret (if b then 1 else 0))"

definition get_value_f :: "'w env \<Rightarrow> nat \<Rightarrow> ('w, c_int) cprog" where
  "get_value_f E self = exit_err E ''HybridLock.HybridLock.get_value'' (- 10)
    (sq (bnd (is_destroyed E self) (\<lambda>b.
           whn b (raise_global E 304 ''SemaphoreDestroyedException'' [])))
     (bnd (self_rd self semaphore) (\<lambda>sm. bnd (nonnull sm) (\<lambda>h.
      bnd (sysc (x_sem_getvalue E h)) (\<lambda>(result, val).
      if result = - 1 then raise_const E 313 ExceptionT [PyStr ''sem_getvalue'']
      else ret val)))))"

section \<open>lock\<close>

text \<open>\<open>struct __pyx_opt_args_10HybridLock_10HybridLock_lock\<close>.\<close>

record lock_opt_args =
  pyx_n :: c_int
  opt_timeout :: c_int
  opt_spin :: c_int

definition lock_timeout :: "lock_opt_args option \<Rightarrow> c_int" where
  "lock_timeout oa = (case oa of Some a \<Rightarrow> if sint (pyx_n a) > 0 then opt_timeout a else - 1 | None \<Rightarrow> - 1)"

definition lock_spin :: "lock_opt_args option \<Rightarrow> c_int" where
  "lock_spin oa = (case oa of Some a \<Rightarrow> if sint (pyx_n a) > 1 then opt_spin a else 1 | None \<Rightarrow> 1)"

definition lock_destroyed_msg :: string where
  "lock_destroyed_msg = ''lock called on destroyed HybridLock!''"

definition lock_check_destroyed :: "'w env \<Rightarrow> nat \<Rightarrow> ('w, unit) cprog" where
  "lock_check_destroyed E self = bnd (is_destroyed E self) (\<lambda>b.
    whn b (raise_global E 322 ''SemaphoreDestroyedException'' [PyStr lock_destroyed_msg]))"

text \<open>The exception inside the \<open>nogil\<close> block: the lock of the interpreter is
  taken for the \<open>raise\<close> and given up on the way out of it.\<close>

definition spin_destroyed :: "'w env \<Rightarrow> ('w, unit) cprog" where
  "spin_destroyed E = bnd (gilstate_ensure E) (\<lambda>g.
    at_label (raise_global E 347 ''SemaphoreDestroyedException'' [PyStr lock_destroyed_msg])
      (\<lambda>f l. sq (gilstate_release g) (pyx_err f l)))"

definition is_unlocked :: "'w env \<Rightarrow> nat \<Rightarrow> ('w, bool) cprog" where
  "is_unlocked E self = bnd (self_rd self spin_lock_char) (\<lambda>p. bnd (ld8 E p) (\<lambda>c.
    bnd (rd v_UNLOCKED) (\<lambda>d. ret (c = d))))"

text \<open>The \<open>while 1\<close> loop; \<open>break\<close> is \<open>ret ()\<close>.\<close>

function spin_loop :: "'w env \<Rightarrow> nat \<Rightarrow> c_long \<Rightarrow> int \<Rightarrow> ('w, unit) cprog" where
  "spin_loop E self from_t spin_times =
    bnd (get_current_time_ms E) (\<lambda>now.
    if 6 < sint (now - from_t) then ret ()
    else bnd (is_destroyed E self) (\<lambda>d.
    if d then spin_destroyed E
    else bnd (is_unlocked E self) (\<lambda>u.
    if u then ret ()
    else if spin_times > 0x2000 then ret ()
    else spin_loop E self from_t (spin_times + 1))))"
  by pat_completeness auto
termination
  by (relation "measure (\<lambda>(E, self, from_t, spin_times). nat (0x2001 - spin_times))") auto

declare spin_loop.simps [simp del]

definition spin_phase :: "'w env \<Rightarrow> nat \<Rightarrow> c_long \<Rightarrow> ('w, unit) cprog" where
  "spin_phase E self from_t =
    sq unblock_threads
    (sq (at_label (spin_loop E self from_t 0) (\<lambda>f l. sq (block_threads E) (pyx_err f l)))
    (block_threads E))"

definition mark_locked :: "'w env \<Rightarrow> nat \<Rightarrow> ('w, unit) cprog" where
  "mark_locked E self = bnd (self_rd self spin_lock_char) (\<lambda>p. bnd (rd v_LOCKED) (\<lambda>v. st8 E p v))"

definition lock_wait :: "'w env \<Rightarrow> nat \<Rightarrow> ('w, c_int) cprog" where
  "lock_wait E self =
    sq unblock_threads
    (bnd (self_rd self semaphore) (\<lambda>sm. bnd (nonnull sm) (\<lambda>h.
     bnd (sysc (x_sem_wait E h)) (\<lambda>retval.
     sq (block_threads E)
     (if retval \<noteq> - 1 then sq (mark_locked E self) (ret retval)
      else raise_const E 365 ExceptionT [PyStr ''sem_wait''])))))"

definition lock_timed_fail :: "'w env \<Rightarrow> c_int \<Rightarrow> ('w, c_int) cprog" where
  "lock_timed_fail E timeout = bnd (rd (\<lambda>s. x_errno E (wld s))) (\<lambda>errno.
    if errno = ETIMEDOUT then raise_global E 380 ''TimeoutError'' []
    else
      bnd (chk 382 (capi E ''PyInt_FromLong'' (sint timeout))) (\<lambda>i.
      bnd (chk 382 (capi E ''PyUnicode_Format'' (PyStr (''sem_timedwait: '' @ show_int i)))) (\<lambda>m.
      bnd (chk 382 (pyx_PyObject_CallOneArg E (PyCls ExceptionT) m)) (\<lambda>e.
      sq (pyx_Raise E e None) (pyx_err 0 382)))))"

definition lock_timed :: "'w env \<Rightarrow> nat \<Rightarrow> c_int \<Rightarrow> ('w, c_int) cprog" where
  "lock_timed E self timeout =
    bnd (sysc (x_clock_gettime E)) (\<lambda>(r, sec, nsec).
    if r = - 1 then raise_const E 368 ExceptionT [PyStr ''clock_gettime'']
    else
      sq unblock_threads
      (bnd (self_rd self semaphore) (\<lambda>sm. bnd (nonnull sm) (\<lambda>h.
       bnd (sysc (x_sem_timedwait E h (sec + scast timeout) nsec)) (\<lambda>retval.
       sq (block_threads E)
       (if retval \<noteq> - 1 then sq (mark_locked E self) (ret retval)
        else lock_timed_fail E timeout))))))"

definition lock_set_pid :: "'w env \<Rightarrow> nat \<Rightarrow> ('w, unit) cprog" where
  "lock_set_pid E self = bnd (sysc (x_getpid E)) (\<lambda>pid.
    bnd (self_rd self spin_lock_pid) (\<lambda>p. st32 E p pid))"

definition lock_f :: "'w env \<Rightarrow> nat \<Rightarrow> lock_opt_args option \<Rightarrow> ('w, c_int) cprog" where
  "lock_f E self oa = exit_err E ''HybridLock.HybridLock.lock'' (- 1)
    (let timeout = lock_timeout oa; spin = lock_spin oa in
     sq (lock_check_destroyed E self)
     (bnd (get_current_time_ms E) (\<lambda>from_t.
      sq (whn (spin \<noteq> 0) (spin_phase E self from_t))
      (bnd (if timeout = - 1 then lock_wait E self else lock_timed E self timeout) (\<lambda>retval.
       sq (whn (retval = 0) (lock_set_pid E self)) (ret retval))))))"

section \<open>unlock, get_pid_holding_lock\<close>

definition unlock_f :: "'w env \<Rightarrow> nat \<Rightarrow> ('w, c_int) cprog" where
  "unlock_f E self = exit_err E ''HybridLock.HybridLock.unlock'' (- 1)
    (sq (bnd (is_destroyed E self) (\<lambda>b.
           whn b (raise_global E 391 ''SemaphoreDestroyedException'' [])))
     (sq (bnd (self_rd self spin_lock_char) (\<lambda>p. bnd (rd v_UNLOCKED) (\<lambda>v. st8 E p v)))
     (bnd (get_value_f E self) (\<lambda>t.
      if t = - 10 then pyx_err 0 397
      else if t = 0 then
        bnd (self_rd self semaphore) (\<lambda>sm. bnd (nonnull sm) (\<lambda>h.
        bnd (sysc (x_sem_post E h)) (\<lambda>retval.
        if retval \<noteq> 0 then raise_const E 400 ExceptionT [PyStr ''sem_post'']
        else ret retval)))
      else ret (- 1)))))"

definition get_pid_f :: "'w env \<Rightarrow> nat \<Rightarrow> ('w, c_int) cprog" where
  "get_pid_f E self = exit_err E ''HybridLock.HybridLock.get_pid_holding_lock'' (- 1)
    (bnd (get_value_f E self) (\<lambda>t.
     if t = - 10 then pyx_err 0 405
     else if t = - 1 then ret (- 1)
     else if t = 0 then bnd (self_rd self spin_lock_pid) (\<lambda>p. ld32 E p)
     else ret 0))"

section \<open>The error protocol of each function\<close>

lemmas J_keep = keep.J_bnd keep.J_sq keep.J_rd keep.J_self_rd keep.J_nonnull keep.J_mem keep.J_sysc
  keep.stable_wld keep.J_if keep.J_whn

lemma ok_retype: "optq (Some v) = pyok" "optq None = pyex" "valq e e = pyex"
  by (simp_all add: optq_def valq_def)

lemma J_clock: "(\<And>s w. P (s\<lparr>wld := w\<rparr>) = P s) \<Longrightarrow> keep.J P (\<lambda>_. P) R (get_current_time_ms E)"
  unfolding get_current_time_ms_def
  by (rule keep.J_bnd [OF keep.J_sysc]) (auto intro: keep.J_ret split: prod.splits)

lemma J_chk_Call: "keep.J pyok (\<lambda>_. pyok) pyex (chk l (pyx_PyObject_Call E f args))"
  by (rule keep.J_chk [OF keep.J_PyObject_Call])

lemma J_raise_const: "keep.J pyok Q pyex (raise_const E l c args)"
  unfolding raise_const_def
  by (rule keep.J_bnd [OF J_chk_Call] keep.J_sq [OF keep.J_Raise] keep.J_pyx_err)+

lemma J_call_args: "keep.J pyok optq R (call_args E f args)"
  unfolding call_args_def
  by (auto intro!: keep.J_CallNoArg keep.J_CallOneArg keep.J_bnd [OF keep.J_capi(1)] keep.J_optq
      keep.J_ret_optq keep.J_PyObject_Call split: list.splits)

lemma J_raise_global: "keep.J pyok Q pyex (raise_global E l name args)"
  unfolding raise_global_def
  by (rule keep.J_bnd [OF keep.J_chk [OF keep.J_GetModuleGlobalName]] keep.J_bnd [OF keep.J_chk [OF J_call_args]]
      keep.J_sq [OF keep.J_Raise] keep.J_pyx_err)+

lemma J_is_destroyed: "(\<And>s w. P (s\<lparr>wld := w\<rparr>) = P s) \<Longrightarrow> keep.J P (\<lambda>_. P) R (is_destroyed E self)"
  unfolding is_destroyed_def
  by (rule keep.J_bnd [OF keep.J_self_rd] keep.J_bnd [OF keep.J_mem(1)] keep.J_bnd [OF keep.J_rd]
      keep.J_ret_any | assumption)+

lemma J_is_unlocked: "(\<And>s w. P (s\<lparr>wld := w\<rparr>) = P s) \<Longrightarrow> keep.J P (\<lambda>_. P) R (is_unlocked E self)"
  unfolding is_unlocked_def
  by (rule keep.J_bnd [OF keep.J_self_rd] keep.J_bnd [OF keep.J_mem(1)] keep.J_bnd [OF keep.J_rd]
      keep.J_ret_any | assumption)+

lemma J_get_destroyed_f: "keep.J pyok (\<lambda>_. pyok) R (get_destroyed_f E self)"
  unfolding get_destroyed_f_def
  by (rule keep.J_bnd [OF J_is_destroyed] keep.J_ret_any keep.stable_wld)+

lemma J_when_destroyed: "keep.J pyok (\<lambda>_. pyok) pyex
    (bnd (is_destroyed E self) (\<lambda>b. whn b (raise_global E l name args)))"
  by (rule keep.J_bnd [OF J_is_destroyed] keep.J_whn J_raise_global keep.stable_wld)+

text \<open>
  \<open>sem_getvalue\<close> stores a count that is never negative (on Linux the count of
  waiters is not reported); so its result is not taken for an error value.
\<close>

definition getvalue_nonneg :: "'w env \<Rightarrow> bool" where
  "getvalue_nonneg E = (\<forall>h w r v w'. x_sem_getvalue E h w = Sys ((r, v), w') \<and> r \<noteq> - 1 \<longrightarrow> 0 \<le> sint v)"

lemma sint_nonneg_ne: "0 \<le> sint (v :: c_int) \<Longrightarrow> v \<noteq> - 10" "0 \<le> sint v \<Longrightarrow> v \<noteq> - 1"
  by auto

lemma keep_J_sysc_val: "(\<And>s w. P (s\<lparr>wld := w\<rparr>) = P s) \<Longrightarrow>
    keep.J P (\<lambda>a s. P s \<and> (\<exists>w w'. f w = Sys (a, w'))) R (sysc f)"
  by (rule keep.JI) (auto simp: wp_def sysc_def keep.F_wld split: sysres.splits)

lemma keep_J_fact: "(\<phi> \<Longrightarrow> keep.J P Q R m) \<Longrightarrow> keep.J (\<lambda>s. P s \<and> \<phi>) Q R m"
  by (auto simp: keep.J_def)

lemma J_get_value_f:
  assumes "getvalue_nonneg E"
  shows "keep.J pyok (\<lambda>r s. valq (- 10) r s \<and> (r = - 10 \<or> 0 \<le> sint r)) R (get_value_f E self)"
proof -
  have res: "keep.J pyok (\<lambda>r s. valq (- 10) r s \<and> (r = - 10 \<or> 0 \<le> sint r)) pyex
      (case x of (result, val) \<Rightarrow> if result = - 1 then raise_const E l c args else ret val)"
    if "\<exists>w w'. x_sem_getvalue E h w = Sys (x, w')" for x h l c args
  proof -
    obtain r v where x: "x = (r, v)" by (cases x)
    have "r \<noteq> - 1 \<Longrightarrow> 0 \<le> sint v" using that assms x unfolding getvalue_nonneg_def by blast
    then show ?thesis using sint_nonneg_ne(1) [of v]
      by (auto simp: x valq_def intro!: J_raise_const keep.J_ret_imp)
  qed
  have body: "keep.J pyok (\<lambda>r s. valq (- 10) r s \<and> (r = - 10 \<or> 0 \<le> sint r)) pyex
     (sq (bnd (is_destroyed E self) (\<lambda>b. whn b (raise_global E 304 ''SemaphoreDestroyedException'' [])))
     (bnd (self_rd self semaphore) (\<lambda>sm. bnd (nonnull sm) (\<lambda>h.
      bnd (sysc (x_sem_getvalue E h)) (\<lambda>(result, val).
      if result = - 1 then raise_const E 313 ExceptionT [PyStr ''sem_getvalue''] else ret val)))))"
    by (rule keep.J_sq [OF J_when_destroyed] keep.J_bnd [OF keep.J_self_rd] keep.J_bnd [OF keep.J_nonnull]
        keep.J_bnd [OF keep_J_sysc_val] keep.stable_wld keep_J_fact res | assumption)+
  show ?thesis unfolding get_value_f_def
    by (rule keep.J_exit_err [OF body]) (simp add: ok_retype fun_eq_iff)
qed


lemma J_spin_destroyed: "keep.J nogil Q nogil_ex (spin_destroyed E)"
proof -
  have "keep.J (if g then \<lambda>_. False else pyok) Q nogil_ex
      (at_label (raise_global E 347 n a) (\<lambda>f l. sq (gilstate_release g) (pyx_err f l)))" for g n a
    by (cases g) (auto simp: keep.J_False intro!: keep.J_at_label [OF J_raise_global]
        keep.J_sq [OF keep.J_release_ex] keep.J_pyx_err)
  then show ?thesis unfolding spin_destroyed_def by (rule keep.J_bnd [OF keep.J_ensure])
qed

lemma J_spin_loop: "keep.J nogil (\<lambda>_. nogil) nogil_ex (spin_loop E self from_t k)"
proof (induction E self from_t k rule: spin_loop.induct)
  case (1 E self from_t k)
  show ?case unfolding spin_loop.simps [of E self from_t k]
    by (rule keep.J_bnd [OF J_clock] keep.J_bnd [OF J_is_destroyed] keep.J_bnd [OF J_is_unlocked] keep.J_if
        keep.J_ret_any J_spin_destroyed keep.stable_wld 1 | assumption)+
qed

lemma J_spin_phase: "keep.J pyok (\<lambda>_. pyok) pyex (spin_phase E self from_t)"
  unfolding spin_phase_def
  by (rule keep.J_sq [OF keep.J_unblock] keep.J_sq [OF keep.J_at_label [OF J_spin_loop]]
      keep.J_sq [OF keep.J_block(2)] keep.J_pyx_err keep.J_block(1))+

lemma J_st8: "keep.J pyok (\<lambda>_. pyok) R (st8 E p v)"
  by (rule keep.J_mem) (rule keep.stable_wld)

lemma J_mark_locked: "keep.J pyok (\<lambda>_. pyok) R (mark_locked E self)"
  unfolding mark_locked_def by (rule keep.J_bnd [OF keep.J_self_rd] keep.J_bnd [OF keep.J_rd] J_st8)+

lemma J_locked_result:
  "(r = - 1 \<Longrightarrow> keep.J pyok (valq (- 1)) pyex m) \<Longrightarrow>
    keep.J pyok (valq (- 1)) pyex (if r \<noteq> - 1 then sq (mark_locked E self) (ret r) else m)"
  by (auto intro!: keep.J_sq [OF J_mark_locked] keep.J_ret_imp simp: valq_def)

lemma J_lock_wait: "keep.J pyok (valq (- 1)) pyex (lock_wait E self)"
  unfolding lock_wait_def
  by (rule keep.J_sq [OF keep.J_unblock] keep.J_bnd [OF keep.J_self_rd] keep.J_bnd [OF keep.J_nonnull]
      keep.J_bnd [OF keep.J_sysc] keep.stable_wld keep.J_sq [OF keep.J_block(1)] J_locked_result J_raise_const)+

lemma J_lock_timed_fail: "keep.J pyok Q pyex (lock_timed_fail E timeout)"
  unfolding lock_timed_fail_def
  by (rule keep.J_bnd [OF keep.J_rd] keep.J_if J_raise_global keep.J_bnd [OF keep.J_chk [OF keep.J_capi(1)]]
      keep.J_bnd [OF keep.J_chk [OF keep.J_CallOneArg]] keep.J_sq [OF keep.J_Raise] keep.J_pyx_err)+

lemma J_lock_timed: "keep.J pyok (valq (- 1)) pyex (lock_timed E self timeout)"
proof -
  have res: "keep.J pyok (valq (- 1)) pyex
     (case x of (r, sec, nsec) \<Rightarrow> if r = - 1 then raise_const E 368 c a else
      sq unblock_threads
      (bnd (self_rd self semaphore) (\<lambda>sm. bnd (nonnull sm) (\<lambda>h.
       bnd (sysc (x_sem_timedwait E h (sec + scast timeout) nsec)) (\<lambda>retval.
       sq (block_threads E)
       (if retval \<noteq> - 1 then sq (mark_locked E self) (ret retval)
        else lock_timed_fail E timeout))))))" for x :: "c_int \<times> c_long \<times> c_long" and c a
    by (cases x, simp only: prod.case)
      (rule keep.J_if J_raise_const keep.J_sq [OF keep.J_unblock] keep.J_bnd [OF keep.J_self_rd]
        keep.J_bnd [OF keep.J_nonnull] keep.J_bnd [OF keep.J_sysc] keep.stable_wld
        keep.J_sq [OF keep.J_block(1)] J_locked_result J_lock_timed_fail)+
  show ?thesis unfolding lock_timed_def by (rule keep.J_bnd [OF keep.J_sysc] keep.stable_wld res)+
qed

lemma J_lock_set_pid: "keep.J pyok (\<lambda>_. pyok) R (lock_set_pid E self)"
  unfolding lock_set_pid_def
  by (rule keep.J_bnd [OF keep.J_sysc] keep.J_bnd [OF keep.J_self_rd] keep.stable_wld
      keep.J_mem(4))+

lemma J_lock_f: "keep.J pyok (valq (- 1)) R (lock_f E self oa)"
proof -
  have fin: "keep.J (valq (- 1) r) (valq (- 1)) pyex (sq (whn (r = 0) (lock_set_pid E self)) (ret r))" for r :: c_int
    by (cases "r = - 1") (auto simp: valq_def whn_def intro!: keep.J_sq [OF keep.J_ret_any]
        keep.J_sq [OF J_lock_set_pid] keep.J_ret_imp)
  have chk: "keep.J pyok (\<lambda>_. pyok) pyex (lock_check_destroyed E self)"
    unfolding lock_check_destroyed_def by (rule J_when_destroyed)
  have sp: "keep.J pyok (\<lambda>_. pyok) pyex (whn b (spin_phase E self t))" for b t
    by (rule keep.J_whn) (rule J_spin_phase)
  have wt: "keep.J pyok (valq (- 1)) pyex (if t = - 1 then lock_wait E self else lock_timed E self t)" for t
    by (simp add: J_lock_wait J_lock_timed)
  show ?thesis unfolding lock_f_def Let_def
    by (rule keep.J_exit_err, (rule keep.J_sq [OF chk] keep.J_bnd [OF J_clock] keep.stable_wld
        keep.J_sq [OF sp] keep.J_bnd [OF wt] fin)+) (simp add: ok_retype)
qed

text \<open>\<open>unlock\<close> may return its error value \<open>-1\<close> without an exception; the two
  outcomes are kept apart by the state alone.\<close>

definition unlq :: "c_int \<Rightarrow> 'w cst \<Rightarrow> bool" where
  "unlq r s = (gil s \<and> (r \<noteq> - 1 \<longrightarrow> r = 0 \<and> curexc s = None))"

lemma J_unlock_f:
  assumes "getvalue_nonneg E"
  shows "keep.J pyok unlq R (unlock_f E self)"
proof -
  have st: "keep.J pyok (\<lambda>_. pyok) R' (bnd (self_rd self spin_lock_char) (\<lambda>p. bnd (rd v_UNLOCKED) (\<lambda>v. st8 E p v)))" for R'
    by (rule keep.J_bnd [OF keep.J_self_rd] keep.J_bnd [OF keep.J_rd] J_st8)+
  have post: "keep.J pyok (\<lambda>r s. pyok s \<and> (r = 0 \<or> r = - 1)) pyex
      (if r \<noteq> 0 then raise_const E 400 c a else ret r)" for r c a
    by (auto intro!: J_raise_const keep.J_ret_imp)
  have fin: "keep.J (\<lambda>s. valq (- 10) t s \<and> (t = - 10 \<or> 0 \<le> sint t)) (\<lambda>r s. pyok s \<and> (r = 0 \<or> r = - 1)) pyex
     (if t = - 10 then pyx_err 0 397
      else if t = 0 then
        bnd (self_rd self semaphore) (\<lambda>sm. bnd (nonnull sm) (\<lambda>h.
        bnd (sysc (x_sem_post E h)) (\<lambda>retval.
        if retval \<noteq> 0 then raise_const E 400 ExceptionT [PyStr ''sem_post''] else ret retval)))
      else ret (- 1))" for t
    by (rule keep.J_weaken [of "valq (- 10) t"])
      (auto simp: valq_def intro!: keep.J_pyx_err keep.J_ret_imp keep.J_bnd [OF keep.J_self_rd]
        keep.J_bnd [OF keep.J_nonnull] keep.J_bnd [OF keep.J_sysc] post)
  have body: "keep.J pyok (\<lambda>r s. pyok s \<and> (r = 0 \<or> r = - 1)) pyex
    (sq (bnd (is_destroyed E self) (\<lambda>b. whn b (raise_global E 391 ''SemaphoreDestroyedException'' [])))
     (sq (bnd (self_rd self spin_lock_char) (\<lambda>p. bnd (rd v_UNLOCKED) (\<lambda>v. st8 E p v)))
     (bnd (get_value_f E self) (\<lambda>t.
      if t = - 10 then pyx_err 0 397
      else if t = 0 then
        bnd (self_rd self semaphore) (\<lambda>sm. bnd (nonnull sm) (\<lambda>h.
        bnd (sysc (x_sem_post E h)) (\<lambda>retval.
        if retval \<noteq> 0 then raise_const E 400 ExceptionT [PyStr ''sem_post''] else ret retval)))
      else ret (- 1)))))"
    by (rule keep.J_sq [OF J_when_destroyed] keep.J_sq [OF st] keep.J_bnd [OF J_get_value_f [OF assms]] fin)+
  have "keep.J pyok (\<lambda>r s. (if r = - 1 then gil s else pyok s \<and> r = 0)) R (unlock_f E self)"
    unfolding unlock_f_def exit_err_def
    by (rule keep.J_at_label, rule keep.J_weaken [OF body], assumption, force simp: state_defs, assumption)
      (rule keep.J_sq [OF keep.J_AddTraceback], rule keep.J_ret_imp, simp add: state_defs)
  then show ?thesis
    by (rule keep.J_weaken) (auto simp: unlq_def state_defs split: if_splits)
qed

end
