(* ===== verification/HL_Init.thy ===== *)
theory HL_Init
  imports HL_Lock
begin

text \<open>
  \<open>HybridLock.init_mmap\<close>, which opens and maps the shared byte and pid of the
  lock, the error helper \<open>__exception_occurred\<close> it calls, and the Python
  wrappers of the two.
\<close>

section \<open>Changing one object\<close>

text \<open>The frame of the operations that write fields of \<open>self\<close>: other objects
  and the module are left alone.\<close>

definition only :: "nat \<Rightarrow> 'w cst \<Rightarrow> 'w cst \<Rightarrow> bool" where
  "only n s t = ((\<forall>m. m \<noteq> n \<longrightarrow> objs t m = objs s m) \<and> (objs t n = None \<longleftrightarrow> objs s n = None)
    \<and> nobj t = nobj s \<and> nmem t = nmem s
    \<and> mdict t = mdict s \<and> bdict t = bdict s \<and> v_LOCKED t = v_LOCKED s \<and> v_UNLOCKED t = v_UNLOCKED s
    \<and> v_DESTROYED t = v_DESTROYED s \<and> v_k t = v_k s \<and> (cc_ok (cocache s) \<longrightarrow> cc_ok (cocache t)))"

interpretation own: frame "only n" for n
  by unfold_locales (auto simp: only_def cc.ok_put)

lemma keep_own: "keep.J P Q R m \<Longrightarrow> own.J n P Q R m"
  by (rule own.JI) (auto dest!: keep.JD elim!: wp_mono simp: same_def only_def)

lemma own_any: "own.J n P Q R m \<Longrightarrow> anyf.J P Q R m"
  by (rule anyf.JI) (auto dest!: own.JD elim!: wp_mono)

lemma keep_any: "keep.J P Q R m \<Longrightarrow> anyf.J P Q R m"
  by (rule own_any [OF keep_own])

lemma stable_objs: "pyok (s\<lparr>objs := x\<rparr>) = pyok s" "pyex (s\<lparr>objs := x\<rparr>) = pyex s"
  "pyok (s\<lparr>cmem := y\<rparr>) = pyok s" "pyex (s\<lparr>cmem := y\<rparr>) = pyex s"
  by (simp_all add: state_defs)

lemma own_self_wr:
  assumes "\<And>s x. P (s\<lparr>objs := x\<rparr>) = P s"
  shows "own.J n P (\<lambda>_. P) R (self_wr n g)"
  by (rule own.JI) (auto simp: wp_def self_wr_def only_def assms split: option.splits)

section \<open>__exception_occurred\<close>

definition exception_occurred_pf :: "'w env \<Rightarrow> nat \<Rightarrow> pyobj \<Rightarrow> ('w, pyobj option) cprog" where
  "exception_occurred_pf E self kind = exit_err E ''HybridLock.HybridLock.__exception_occurred'' None
    (bnd (chk 171 (api_number_add E (PyStr ''Error occurred calling '') kind)) (\<lambda>t1.
     bnd (chk 171 (api_number_add E t1 (PyStr '': ''))) (\<lambda>t2.
     bnd (rd (\<lambda>s. x_strerror E (x_errno E (wld s)))) (\<lambda>t3.
     bnd (chk 171 (pyx_decode_c_string E t3 0 (int (length (c_str t3))))) (\<lambda>t4.
     bnd (chk 171 (api_number_add E t2 t4)) (\<lambda>t5.
     bnd (chk 171 (pyx_PyObject_CallOneArg E (PyCls ExceptionT) t5)) (\<lambda>e.
     sq (pyx_Raise E e None) (pyx_err 0 171))))))))"

definition exception_occurred_pw :: "'w env \<Rightarrow> nat \<Rightarrow> pyobj \<Rightarrow> ('w, pyobj option) cprog" where
  "exception_occurred_pw E self kind = exception_occurred_pf E self kind"

section \<open>init_mmap\<close>

text \<open>\<open>raise SystemError(msg)\<close>, of the class found at module initialisation.\<close>

definition raise_SystemError :: "'w env \<Rightarrow> int \<Rightarrow> string \<Rightarrow> ('w, 'a) cprog" where
  "raise_SystemError E l msg = raise_const E l SystemErrorT [PyStr msg]"

text \<open>Opening the shared memory object: it is created when \<open>errno\<close> is ENOENT
  after the first \<open>shm_open\<close>, whatever that call returned.\<close>

definition init_mmap_open :: "'w env \<Rightarrow> nat \<Rightarrow> string \<Rightarrow> c_int \<Rightarrow> ('w, unit) cprog" where
  "init_mmap_open E self loc permissions =
    bnd (sysc (x_shm_open E loc O_RDWR permissions)) (\<lambda>fd.
    sq (self_wr self (\<lambda>h. h\<lparr>shm_fd := fd\<rparr>))
    (bnd (rd (\<lambda>s. x_errno E (wld s))) (\<lambda>errno.
     whn (errno = ENOENT)
       (bnd (sysc (x_shm_open E loc (O_RDWR OR O_CREAT) permissions)) (\<lambda>fd.
        sq (self_wr self (\<lambda>h. h\<lparr>shm_fd := fd\<rparr>))
        (bnd (self_rd self shm_fd) (\<lambda>fd.
         bnd (sysc (x_fchmod E fd permissions)) (\<lambda>r.
         whn (r = - 1)
           (bnd (chk 191 (capi E ''PyObject_GetAttr'' ())) (\<lambda>_.
            bnd (chk 191 (pyx_call_checked E (exception_occurred_pw E self (PyStr ''fchmod'')))) (\<lambda>_.
            ret ())))))))))))"

definition init_mmap_map :: "'w env \<Rightarrow> nat \<Rightarrow> ('w, unit) cprog" where
  "init_mmap_map E self =
    bnd (self_rd self shm_fd) (\<lambda>fd.
    sq (whn (fd = - 1) (raise_SystemError E 196 ''shm_open''))
    (bnd (sysc (x_ftruncate E fd 8)) (\<lambda>r.
     sq (whn (r = - 1) (raise_SystemError E 200 ''ftruncate''))
     (bnd (sysc (x_getpagesize E)) (\<lambda>size.
      bnd (sysc (x_mmap E size fd)) (\<lambda>addr. case addr of
        None \<Rightarrow> raise_SystemError E 212 ''mmap''
      | Some a \<Rightarrow> self_wr self (\<lambda>h. h\<lparr>spin_lock_char := Some a\<rparr>)))))))"

text \<open>Setting the byte, and the check that it does not mark a destroyed lock.\<close>

definition init_mmap_value :: "'w env \<Rightarrow> nat \<Rightarrow> string \<Rightarrow> c_int \<Rightarrow> ('w, unit) cprog" where
  "init_mmap_value E self loc set_value =
    bnd (self_rd self spin_lock_char) (\<lambda>p.
    sq (whn (set_value \<noteq> - 1) (st8 E p (to_char set_value)))
    (bnd (is_destroyed E self) (\<lambda>b.
     sq (whn b
       (bnd (chk 219 (pyx_GetModuleGlobalName E ''SemaphoreDestroyedException'')) (\<lambda>f.
        bnd (chk 219 (capi E ''PyBytes_FromString'' (PyBytes (c_str loc)))) (\<lambda>t4.
        bnd (chk 219 (call_args E f [PyStr ''Semaphore at %s already destroyed: shouldn't get here!'', t4])) (\<lambda>e.
        sq (pyx_Raise E e None) (pyx_err 0 219))))))
     (bnd (nonnull p) (\<lambda>a. self_wr self (\<lambda>h. h\<lparr>spin_lock_pid := Some (a + 1)\<rparr>))))))"

definition init_mmap_pf :: "'w env \<Rightarrow> nat \<Rightarrow> string \<Rightarrow> c_int \<Rightarrow> c_int \<Rightarrow> ('w, pyobj option) cprog" where
  "init_mmap_pf E self loc permissions set_value = exit_err E ''HybridLock.HybridLock.init_mmap'' None
    (sq (init_mmap_open E self (c_str loc) permissions)
    (sq (init_mmap_map E self)
    (sq (init_mmap_value E self loc set_value)
    (ret (Some (PyInt 0))))))"

definition init_mmap_args :: "'w env \<Rightarrow> pyobj list \<Rightarrow> (pyobj \<times> pyobj) list option \<Rightarrow>
    ('w, string \<times> c_int \<times> c_int) cprog" where
  "init_mmap_args E args kwds =
    bnd (unpack_args ''init_mmap'' [''sem_loc'', ''permissions'', ''set_value''] 2 173 args kwds) (\<lambda>vs.
    bnd (arg_str 173 (vs ! 0)) (\<lambda>loc.
    bnd (arg_int E 173 (vs ! 1) 0) (\<lambda>permissions.
    bnd (arg_int E 173 (vs ! 2) (- 1)) (\<lambda>set_value.
    ret (loc, permissions, set_value)))))"

definition init_mmap_pw :: "'w env \<Rightarrow> nat \<Rightarrow> pyobj list \<Rightarrow> (pyobj \<times> pyobj) list option \<Rightarrow>
    ('w, pyobj option) cprog" where
  "init_mmap_pw E self args kwds =
    arg_wrapper E ''HybridLock.HybridLock.init_mmap'' None (init_mmap_args E args kwds)
      (\<lambda>(loc, permissions, set_value). init_mmap_pf E self loc permissions set_value)"

section \<open>The error protocol\<close>

lemma J_exception_occurred: "keep.J pyok optq R (exception_occurred_pw E self kind)"
  unfolding exception_occurred_pw_def exception_occurred_pf_def
  by (rule keep.J_exit_err, (rule keep.J_bnd [OF keep.J_chk [OF keep.J_number_add]] keep.J_bnd [OF keep.J_rd]
      keep.J_bnd [OF keep.J_chk [OF keep.J_decode]] keep.J_bnd [OF keep.J_chk [OF keep.J_CallOneArg]]
      keep.J_sq [OF keep.J_Raise] keep.J_pyx_err)+) (simp add: ok_retype)

lemma J_raise_SystemError: "keep.J pyok Q pyex (raise_SystemError E l m)"
  unfolding raise_SystemError_def by (rule J_raise_const)

lemma own_wr: "own.J n pyok (\<lambda>_. pyok) R (self_wr n g)"
  by (rule own_self_wr) (rule stable_objs)

lemma J_init_mmap_open: "own.J self pyok (\<lambda>_. pyok) pyex (init_mmap_open E self loc p)"
proof -
  have exc: "own.J self pyok (\<lambda>_. pyok) pyex
      (chk 191 (pyx_call_checked E (exception_occurred_pw E self k)))" for k
    by (rule keep_own, rule keep.J_chk, rule keep.J_call_checked, rule keep.optq_callq, rule J_exception_occurred)
  show ?thesis unfolding init_mmap_open_def
    by (rule own.J_bnd [OF own.J_sysc] own.J_sq [OF own_wr] own.J_bnd [OF own.J_rd] own.J_bnd [OF own.J_self_rd]
        own.J_whn own.J_bnd [OF own.J_chk [OF own.J_capi(1)]] own.J_bnd [OF exc] own.J_ret_any own.stable_wld)+
qed

lemma J_init_mmap_map: "own.J self pyok (\<lambda>_. pyok) pyex (init_mmap_map E self)"
proof -
  have r: "own.J self pyok (\<lambda>_. pyok) pyex (whn b (raise_SystemError E l m))" for b l m
    by (rule own.J_whn) (rule keep_own [OF J_raise_SystemError])
  have "own.J self pyok (\<lambda>_. pyok) pyex (case addr of None \<Rightarrow> raise_SystemError E 212 m
      | Some a \<Rightarrow> self_wr self (\<lambda>h. h\<lparr>spin_lock_char := Some a\<rparr>))" for addr :: ptr and m
    by (rule own.J_case_option keep_own [OF J_raise_SystemError] own_wr)+
  then show ?thesis unfolding init_mmap_map_def
    by (intro own.J_bnd [OF own.J_sysc] own.J_sq [OF r] own.J_bnd [OF own.J_self_rd] own.stable_wld)
qed

lemma J_init_mmap_value: "own.J self pyok (\<lambda>_. pyok) pyex (init_mmap_value E self loc v)"
proof -
  have w: "own.J self pyok (\<lambda>_. pyok) pyex (whn b (st8 E p x))" for b p x
    by (rule own.J_whn) (rule keep_own [OF J_st8])
  have d: "own.J self pyok (\<lambda>_. pyok) pyex (is_destroyed E self)"
    by (rule keep_own, rule J_is_destroyed) (rule keep.stable_wld)
  have r: "own.J self pyok (\<lambda>_. pyok) pyex (whn b
       (bnd (chk 219 (pyx_GetModuleGlobalName E n)) (\<lambda>f.
        bnd (chk 219 (capi E g x)) (\<lambda>t4.
        bnd (chk 219 (call_args E f [y, t4])) (\<lambda>e.
        sq (pyx_Raise E e None) (pyx_err 0 219))))))" for b n g x y
    by (rule own.J_whn, rule keep_own)
      (rule keep.J_bnd [OF keep.J_chk [OF keep.J_GetModuleGlobalName]] keep.J_bnd [OF keep.J_chk [OF keep.J_capi(1)]]
        keep.J_bnd [OF keep.J_chk [OF J_call_args]] keep.J_sq [OF keep.J_Raise] keep.J_pyx_err)+
  show ?thesis unfolding init_mmap_value_def
    by (intro own.J_bnd [OF own.J_self_rd] own.J_sq [OF w] own.J_bnd [OF d] own.J_sq [OF r]
        own.J_bnd [OF own.J_nonnull] own_wr)
qed

lemma J_init_mmap_pf: "own.J self pyok optq R (init_mmap_pf E self loc p v)"
  unfolding init_mmap_pf_def
  by (rule own.J_exit_err, (rule own.J_sq [OF J_init_mmap_open] own.J_sq [OF J_init_mmap_map]
      own.J_sq [OF J_init_mmap_value] own.J_ret_optq)+) (simp add: ok_retype)

lemma J_init_mmap_pw: "own.J self pyok optq R (init_mmap_pw E self args kwds)"
proof -
  have p: "keep.J pyok (\<lambda>_. pyok) pyex (init_mmap_args E args kwds)"
    unfolding init_mmap_args_def
    by (rule keep.J_bnd [OF J_unpack_args] keep.J_bnd [OF J_arg_str] keep.J_bnd [OF J_arg_int] keep.J_ret_any)+
  show ?thesis unfolding init_mmap_pw_def arg_wrapper_def
    by (rule own.J_bnd [OF keep_own [OF J_arg_parse [OF p]]], rule own.J_optq)
      (auto intro: own.J_ret_optq J_init_mmap_pf split: prod.splits)
qed

end
