(* ===== verification/HL_Destroy.thy ===== *)
theory HL_Destroy
  imports HL_Init
begin

text \<open>
  The end of a lock: \<open>__del__\<close> and \<open>destroy\<close>, with the accounting of the copy
  of the name that \<open>_sem_loc\<close> points to, which is freed at most once.
\<close>

definition raise_Exception :: "'w env \<Rightarrow> int \<Rightarrow> string \<Rightarrow> ('w, 'a) cprog" where
  "raise_Exception E l msg = raise_const E l ExceptionT [PyStr msg]"

section \<open>__del__\<close>

definition del_pf :: "'w env \<Rightarrow> nat \<Rightarrow> ('w, pyobj option) cprog" where
  "del_pf E self = exit_err E ''HybridLock.HybridLock.__del__'' None
    (bnd (self_rd self cleaned_up) (\<lambda>c.
     if c \<noteq> 0 then ret (Some PyNone)
     else
       sq (self_wr self (\<lambda>h. h\<lparr>cleaned_up := 1\<rparr>))
       (bnd (self_rd self sem_loc) (\<lambda>p.
        sq (c_free p)
        (bnd (self_rd self shm_fd) (\<lambda>fd.
         bnd (sysc (x_close E fd)) (\<lambda>r.
         sq (whn (r = - 1) (raise_Exception E 243 ''close''))
         (bnd (self_rd self semaphore) (\<lambda>sm. bnd (nonnull sm) (\<lambda>h.
          bnd (sysc (x_sem_close E h)) (\<lambda>r.
          sq (whn (r = - 1) (raise_Exception E 246 ''sem_close''))
          (ret (Some (PyInt 0))))))))))))))"

definition del_pw :: "'w env \<Rightarrow> nat \<Rightarrow> ('w, pyobj option) cprog" where
  "del_pw E self = del_pf E self"

section \<open>destroy\<close>

definition destroy_check :: "'w env \<Rightarrow> nat \<Rightarrow> ('w, unit) cprog" where
  "destroy_check E self = bnd (self_rd self cleaned_up) (\<lambda>c.
    whn (c \<noteq> 0) (raise_global E 252 ''SemaphoreDestroyedException''
      [PyStr ''HybridLock has already been destroyed'']))"

text \<open>
  One \<open>unlink\<close> step: a failure counts unless the byte already says destroyed
  (the \<open>and\<close> of the source, evaluated left to right) or the name is gone.
\<close>

definition destroy_unlink :: "'w env \<Rightarrow> nat \<Rightarrow> (string \<Rightarrow> 'w \<Rightarrow> (c_int \<times> 'w) sysres) \<Rightarrow> int \<Rightarrow> string \<Rightarrow>
    ('w, unit) cprog" where
  "destroy_unlink E self unlink l what =
    bnd (self_rd self sem_loc) (\<lambda>p. bnd (c_string p) (\<lambda>loc.
    bnd (sysc (unlink loc)) (\<lambda>r.
    bnd (if r = - 1 then bnd (is_destroyed E self) (\<lambda>b. ret (\<not> b)) else ret False) (\<lambda>bad.
    whn bad (bnd (rd (\<lambda>s. x_errno E (wld s))) (\<lambda>errno.
      whn (errno \<noteq> ENOENT) (raise_Exception E l what)))))))"

definition destroy_shm_unlink :: "'w env \<Rightarrow> nat \<Rightarrow> ('w, unit) cprog" where
  "destroy_shm_unlink E self = destroy_unlink E self (x_shm_unlink E) 266 ''shm_unlink''"

definition destroy_sem_unlink :: "'w env \<Rightarrow> nat \<Rightarrow> ('w, unit) cprog" where
  "destroy_sem_unlink E self = destroy_unlink E self (x_sem_unlink E) 275 ''sem_unlink''"

definition destroy_free :: "nat \<Rightarrow> ('w, unit) cprog" where
  "destroy_free self = bnd (self_rd self sem_loc) (\<lambda>p. c_free p)"

definition destroy_mark :: "'w env \<Rightarrow> nat \<Rightarrow> ('w, unit) cprog" where
  "destroy_mark E self = bnd (self_rd self spin_lock_char) (\<lambda>p. bnd (rd v_DESTROYED) (\<lambda>v. st8 E p v))"

definition destroy_close :: "'w env \<Rightarrow> nat \<Rightarrow> ('w, unit) cprog" where
  "destroy_close E self =
    bnd (self_rd self shm_fd) (\<lambda>fd.
    bnd (sysc (x_close E fd)) (\<lambda>r.
    sq (whn (r = - 1) (raise_Exception E 286 ''close''))
    (bnd (self_rd self semaphore) (\<lambda>sm. bnd (nonnull sm) (\<lambda>h.
     bnd (sysc (x_sem_close E h)) (\<lambda>r.
     whn (r = - 1) (raise_Exception E 290 ''sem_close'')))))))"

definition destroy_f :: "'w env \<Rightarrow> nat \<Rightarrow> ('w, c_int) cprog" where
  "destroy_f E self = exit_err E ''HybridLock.HybridLock.destroy'' (- 1)
    (sq (destroy_check E self)
    (sq (self_wr self (\<lambda>h. h\<lparr>cleaned_up := 1\<rparr>))
    (sq (destroy_shm_unlink E self)
    (sq (destroy_sem_unlink E self)
    (sq (destroy_free self)
    (sq (destroy_mark E self)
    (sq (destroy_close E self)
    (ret 0))))))))"

section \<open>The error protocol\<close>

lemma J_raise_Exception: "keep.J pyok Q pyex (raise_Exception E l m)"
  unfolding raise_Exception_def by (rule J_raise_const)

lemma own_whn_raise: "own.J n pyok (\<lambda>_. pyok) pyex (whn b (raise_Exception E l m))"
  by (rule own.J_whn) (rule keep_own [OF J_raise_Exception])

lemma own_free: "own.J n pyok (\<lambda>_. pyok) R (c_free p)"
  by (rule own.JI) (auto simp: wp_def c_free_def only_def stable_objs split: option.splits)

lemma J_del_pf: "own.J self pyok optq R (del_pf E self)"
  unfolding del_pf_def
  by (rule own.J_exit_err, (rule own.J_bnd [OF own.J_self_rd] own.J_if own.J_ret_optq own.J_sq [OF own_wr]
      own.J_sq [OF own_free] own.J_bnd [OF own.J_sysc] own.stable_wld own.J_sq [OF own_whn_raise]
      own.J_bnd [OF own.J_nonnull])+) (simp add: ok_retype)

lemma J_destroy_unlink: "keep.J pyok (\<lambda>_. pyok) pyex (destroy_unlink E self u l what)"
proof -
  have d: "keep.J pyok (\<lambda>_. pyok) pyex
      (if r = - 1 then bnd (is_destroyed E self) (\<lambda>b. ret (\<not> b)) else ret False)" for r :: c_int
    by (rule keep.J_if keep.J_bnd [OF J_is_destroyed] keep.stable_wld keep.J_ret_any)+
  show ?thesis unfolding destroy_unlink_def
    by (rule keep.J_bnd [OF keep.J_self_rd] keep.J_bnd [OF keep.J_c_string] keep.J_bnd [OF keep.J_sysc]
        keep.stable_wld keep.J_bnd [OF d] keep.J_whn keep.J_bnd [OF keep.J_rd] J_raise_Exception)+
qed

lemma J_destroy_f: "own.J self pyok (valq (- 1)) R (destroy_f E self)"
proof -
  have c: "own.J self pyok (\<lambda>_. pyok) pyex (destroy_check E self)" unfolding destroy_check_def
    by (rule keep_own) (rule keep.J_bnd [OF keep.J_self_rd] keep.J_whn J_raise_global)+
  have u: "own.J self pyok (\<lambda>_. pyok) pyex (destroy_shm_unlink E self)"
    "own.J self pyok (\<lambda>_. pyok) pyex (destroy_sem_unlink E self)"
    unfolding destroy_shm_unlink_def destroy_sem_unlink_def by (rule keep_own [OF J_destroy_unlink])+
  have f: "own.J self pyok (\<lambda>_. pyok) pyex (destroy_free self)" unfolding destroy_free_def
    by (rule own.J_bnd [OF own.J_self_rd] own_free)+
  have m: "own.J self pyok (\<lambda>_. pyok) pyex (destroy_mark E self)" unfolding destroy_mark_def
    by (rule keep_own) (rule keep.J_bnd [OF keep.J_self_rd] keep.J_bnd [OF keep.J_rd] J_st8)+
  have x: "own.J self pyok (\<lambda>_. pyok) pyex (destroy_close E self)" unfolding destroy_close_def
    by (rule own.J_bnd [OF own.J_self_rd] own.J_bnd [OF own.J_sysc] own.stable_wld own.J_sq [OF own_whn_raise]
        own.J_bnd [OF own.J_nonnull] own_whn_raise)+
  have r: "own.J self pyok (valq (- 1)) pyex (ret (0 :: c_int))"
    by (rule own.J_ret_valq) simp
  show ?thesis unfolding destroy_f_def
    by (rule own.J_exit_err, (rule own.J_sq [OF c] own.J_sq [OF own_wr] own.J_sq [OF u(1)] own.J_sq [OF u(2)]
        own.J_sq [OF f] own.J_sq [OF m] own.J_sq [OF x] r)+) (simp add: ok_retype)
qed

end
