(* ===== verification/HL_Cinit.thy ===== *)
theory HL_Cinit
  imports HL_Destroy
begin

text \<open>
  The constructor: \<open>__cinit__\<close> with its four modes, the allocation in
  \<open>tp_new\<close>, and \<open>tp_dealloc\<close>.  The mode CREATE_NEW_OVERWRITE constructs
  another \<open>HybridLock\<close> on the way; that recursion is bounded by the recursion
  limit of the interpreter, which is the \<open>depth\<close> argument of \<open>hl_call\<close>.
\<close>

section \<open>The parts of __cinit__\<close>

text \<open>Lines 69 to 79 of the source: the private copy of the name.\<close>

definition cinit_alloc :: "'w env \<Rightarrow> nat \<Rightarrow> string \<Rightarrow> ('w, unit) cprog" where
  "cinit_alloc E self loc =
    sq (self_wr self (\<lambda>h. h\<lparr>cleaned_up := 1\<rparr>))
    (bnd (c_malloc E (length (c_str loc) + 1)) (\<lambda>p.
     sq (self_wr self (\<lambda>h. h\<lparr>sem_loc := p\<rparr>))
     (sq (whn (p = None) (raise_Exception E 76 ''Error allocating memory''))
     (bnd (self_rd self sem_loc) (\<lambda>p.
      bnd (c_strcpy p (c_str loc)) (\<lambda>q.
      whn (q = None) (raise_Exception E 79 ''Error copying memory'')))))))"

text \<open>\<open>mode == NAME\<close>, with NAME looked up in the module at run time.\<close>

definition cinit_mode_is :: "'w env \<Rightarrow> int \<Rightarrow> c_int \<Rightarrow> string \<Rightarrow> ('w, bool) cprog" where
  "cinit_mode_is E l mode name =
    bnd (chk l (pyx_From_int E mode)) (\<lambda>m.
    bnd (chk l (pyx_GetModuleGlobalName E name)) (\<lambda>c.
    bnd (chk l (api_richcompare_eq E m c)) (\<lambda>b.
    chk l (pyx_IsTrue E b))))"

text \<open>\<open>self.init_mmap(sem_loc, permissions)\<close> and, with \<open>iv\<close>,
  \<open>self.init_mmap(sem_loc, permissions, initial_value)\<close>.\<close>

definition cinit_call_init_mmap :: "'w env \<Rightarrow> nat \<Rightarrow> int \<Rightarrow> string \<Rightarrow> c_int \<Rightarrow> c_int option \<Rightarrow>
    ('w, unit) cprog" where
  "cinit_call_init_mmap E self l loc permissions iv =
    bnd (chk l (capi E ''PyObject_GetAttr'' ())) (\<lambda>_.
    bnd (chk l (capi E ''PyBytes_FromString'' (PyBytes (c_str loc)))) (\<lambda>a.
    bnd (chk l (pyx_From_int E permissions)) (\<lambda>p.
    bnd (case iv of
          None \<Rightarrow> ret [a, p]
        | Some v \<Rightarrow> bnd (chk l (pyx_From_int E v)) (\<lambda>x. ret [a, p, x])) (\<lambda>args.
    bnd (chk l (capi E ''PyTuple_New'' ())) (\<lambda>_.
    bnd (chk l (pyx_call_checked E (init_mmap_pw E self args None))) (\<lambda>_. ret ()))))))"

text \<open>\<open>self.init_mmap(sem_loc, permissions, set_value=initial_value)\<close>, spread over
  the lines \<open>l\<close>, \<open>l + 1\<close> and \<open>l + 2\<close>.\<close>

definition cinit_call_init_mmap_kw :: "'w env \<Rightarrow> nat \<Rightarrow> int \<Rightarrow> string \<Rightarrow> c_int \<Rightarrow> c_int \<Rightarrow>
    ('w, unit) cprog" where
  "cinit_call_init_mmap_kw E self l loc permissions iv =
    bnd (chk l (capi E ''PyObject_GetAttr'' ())) (\<lambda>_.
    bnd (chk (l + 1) (capi E ''PyBytes_FromString'' (PyBytes (c_str loc)))) (\<lambda>a.
    bnd (chk (l + 1) (pyx_From_int E permissions)) (\<lambda>p.
    bnd (chk l (capi E ''PyTuple_New'' ())) (\<lambda>_.
    bnd (chk (l + 2) (capi E ''PyDict_New'' ())) (\<lambda>_.
    bnd (chk (l + 2) (pyx_From_int E iv)) (\<lambda>x.
    bnd (chk (l + 2) (capi E ''PyDict_SetItem'' ())) (\<lambda>_.
    bnd (chk l (pyx_call_checked E (init_mmap_pw E self [a, p] (Some [(PyStr ''set_value'', x)])))) (\<lambda>_.
    ret ()))))))))"

text \<open>\<open>self._semaphore = sem_open(sem_loc, flags, perm, initial_value)\<close>.\<close>

definition cinit_sem_open :: "'w env \<Rightarrow> nat \<Rightarrow> string \<Rightarrow> c_int \<Rightarrow> c_int \<Rightarrow> c_int \<Rightarrow> ('w, unit) cprog" where
  "cinit_sem_open E self loc flags perm iv =
    bnd (sysc (x_sem_open E (c_str loc) flags perm iv)) (\<lambda>sm.
    self_wr self (\<lambda>h. h\<lparr>semaphore := sm\<rparr>))"

text \<open>\<open>if self._semaphore == NULL: raise name(sem_loc)\<close>.\<close>

definition cinit_null_raises :: "'w env \<Rightarrow> nat \<Rightarrow> int \<Rightarrow> string \<Rightarrow> string \<Rightarrow> ('w, unit) cprog" where
  "cinit_null_raises E self l name loc =
    bnd (self_rd self semaphore) (\<lambda>sm.
    whn (sm = None)
      (bnd (chk l (pyx_GetModuleGlobalName E name)) (\<lambda>f.
       bnd (chk l (capi E ''PyBytes_FromString'' (PyBytes (c_str loc)))) (\<lambda>a.
       bnd (chk l (pyx_PyObject_CallOneArg E f a)) (\<lambda>e.
       sq (pyx_Raise E e None) (pyx_err 0 l))))))"

section \<open>The modes\<close>

definition cinit_connect_or_create :: "'w env \<Rightarrow> nat \<Rightarrow> string \<Rightarrow> c_int \<Rightarrow> c_int \<Rightarrow> ('w, unit) cprog" where
  "cinit_connect_or_create E self loc iv perm =
    sq (cinit_sem_open E self loc O_RDWR perm iv)
    (bnd (self_rd self semaphore) (\<lambda>sm.
     if sm = None then
       sq (cinit_sem_open E self loc (O_CREAT OR O_EXCL) 0x1B6 iv)
       (cinit_call_init_mmap E self 100 loc perm (Some iv))
     else cinit_call_init_mmap E self 103 loc perm None))"

definition cinit_connect_existing :: "'w env \<Rightarrow> nat \<Rightarrow> string \<Rightarrow> c_int \<Rightarrow> c_int \<Rightarrow> ('w, unit) cprog" where
  "cinit_connect_existing E self loc iv perm =
    sq (cinit_sem_open E self loc O_RDWR perm iv)
    (sq (cinit_null_raises E self 113 ''NoSuchSemaphoreException'' loc)
    (cinit_call_init_mmap E self 116 loc perm None))"

definition cinit_create_exclusive :: "'w env \<Rightarrow> nat \<Rightarrow> string \<Rightarrow> c_int \<Rightarrow> c_int \<Rightarrow> ('w, unit) cprog" where
  "cinit_create_exclusive E self loc iv perm =
    sq (cinit_sem_open E self loc (O_CREAT OR O_EXCL) perm iv)
    (sq (cinit_null_raises E self 125 ''SemaphoreExistsException'' loc)
    (cinit_call_init_mmap_kw E self 127 loc perm iv))"

text \<open>\<open>tp_dealloc\<close>, when the last reference goes: the object's memory only.\<close>

definition hl_tp_dealloc :: "nat \<Rightarrow> ('w, unit) cprog" where
  "hl_tp_dealloc n = upd (\<lambda>s. s\<lparr>objs := (objs s)(n := None)\<rparr>)"

text \<open>
  The \<open>try\<close> body of CREATE_NEW_OVERWRITE: connect to the existing lock and
  destroy it.  \<open>newlock\<close> is the call of the class \<open>HybridLock\<close>; the object is
  released when the local variable is deleted, or on the way out.
\<close>

definition overwrite_try :: "'w env \<Rightarrow> (pyobj list \<Rightarrow> ('w, pyobj option) cprog) \<Rightarrow> string \<Rightarrow> c_int \<Rightarrow> c_int \<Rightarrow>
    ('w, unit) cprog" where
  "overwrite_try E newlock loc iv perm =
    bnd (chk 142 (capi E ''PyBytes_FromString'' (PyBytes (c_str loc)))) (\<lambda>a.
    bnd (chk 142 (pyx_GetModuleGlobalName E ''CONNECT_TO_EXISTING'')) (\<lambda>m.
    bnd (chk 143 (pyx_From_int E iv)) (\<lambda>i.
    bnd (chk 143 (pyx_From_int E perm)) (\<lambda>p.
    bnd (chk 141 (capi E ''PyTuple_New'' ())) (\<lambda>_.
    bnd (chk 141 (newlock [a, m, i, p])) (\<lambda>o1. case o1 of
        PyLock n \<Rightarrow>
          bnd (destroy_f E n) (\<lambda>r.
          sq (hl_tp_dealloc n) (whn (r = - 1) (pyx_err 0 145)))
      | _ \<Rightarrow> stuck Undefined))))))"

text \<open>One \<open>except name: pass\<close> clause: whether it handles the exception.  The
  indicator is fetched while the name is looked up; a failing look-up replaces
  the exception.\<close>

definition except_clause :: "'w env \<Rightarrow> int \<Rightarrow> string \<Rightarrow> ('w, bool) cprog" where
  "except_clause E l name =
    bnd err_fetch (\<lambda>e.
    bnd (chk l (pyx_GetModuleGlobalName E name)) (\<lambda>c.
    bnd (ret (case e of Some x \<Rightarrow> pyx_GivenExceptionMatches (e_type x) c | None \<Rightarrow> False)) (\<lambda>b.
    sq (err_restore e)
    (sq (whn b (err_restore None)) (ret b)))))"

definition overwrite_existing :: "'w env \<Rightarrow> (pyobj list \<Rightarrow> ('w, pyobj option) cprog) \<Rightarrow> string \<Rightarrow> c_int \<Rightarrow>
    c_int \<Rightarrow> ('w, unit) cprog" where
  "overwrite_existing E newlock loc iv perm =
    at_label (overwrite_try E newlock loc iv perm) (\<lambda>f l.
      bnd (except_clause E 147 ''NoSuchSemaphoreException'') (\<lambda>b1.
      if b1 then ret ()
      else bnd (except_clause E 149 ''SemaphoreDestroyedException'') (\<lambda>b2.
        if b2 then ret () else pyx_err f l)))"

definition cinit_create_overwrite :: "'w env \<Rightarrow> (pyobj list \<Rightarrow> ('w, pyobj option) cprog) \<Rightarrow> nat \<Rightarrow> string \<Rightarrow>
    c_int \<Rightarrow> c_int \<Rightarrow> ('w, unit) cprog" where
  "cinit_create_overwrite E newlock self loc iv perm =
    sq (overwrite_existing E newlock loc iv perm)
    (sq (cinit_sem_open E self loc (O_CREAT OR O_EXCL) perm iv)
    (sq (cinit_null_raises E self 159 ''SemaphoreExistsException'' loc)
    (cinit_call_init_mmap_kw E self 161 loc perm iv)))"

definition cinit_unknown_mode :: "'w env \<Rightarrow> c_int \<Rightarrow> ('w, unit) cprog" where
  "cinit_unknown_mode E mode =
    bnd (chk 166 (pyx_From_int E mode)) (\<lambda>_.
    bnd (chk 166 (capi E ''PyUnicode_Format'' (PyStr (''Unknown mode: '' @ show_int (sint mode))))) (\<lambda>m.
    bnd (chk 166 (pyx_PyObject_CallOneArg E (PyCls ExceptionT) m)) (\<lambda>e.
    sq (pyx_Raise E e None) (pyx_err 0 166))))"

text \<open>The chain of mode tests, in the order of the source.\<close>

definition cinit_dispatch :: "'w env \<Rightarrow> (pyobj list \<Rightarrow> ('w, pyobj option) cprog) \<Rightarrow> nat \<Rightarrow> string \<Rightarrow> c_int \<Rightarrow>
    c_int \<Rightarrow> c_int \<Rightarrow> ('w, unit) cprog" where
  "cinit_dispatch E newlock self loc mode iv perm =
    bnd (cinit_mode_is E 81 mode ''CONNECT_OR_CREATE'') (\<lambda>b.
    if b then cinit_connect_or_create E self loc iv perm else
    bnd (cinit_mode_is E 105 mode ''CONNECT_TO_EXISTING'') (\<lambda>b.
    if b then cinit_connect_existing E self loc iv perm else
    bnd (cinit_mode_is E 118 mode ''CREATE_NEW_EXCLUSIVE'') (\<lambda>b.
    if b then cinit_create_exclusive E self loc iv perm else
    bnd (cinit_mode_is E 132 mode ''CREATE_NEW_OVERWRITE'') (\<lambda>b.
    if b then cinit_create_overwrite E newlock self loc iv perm
    else cinit_unknown_mode E mode))))"

definition cinit_pf :: "'w env \<Rightarrow> (pyobj list \<Rightarrow> ('w, pyobj option) cprog) \<Rightarrow> nat \<Rightarrow> string \<Rightarrow> c_int \<Rightarrow>
    c_int \<Rightarrow> c_int \<Rightarrow> ('w, c_int) cprog" where
  "cinit_pf E newlock self loc mode iv perm = exit_err E ''HybridLock.HybridLock.__cinit__'' (- 1)
    (sq (cinit_alloc E self loc)
    (sq (cinit_dispatch E newlock self loc mode iv perm)
    (sq (self_wr self (\<lambda>h. h\<lparr>cleaned_up := 0\<rparr>))
    (ret 0))))"

section \<open>The wrapper and the class call\<close>

definition cinit_args :: "'w env \<Rightarrow> pyobj list \<Rightarrow> (pyobj \<times> pyobj) list option \<Rightarrow>
    ('w, string \<times> c_int \<times> c_int \<times> c_int) cprog" where
  "cinit_args E args kwds =
    bnd (unpack_args ''__cinit__'' [''sem_loc'', ''mode'', ''initial_value'', ''permissions''] 2 64 args kwds) (\<lambda>vs.
    bnd (arg_str 65 (vs ! 0)) (\<lambda>loc.
    bnd (arg_int E 65 (vs ! 1) 0) (\<lambda>mode.
    bnd (rd v_k) (\<lambda>k.
    bnd (arg_int E 66 (vs ! 2) k) (\<lambda>iv.
    bnd (arg_int E 67 (vs ! 3) 0x1B6) (\<lambda>perm.
    ret (loc, mode, iv, perm)))))))"

definition cinit_pw :: "'w env \<Rightarrow> (pyobj list \<Rightarrow> ('w, pyobj option) cprog) \<Rightarrow> nat \<Rightarrow> pyobj list \<Rightarrow>
    (pyobj \<times> pyobj) list option \<Rightarrow> ('w, c_int) cprog" where
  "cinit_pw E newlock self args kwds =
    arg_wrapper E ''HybridLock.HybridLock.__cinit__'' (- 1) (cinit_args E args kwds)
      (\<lambda>(loc, mode, iv, perm). cinit_pf E newlock self loc mode iv perm)"

text \<open>\<open>t->tp_alloc(t, 0)\<close>: a zeroed object.\<close>

definition hl_alloc :: "('w, nat) cprog" where
  "hl_alloc s = Ret (nobj s) (s\<lparr>objs := (objs s)(nobj s := Some hlock_zero), nobj := Suc (nobj s)\<rparr>)"

definition hl_tp_new :: "'w env \<Rightarrow> (pyobj list \<Rightarrow> ('w, pyobj option) cprog) \<Rightarrow> pyobj list \<Rightarrow>
    (pyobj \<times> pyobj) list option \<Rightarrow> ('w, pyobj option) cprog" where
  "hl_tp_new E newlock a k =
    bnd (capi E ''tp_alloc'' ()) (\<lambda>t. case t of
        None \<Rightarrow> ret None
      | Some _ \<Rightarrow> bnd hl_alloc (\<lambda>n.
          bnd (cinit_pw E newlock n a k) (\<lambda>r.
          if sint r < 0 then sq (hl_tp_dealloc n) (ret None)
          else ret (Some (PyLock n)))))"

primrec hl_call :: "'w env \<Rightarrow> nat \<Rightarrow> pyobj list \<Rightarrow> (pyobj \<times> pyobj) list option \<Rightarrow> ('w, pyobj option) cprog" where
  "hl_call E 0 a k =
    sq (set_err RecursionErrorT (PyStr ''maximum recursion depth exceeded while calling a Python object'')) (ret None)"
| "hl_call E (Suc depth) a k =
    pyx_call_checked E (hl_tp_new E (\<lambda>args. hl_call E depth args None) a k)"

section \<open>The error protocol\<close>

text \<open>The constructor changes objects and blocks of its own, so its frame is
  the weakest one; \<open>hl\<close> collects the rules its proof is made of.\<close>

lemma any_chk_keep: "keep.J pyok optq pyex m \<Longrightarrow> anyf.J pyok (\<lambda>_. pyok) pyex (chk l m)"
  by (rule keep_any) (rule keep.J_chk)

lemma any_From_int: "anyf.J pyok (\<lambda>_. pyok) pyex (chk l (pyx_From_int E v))"
  by (rule any_chk_keep) (rule J_From_int)

lemma any_capi: "anyf.J pyok (\<lambda>_. pyok) pyex (chk l (capi E f v))"
  by (rule any_chk_keep) (rule keep.J_capi)

lemma any_name: "anyf.J pyok (\<lambda>_. pyok) pyex (chk l (pyx_GetModuleGlobalName E n))"
  by (rule any_chk_keep) (rule keep.J_GetModuleGlobalName)

lemma any_wr: "anyf.J pyok (\<lambda>_. pyok) R (self_wr n g)"
  by (rule own_any) (rule own_wr)

lemma any_whn_raise: "anyf.J pyok (\<lambda>_. pyok) pyex (whn b (raise_Exception E l m))"
  by (rule own_any) (rule own_whn_raise)

lemma any_raise_end: "anyf.J pyok Q pyex (sq (pyx_Raise E e None) (pyx_err 0 l))"
  by (rule keep_any) (rule keep.J_sq [OF keep.J_Raise] keep.J_pyx_err)+

lemma any_call_one: "anyf.J pyok (\<lambda>_. pyok) pyex (chk l (pyx_PyObject_CallOneArg E f x))"
  by (rule any_chk_keep) (rule keep.J_CallOneArg)

lemma any_malloc: "anyf.J pyok (\<lambda>_. pyok) R (c_malloc E n)"
proof -
  have "anyf.J pyok (\<lambda>_. pyok) R (\<lambda>s. if ok
    then Ret (Some (nmem s)) (s\<lparr>cmem := (cmem s)(nmem s := Some (n, [])), nmem := Suc (nmem s)\<rparr>)
    else Ret None s)" for ok
    by (rule anyf.JI) (simp add: wp_def state_defs)
  then show ?thesis unfolding c_malloc_def by (intro anyf.J_bnd [OF anyf.J_sysc] anyf.stable_wld)
qed

lemma any_strcpy: "anyf.J pyok (\<lambda>_. pyok) R (c_strcpy p v)"
  unfolding c_strcpy_def
  by (rule anyf.J_bnd [OF anyf.J_nonnull], rule anyf.JI) (simp add: wp_def state_defs split: option.splits prod.splits)

lemma any_alloc: "anyf.J pyok (\<lambda>_. pyok) pyex (cinit_alloc E self loc)"
  unfolding cinit_alloc_def
  by (rule anyf.J_sq [OF any_wr] anyf.J_bnd [OF any_malloc] anyf.J_sq [OF any_whn_raise]
      anyf.J_bnd [OF anyf.J_self_rd] anyf.J_bnd [OF any_strcpy] any_whn_raise)+

lemma any_mode_is: "anyf.J pyok (\<lambda>_. pyok) pyex (cinit_mode_is E l mode name)"
  unfolding cinit_mode_is_def
  by (rule anyf.J_bnd [OF any_From_int] anyf.J_bnd [OF any_name]
      anyf.J_bnd [OF any_chk_keep [OF keep.J_richcompare_eq]] any_chk_keep [OF keep.J_IsTrue])+

lemma any_init_mmap: "anyf.J pyok (\<lambda>_. pyok) pyex (chk l (pyx_call_checked E (init_mmap_pw E self args kwds)))"
  by (rule anyf.J_chk, rule anyf.J_call_checked, rule anyf.optq_callq, rule own_any, rule J_init_mmap_pw)

lemma any_call_init_mmap: "anyf.J pyok (\<lambda>_. pyok) pyex (cinit_call_init_mmap E self l loc p iv)"
proof -
  have ar: "anyf.J pyok (\<lambda>_. pyok) pyex (case iv of None \<Rightarrow> ret [a, p]
        | Some v \<Rightarrow> bnd (chk l (pyx_From_int E v)) (\<lambda>x. ret [a, p, x]))" for a p
    by (rule anyf.J_case_option anyf.J_ret_any anyf.J_bnd [OF any_From_int])+
  show ?thesis unfolding cinit_call_init_mmap_def
    by (intro anyf.J_bnd [OF any_capi] anyf.J_bnd [OF any_From_int] anyf.J_bnd [OF ar] anyf.J_bnd [OF any_init_mmap]
        anyf.J_ret_any)
qed

lemma any_call_init_mmap_kw: "anyf.J pyok (\<lambda>_. pyok) pyex (cinit_call_init_mmap_kw E self l loc p iv)"
  unfolding cinit_call_init_mmap_kw_def
  by (rule anyf.J_bnd [OF any_capi] anyf.J_bnd [OF any_From_int] anyf.J_bnd [OF any_init_mmap] anyf.J_ret_any)+

lemma any_sem_open: "anyf.J pyok (\<lambda>_. pyok) R (cinit_sem_open E self loc fl p iv)"
  unfolding cinit_sem_open_def by (rule anyf.J_bnd [OF anyf.J_sysc] anyf.stable_wld any_wr)+

lemma any_null_raises: "anyf.J pyok (\<lambda>_. pyok) pyex (cinit_null_raises E self l name loc)"
  unfolding cinit_null_raises_def
  by (rule anyf.J_bnd [OF anyf.J_self_rd] anyf.J_whn anyf.J_bnd [OF any_name] anyf.J_bnd [OF any_capi]
      anyf.J_bnd [OF any_call_one] any_raise_end)+

lemma any_connect_or_create: "anyf.J pyok (\<lambda>_. pyok) pyex (cinit_connect_or_create E self loc iv p)"
  unfolding cinit_connect_or_create_def
  by (rule anyf.J_sq [OF any_sem_open] anyf.J_bnd [OF anyf.J_self_rd] anyf.J_if any_call_init_mmap)+

lemma any_connect_existing: "anyf.J pyok (\<lambda>_. pyok) pyex (cinit_connect_existing E self loc iv p)"
  unfolding cinit_connect_existing_def
  by (rule anyf.J_sq [OF any_sem_open] anyf.J_sq [OF any_null_raises] any_call_init_mmap)+

lemma any_create_exclusive: "anyf.J pyok (\<lambda>_. pyok) pyex (cinit_create_exclusive E self loc iv p)"
  unfolding cinit_create_exclusive_def
  by (rule anyf.J_sq [OF any_sem_open] anyf.J_sq [OF any_null_raises] any_call_init_mmap_kw)+

lemma any_dealloc: "(\<And>s x. P (s\<lparr>objs := x\<rparr>) = P s) \<Longrightarrow> anyf.J P (\<lambda>_. P) R (hl_tp_dealloc n)"
  unfolding hl_tp_dealloc_def by (rule anyf.J_upd) simp

lemma any_overwrite_try:
  assumes "\<And>args. anyf.J pyok optq pyex (newlock args)"
  shows "anyf.J pyok (\<lambda>_. pyok) pyex (overwrite_try E newlock loc iv p)"
proof -
  have d: "anyf.J (valq (- 1) r) (\<lambda>_. pyok) pyex (sq (hl_tp_dealloc n) (whn (r = - 1) (pyx_err 0 145)))" for r :: c_int and n
    by (cases "r = - 1") (auto simp: valq_def whn_def intro!: anyf.J_sq [OF any_dealloc] stable_objs
        anyf.J_pyx_err anyf.J_ret_any)
  have "anyf.J pyok (\<lambda>_. pyok) pyex (case o1 of
        PyLock n \<Rightarrow> bnd (destroy_f E n) (\<lambda>r. sq (hl_tp_dealloc n) (whn (r = - 1) (pyx_err 0 145)))
      | _ \<Rightarrow> stuck Undefined)" for o1
    by (auto intro!: anyf.J_stuck anyf.J_bnd [OF own_any [OF J_destroy_f]] d split: pyobj.splits)
  then show ?thesis unfolding overwrite_try_def
    by (intro anyf.J_bnd [OF any_capi] anyf.J_bnd [OF any_name] anyf.J_bnd [OF any_From_int]
        anyf.J_bnd [OF anyf.J_chk [OF assms]])
qed

text \<open>A clause that does not match leaves the exception as it was.\<close>

lemma any_except_clause: "anyf.J pyex (\<lambda>b. if b then pyok else pyex) pyex (except_clause E l name)"
proof -
  have f: "anyf.J pyex (\<lambda>e s. pyok s \<and> e \<noteq> None) R err_fetch" for R
    by (rule anyf.JI) (simp add: err_fetch_def wp_def sq_def bnd_def rd_def upd_def ret_def need_gil_def state_defs)
  have "anyf.J (\<lambda>s. pyok s \<and> e \<noteq> None) (\<lambda>b. if b then pyok else pyex) pyex
   (bnd (chk l (pyx_GetModuleGlobalName E name)) (\<lambda>c.
    bnd (ret (g c)) (\<lambda>b. sq (err_restore e) (sq (whn b (err_restore None)) (ret b)))))" for e g
  proof (cases "e = None")
    case False
    have r: "anyf.J pyok (\<lambda>_. pyex) pyex (err_restore e)" using False
      by (intro anyf.JI) (simp add: err_restore_def wp_def sq_def bnd_def upd_def need_gil_def state_defs)
    have c: "anyf.J pyex (\<lambda>b. if b then pyok else pyex) pyex (sq (whn b (err_restore None)) (ret b))" for b
      by (cases b) (auto intro!: anyf.JI simp: whn_def err_restore_def wp_def sq_def bnd_def upd_def need_gil_def
          ret_def state_defs)
    have "anyf.J pyok (\<lambda>b. if b then pyok else pyex) pyex
     (bnd (chk l (pyx_GetModuleGlobalName E name)) (\<lambda>c.
      bnd (ret (g c)) (\<lambda>b. sq (err_restore e) (sq (whn b (err_restore None)) (ret b)))))"
      by (rule anyf.J_bnd [OF any_name] anyf.J_bnd [OF anyf.J_ret_any] anyf.J_sq [OF r] c)+
    then show ?thesis by (rule anyf.J_weaken) simp_all
  qed (simp add: anyf.J_def)
  then show ?thesis unfolding except_clause_def by (rule anyf.J_bnd [OF f])
qed

lemma any_overwrite_existing:
  assumes "\<And>args. anyf.J pyok optq pyex (newlock args)"
  shows "anyf.J pyok (\<lambda>_. pyok) pyex (overwrite_existing E newlock loc iv p)"
proof -
  have j: "anyf.J (if b then pyok else pyex) Q R (if b then m else n)"
    if "anyf.J pyok Q R m" "anyf.J pyex Q R n" for b Q R and m n :: "('w, 'x) cprog"
    using that by simp
  show ?thesis unfolding overwrite_existing_def
    by (rule anyf.J_at_label [OF any_overwrite_try [OF assms]], rule anyf.J_bnd [OF any_except_clause],
        rule j, rule anyf.J_ret_any, rule anyf.J_bnd [OF any_except_clause], rule j, rule anyf.J_ret_any,
        rule anyf.J_pyx_err)
qed

lemma any_create_overwrite:
  assumes "\<And>args. anyf.J pyok optq pyex (newlock args)"
  shows "anyf.J pyok (\<lambda>_. pyok) pyex (cinit_create_overwrite E newlock self loc iv p)"
  unfolding cinit_create_overwrite_def
  by (rule anyf.J_sq [OF any_overwrite_existing [OF assms]] anyf.J_sq [OF any_sem_open]
      anyf.J_sq [OF any_null_raises] any_call_init_mmap_kw)+

lemma any_unknown: "anyf.J pyok Q pyex (cinit_unknown_mode E mode)"
  unfolding cinit_unknown_mode_def
  by (rule anyf.J_bnd [OF any_From_int] anyf.J_bnd [OF any_capi] anyf.J_bnd [OF any_call_one] any_raise_end)+

text \<open>\<open>0\<close> and \<open>-1\<close> are the only results of the constructor.\<close>

definition initq :: "c_int \<Rightarrow> 'w cst \<Rightarrow> bool" where
  "initq r s = (r = 0 \<and> pyok s \<or> r = - 1 \<and> pyex s)"

lemma J_cinit_pf:
  assumes "\<And>args. anyf.J pyok optq pyex (newlock args)"
  shows "anyf.J pyok initq R (cinit_pf E newlock self loc mode iv p)"
proof -
  have d: "anyf.J pyok (\<lambda>_. pyok) pyex (cinit_dispatch E newlock self loc mode iv p)"
    unfolding cinit_dispatch_def
    by (rule anyf.J_bnd [OF any_mode_is] anyf.J_if any_connect_or_create any_connect_existing any_create_exclusive
        any_create_overwrite [OF assms] any_unknown)+
  have r: "anyf.J pyok initq pyex (ret (0 :: c_int))" by (rule anyf.J_ret_imp) (simp add: initq_def)
  have e: "anyf.J pyex initq R (sq (pyx_AddTraceback E fn l f) (ret (- 1)))" for fn l f
    by (rule anyf.J_sq [OF anyf.J_AddTraceback], rule anyf.J_ret_imp) (simp add: initq_def)
  show ?thesis unfolding cinit_pf_def exit_err_def
    by (rule anyf.J_at_label, (rule anyf.J_sq [OF any_alloc] anyf.J_sq [OF d] anyf.J_sq [OF any_wr] r)+, rule e)
qed

lemma J_cinit_pw:
  assumes "\<And>args. anyf.J pyok optq pyex (newlock args)"
  shows "anyf.J pyok initq R (cinit_pw E newlock self args kwds)"
proof -
  have p: "keep.J pyok (\<lambda>_. pyok) pyex (cinit_args E args kwds)"
    unfolding cinit_args_def
    by (rule keep.J_bnd [OF J_unpack_args] keep.J_bnd [OF J_arg_str] keep.J_bnd [OF J_arg_int]
        keep.J_bnd [OF keep.J_rd] keep.J_ret_any)+
  show ?thesis unfolding cinit_pw_def arg_wrapper_def
    by (rule anyf.J_bnd [OF keep_any [OF J_arg_parse [OF p]]], rule anyf.J_optq)
      (auto intro!: anyf.J_ret_imp J_cinit_pf assms simp: initq_def split: prod.splits)
qed

lemma J_hl_tp_new:
  assumes "\<And>args. anyf.J pyok optq pyex (newlock args)"
  shows "anyf.J pyok optq R (hl_tp_new E newlock a k)"
proof -
  have al: "anyf.J pyok (\<lambda>_. pyok) R hl_alloc"
    by (rule anyf.JI) (simp add: wp_def hl_alloc_def state_defs)
  have res: "anyf.J (initq r) optq R (if sint r < 0 then sq (hl_tp_dealloc n) (ret None) else ret (Some (PyLock n)))" for r n
  proof -
    consider "r = 0" | "r = - 1" | "r \<noteq> 0" "r \<noteq> - 1" by blast
    then show ?thesis
    proof cases
      case 1
      then show ?thesis by (auto intro!: anyf.J_ret_imp simp: initq_def optq_def)
    next
      case 2
      have "anyf.J pyex optq R (sq (hl_tp_dealloc n) (ret None))"
        by (rule anyf.J_sq [OF any_dealloc] stable_objs anyf.J_ret_optq)+
      then have "anyf.J (initq (- 1)) optq R (sq (hl_tp_dealloc n) (ret None))"
        by (rule anyf.J_weaken) (simp_all add: initq_def)
      then show ?thesis using 2 by simp
    next
      case 3
      then show ?thesis by (simp add: anyf.J_def initq_def)
    qed
  qed
  show ?thesis unfolding hl_tp_new_def
    by (rule anyf.J_bnd [OF anyf.J_capi(1)], rule anyf.J_optq, rule anyf.J_ret_optq, rule anyf.J_bnd [OF al],
        rule anyf.J_bnd [OF J_cinit_pw [OF assms]], rule res)
qed

lemma J_hl_call: "anyf.J pyok optq R (hl_call E depth a k)"
proof (induction depth arbitrary: a k R)
  case 0
  show ?case by simp (rule anyf.J_sq [OF anyf.J_set_err(1)], rule anyf.J_ret_optq)
next
  case (Suc depth)
  show ?case
    by simp (rule anyf.J_call_checked, rule anyf.optq_callq, rule J_hl_tp_new, rule Suc)
qed

end
