(* ===== verification/HL_Wrappers.thy ===== *)
theory HL_Wrappers
  imports HL_Cinit
begin

text \<open>
  What Python code calls: the wrapper and implementation of each method of the
  extension type, the pickling stubs, and the method table.
\<close>

section \<open>Methods\<close>

text \<open>
  The common shape of an implementation \<open>__pyx_pf\<close>: call the C function, go to
  the error exit when it returned its error value \<open>errv\<close>, else convert the
  result.
\<close>

definition int_method :: "'w env \<Rightarrow> string \<Rightarrow> int \<Rightarrow> c_int \<Rightarrow> ('w, c_int) cprog \<Rightarrow> ('w, pyobj option) cprog" where
  "int_method E fn l errv f = exit_err E fn None
    (bnd f (\<lambda>t.
     if t = errv then pyx_err 0 l
     else bnd (chk l (pyx_From_int E t)) (\<lambda>r. ret (Some r))))"

definition destroy_pf :: "'w env \<Rightarrow> nat \<Rightarrow> ('w, pyobj option) cprog" where
  "destroy_pf E self = int_method E ''HybridLock.HybridLock.destroy'' 249 (- 1) (destroy_f E self)"

definition destroy_pw :: "'w env \<Rightarrow> nat \<Rightarrow> ('w, pyobj option) cprog" where
  "destroy_pw E self = destroy_pf E self"

definition get_destroyed_pf :: "'w env \<Rightarrow> nat \<Rightarrow> ('w, pyobj option) cprog" where
  "get_destroyed_pf E self = int_method E ''HybridLock.HybridLock.get_destroyed'' 297 (- 1) (get_destroyed_f E self)"

definition get_destroyed_pw :: "'w env \<Rightarrow> nat \<Rightarrow> ('w, pyobj option) cprog" where
  "get_destroyed_pw E self = get_destroyed_pf E self"

definition get_value_pf :: "'w env \<Rightarrow> nat \<Rightarrow> ('w, pyobj option) cprog" where
  "get_value_pf E self = int_method E ''HybridLock.HybridLock.get_value'' 300 (- 10) (get_value_f E self)"

definition get_value_pw :: "'w env \<Rightarrow> nat \<Rightarrow> ('w, pyobj option) cprog" where
  "get_value_pw E self = get_value_pf E self"

definition lock_pf :: "'w env \<Rightarrow> nat \<Rightarrow> c_int \<Rightarrow> c_int \<Rightarrow> ('w, pyobj option) cprog" where
  "lock_pf E self timeout spin = int_method E ''HybridLock.HybridLock.lock'' 320 (- 1)
    (lock_f E self (Some \<lparr>pyx_n = 2, opt_timeout = timeout, opt_spin = spin\<rparr>))"

definition lock_args :: "'w env \<Rightarrow> pyobj list \<Rightarrow> (pyobj \<times> pyobj) list option \<Rightarrow> ('w, c_int \<times> c_int) cprog" where
  "lock_args E args kwds =
    bnd (unpack_args ''lock'' [''timeout'', ''spin''] 0 320 args kwds) (\<lambda>vs.
    bnd (arg_int E 320 (vs ! 0) (- 1)) (\<lambda>timeout.
    bnd (arg_int E 320 (vs ! 1) 1) (\<lambda>spin.
    ret (timeout, spin))))"

definition lock_pw :: "'w env \<Rightarrow> nat \<Rightarrow> pyobj list \<Rightarrow> (pyobj \<times> pyobj) list option \<Rightarrow> ('w, pyobj option) cprog" where
  "lock_pw E self args kwds =
    arg_wrapper E ''HybridLock.HybridLock.lock'' None (lock_args E args kwds)
      (\<lambda>(timeout, spin). lock_pf E self timeout spin)"

definition unlock_pf :: "'w env \<Rightarrow> nat \<Rightarrow> ('w, pyobj option) cprog" where
  "unlock_pf E self = int_method E ''HybridLock.HybridLock.unlock'' 389 (- 1) (unlock_f E self)"

definition unlock_pw :: "'w env \<Rightarrow> nat \<Rightarrow> ('w, pyobj option) cprog" where
  "unlock_pw E self = unlock_pf E self"

definition get_pid_pf :: "'w env \<Rightarrow> nat \<Rightarrow> ('w, pyobj option) cprog" where
  "get_pid_pf E self = int_method E ''HybridLock.HybridLock.get_pid_holding_lock'' 404 (- 1) (get_pid_f E self)"

definition get_pid_pw :: "'w env \<Rightarrow> nat \<Rightarrow> ('w, pyobj option) cprog" where
  "get_pid_pw E self = get_pid_pf E self"

section \<open>Pickling\<close>

definition no_reduce_msg :: string where
  "no_reduce_msg = ''no default __reduce__ due to non-trivial __cinit__''"

definition no_reduce :: "'w env \<Rightarrow> string \<Rightarrow> int \<Rightarrow> ('w, pyobj option) cprog" where
  "no_reduce E fn l = exit_err E fn None
    (bnd (pyx_PyObject_Call E (PyCls TypeErrorT) [PyStr no_reduce_msg]) (\<lambda>t. case t of
        None \<Rightarrow> pyx_err 1 l
      | Some e \<Rightarrow> sq (pyx_Raise E e None) (pyx_err 1 l)))"

definition reduce_pw :: "'w env \<Rightarrow> nat \<Rightarrow> ('w, pyobj option) cprog" where
  "reduce_pw E self = no_reduce E ''HybridLock.HybridLock.__reduce_cython__'' 2"

definition setstate_pw :: "'w env \<Rightarrow> nat \<Rightarrow> pyobj \<Rightarrow> ('w, pyobj option) cprog" where
  "setstate_pw E self st = no_reduce E ''HybridLock.HybridLock.__setstate_cython__'' 4"

section \<open>The method table\<close>

datatype 'w meth = NoArgs "nat \<Rightarrow> ('w, pyobj option) cprog"
  | OneArg "nat \<Rightarrow> pyobj \<Rightarrow> ('w, pyobj option) cprog"
  | VarArgs "nat \<Rightarrow> pyobj list \<Rightarrow> (pyobj \<times> pyobj) list option \<Rightarrow> ('w, pyobj option) cprog"

definition hl_methods :: "'w env \<Rightarrow> (string \<times> 'w meth) list" where
  "hl_methods E =
   [(''__exception_occurred'', OneArg (exception_occurred_pw E)),
    (''init_mmap'', VarArgs (init_mmap_pw E)),
    (''__del__'', NoArgs (del_pw E)),
    (''destroy'', NoArgs (destroy_pw E)),
    (''get_destroyed'', NoArgs (get_destroyed_pw E)),
    (''get_value'', NoArgs (get_value_pw E)),
    (''lock'', VarArgs (lock_pw E)),
    (''unlock'', NoArgs (unlock_pw E)),
    (''get_pid_holding_lock'', NoArgs (get_pid_pw E)),
    (''__reduce_cython__'', NoArgs (reduce_pw E)),
    (''__setstate_cython__'', OneArg (setstate_pw E))]"

text \<open>A wrapper is entered with the object and what its flags promise: nothing else, one
  argument, or the positional and keyword arguments.\<close>

fun hl_invoke :: "'w meth \<Rightarrow> nat \<Rightarrow> pyobj \<Rightarrow> pyobj list \<Rightarrow> (pyobj \<times> pyobj) list option \<Rightarrow> ('w, pyobj option) cprog" where
  "hl_invoke (NoArgs f) self x args kwds = f self"
| "hl_invoke (OneArg f) self x args kwds = f self x"
| "hl_invoke (VarArgs f) self x args kwds = f self args kwds"

text \<open>\<open>__Pyx_PyObject_CallMethO\<close> on a bound method: the C function of the method
  table, called directly.\<close>

definition pyx_CallMethO :: "'w env \<Rightarrow> (nat \<Rightarrow> pyobj option \<Rightarrow> ('w, pyobj option) cprog) \<Rightarrow> nat \<Rightarrow> pyobj option \<Rightarrow>
    ('w, pyobj option) cprog" where
  "pyx_CallMethO E cfunc self arg = pyx_call_checked E (cfunc self arg)"

text \<open>
  The call of a bound method through the run-time: \<open>__Pyx_PyObject_CallNoArg\<close> and
  \<open>__Pyx_PyObject_CallOneArg\<close> go to \<open>__Pyx_PyObject_CallMethO\<close> for METH_NOARGS and
  METH_O, \<open>__Pyx_PyObject_Call\<close> calls a wrapper that takes a tuple and keywords.  Any
  other call, with arguments that the flags do not allow or of a name that is not
  in the table, is made by the interpreter.
\<close>

definition hl_method_call :: "'w env \<Rightarrow> nat \<Rightarrow> string \<Rightarrow> pyobj list \<Rightarrow> (pyobj \<times> pyobj) list option \<Rightarrow>
    ('w, pyobj option) cprog" where
  "hl_method_call E self name args kwds =
    (case (map_of (hl_methods E) name, args, kwds) of
       (Some (NoArgs f), [], None) \<Rightarrow> pyx_CallMethO E (\<lambda>s _. f s) self None
     | (Some (OneArg f), [x], None) \<Rightarrow> pyx_CallMethO E (\<lambda>s _. f s x) self (Some x)
     | (Some (VarArgs f), _, _) \<Rightarrow> pyx_call_checked E (f self args kwds)
     | _ \<Rightarrow> pyx_PyObject_Call E (PyMeth self name) args)"

section \<open>The error protocol\<close>

lemma any_int_method:
  assumes "anyf.J pyok (valq errv) pyex f"
  shows "anyf.J pyok optq R (int_method E fn l errv f)"
proof -
  have "anyf.J (valq errv t) optq pyex
    (if t = errv then pyx_err 0 l else bnd (chk l (pyx_From_int E t)) (\<lambda>r. ret (Some r)))" for t
    by (rule anyf.J_valq anyf.J_pyx_err anyf.J_bnd [OF any_From_int] anyf.J_ret_optq)+
  then have "anyf.J pyok optq pyex (bnd f (\<lambda>t.
     if t = errv then pyx_err 0 l else bnd (chk l (pyx_From_int E t)) (\<lambda>r. ret (Some r))))"
    by (rule anyf.J_bnd [OF assms])
  then show ?thesis unfolding int_method_def by (rule anyf.J_exit_err) (simp add: ok_retype)
qed

lemma J_destroy_pw: "anyf.J pyok optq R (destroy_pw E self)"
  unfolding destroy_pw_def destroy_pf_def by (rule any_int_method [OF own_any [OF J_destroy_f]])

lemma J_lock_pf: "anyf.J pyok optq R (lock_pf E self t s)"
  unfolding lock_pf_def by (rule any_int_method [OF keep_any [OF J_lock_f]])

lemma J_lock_args: "keep.J pyok (\<lambda>_. pyok) pyex (lock_args E args kwds)"
  unfolding lock_args_def
  by (rule keep.J_bnd [OF J_unpack_args] keep.J_bnd [OF J_arg_int] keep.J_ret_any)+

lemma J_lock_pw: "anyf.J pyok optq R (lock_pw E self args kwds)"
  unfolding lock_pw_def arg_wrapper_def
  by (rule anyf.J_bnd [OF keep_any [OF J_arg_parse [OF J_lock_args]]], rule anyf.J_optq)
    (auto intro: anyf.J_ret_optq J_lock_pf split: prod.splits)

lemma J_get_value_pw:
  assumes "getvalue_nonneg E"
  shows "anyf.J pyok optq R (get_value_pw E self)"
proof -
  have "anyf.J pyok (valq (- 10)) pyex (get_value_f E self)"
    by (rule anyf.J_weaken [OF keep_any [OF J_get_value_f [OF assms]]]) auto
  then show ?thesis unfolding get_value_pw_def get_value_pf_def by (rule any_int_method)
qed

lemma J_get_destroyed_pw: "anyf.J pyok optq R (get_destroyed_pw E self)"
proof -
  have "anyf.J pyok (valq (- 1)) pyex (get_destroyed_f E self)"
    unfolding get_destroyed_f_def
    by (rule anyf.J_bnd [OF keep_any [OF J_is_destroyed]], rule keep.stable_wld, rule anyf.J_ret_imp)
      (simp add: valq_def)
  then show ?thesis unfolding get_destroyed_pw_def get_destroyed_pf_def by (rule any_int_method)
qed

lemma any_no_reduce: "anyf.J pyok optq R (no_reduce E fn l)"
proof -
  have "anyf.J (optq t) optq pyex (case t of None \<Rightarrow> pyx_err 1 l | Some e \<Rightarrow> sq (pyx_Raise E e None) (pyx_err 1 l))" for t
    by (rule anyf.J_optq anyf.J_pyx_err anyf.J_sq [OF anyf.J_Raise])+
  then show ?thesis unfolding no_reduce_def
    by (intro anyf.J_exit_err anyf.J_bnd [OF anyf.J_PyObject_Call]) (simp_all add: ok_retype)
qed

text \<open>
  \<open>unlock\<close> and \<open>get_pid_holding_lock\<close> may return their error value without an
  exception, and their wrappers then NULL: \<open>errq e r\<close> only says that the
  interpreter lock is held when the result is the error value \<open>e\<close>.
\<close>

definition errq :: "'a \<Rightarrow> 'a \<Rightarrow> 'w cst \<Rightarrow> bool" where
  "errq e r s = (if r = e then gil s else pyok s)"

lemma errq_same: "errq e e = gil" and errq_other: "r \<noteq> e \<Longrightarrow> errq e r = pyok"
  by (rule ext, simp add: errq_def)+

lemma gil_capi: "anyf.J gil (\<lambda>_. gil) R (capi E g v)"
  by (rule anyf.JI) (auto simp: capi_def wp_simps wp_def need_gil_def sysc_def set_pyerr_def sq_def bnd_def upd_def
      ret_def split: sysres.splits option.splits)

lemma gil_AddTraceback: "anyf.J gil (\<lambda>_. gil) R (pyx_AddTraceback E fn l f2)"
proof -
  have u: "anyf.J gil (\<lambda>_. gil) R (upd (\<lambda>s. s\<lparr>curexc := h (curexc s)\<rparr>))" for h
    by (rule anyf.J_upd) simp
  have t: "anyf.J gil (\<lambda>_. gil) R (traceback_here E c l)" for c unfolding traceback_here_def
    by (rule anyf.J_bnd [OF gil_capi] anyf.J_case_option anyf.J_ret_any u)+
  have u2: "anyf.J gil (\<lambda>_. gil) R (upd (\<lambda>s. s\<lparr>cocache := h (cocache s)\<rparr>))" for h
    by (rule anyf.J_upd) simp
  have al: "anyf.J gil (\<lambda>_. gil) R (cache_alloc E c)" for c
    unfolding cache_alloc_def by (auto intro!: anyf.J_ret_any anyf.J_sysc)
  show ?thesis unfolding pyx_AddTraceback_def pyx_CreateCodeObject_def
    by (intro anyf.J_bnd [OF anyf.J_rd] anyf.J_case_option t anyf.J_bnd [OF gil_capi] anyf.J_ret_any
        anyf.J_bnd [OF al] anyf.J_sq [OF u2])
qed

lemma any_int_method_errq:
  assumes "anyf.J pyok (errq errv) gil f"
  shows "anyf.J pyok anyf.callq R (int_method E fn l errv f)"
proof -
  have i: "anyf.J pyok (\<lambda>_. pyok) gil (chk l (pyx_From_int E t))" for t
    by (rule anyf.J_weaken [OF any_From_int]) (auto simp: state_defs)
  have "anyf.J (errq errv t) anyf.callq gil
    (if t = errv then pyx_err 0 l else bnd (chk l (pyx_From_int E t)) (\<lambda>r. ret (Some r)))" for t
    by (cases "t = errv")
      (simp_all add: errq_same errq_other anyf.J_pyx_err anyf.J_bnd [OF i] anyf.J_ret anyf.callq_def)
  then have b: "anyf.J pyok anyf.callq gil (bnd f (\<lambda>t.
     if t = errv then pyx_err 0 l else bnd (chk l (pyx_From_int E t)) (\<lambda>r. ret (Some r))))"
    by (rule anyf.J_bnd [OF assms])
  show ?thesis unfolding int_method_def exit_err_def
    by (rule anyf.J_at_label [OF b], rule anyf.J_sq [OF gil_AddTraceback], rule anyf.J_ret) (simp add: anyf.callq_def)
qed

lemma J_get_pid_f:
  assumes "getvalue_nonneg E"
  shows "anyf.J pyok (errq (- 1)) gil (get_pid_f E self)"
proof -
  have body: "anyf.J pyok (\<lambda>_. pyok) pyex (bnd (get_value_f E self) (\<lambda>t.
     if t = - 10 then pyx_err 0 405
     else if t = - 1 then ret (- 1)
     else if t = 0 then bnd (self_rd self spin_lock_pid) (\<lambda>p. ld32 E p)
     else ret 0))"
  proof (rule anyf.J_bnd [OF keep_any [OF J_get_value_f [OF assms]]])
    have p: "anyf.J pyok (\<lambda>_. pyok) pyex (bnd (self_rd self spin_lock_pid) (\<lambda>p. ld32 E p))"
      unfolding ld32_def by (rule anyf.J_bnd [OF anyf.J_self_rd] anyf.J_bnd [OF anyf.J_nonnull] anyf.J_sysc anyf.stable_wld)+
    fix r :: c_int
    have "anyf.J (valq (- 10) r) (\<lambda>_. pyok) pyex
      (if r = - 10 then pyx_err 0 405 else if r = - 1 then ret (- 1)
       else if r = 0 then bnd (self_rd self spin_lock_pid) (\<lambda>p. ld32 E p) else ret 0)"
      by (rule anyf.J_valq anyf.J_pyx_err anyf.J_if anyf.J_ret_any p)+
    then show "anyf.J (\<lambda>s. valq (- 10) r s \<and> (r = - 10 \<or> 0 \<le> sint r)) (\<lambda>_. pyok) pyex
      (if r = - 10 then pyx_err 0 405 else if r = - 1 then ret (- 1)
       else if r = 0 then bnd (self_rd self spin_lock_pid) (\<lambda>p. ld32 E p) else ret 0)"
      by (rule anyf.J_weaken) auto
  qed
  have e: "anyf.J pyex (errq (- 1)) gil (sq (pyx_AddTraceback E fn l f2) (ret (- 1)))" for fn l f2
    by (rule anyf.J_sq [OF anyf.J_AddTraceback], rule anyf.J_ret_imp) (simp add: errq_def state_defs)
  show ?thesis unfolding get_pid_f_def exit_err_def
    by (rule anyf.J_at_label [OF anyf.J_weaken [OF body] e]) (auto simp: errq_def state_defs)
qed

text \<open>Every wrapper, entered with any arguments: a value comes without an exception and
  NULL with one, but for the two methods whose C function may return its error
  value without one.\<close>

definition bare_null :: "string list" where
  "bare_null = [''unlock'', ''get_pid_holding_lock'']"

lemma J_hl_invoke:
  assumes "getvalue_nonneg E" and "(name, m) \<in> set (hl_methods E)"
  shows "anyf.J pyok (if name \<in> set bare_null then anyf.callq else optq) R (hl_invoke m self x args kwds)"
proof -
  have "anyf.J pyok (errq (- 1)) gil (unlock_f E self)"
    by (rule anyf.J_weaken [OF keep_any [OF J_unlock_f [OF assms(1)]]]) (auto simp: unlq_def errq_def state_defs)
  then have u: "anyf.J pyok anyf.callq R (unlock_pw E self)"
    unfolding unlock_pw_def unlock_pf_def by (rule any_int_method_errq)
  have p: "anyf.J pyok anyf.callq R (get_pid_pw E self)"
    unfolding get_pid_pw_def get_pid_pf_def by (rule any_int_method_errq [OF J_get_pid_f [OF assms(1)]])
  note w = u p keep_any [OF J_exception_occurred] own_any [OF J_init_mmap_pw] own_any [OF J_del_pf] J_destroy_pw J_lock_pw
    J_get_value_pw [OF assms(1)] J_get_destroyed_pw any_no_reduce
  have "list_all (\<lambda>(nm, mt). anyf.J pyok (if nm \<in> set bare_null then anyf.callq else optq) R (hl_invoke mt self x args kwds))
      (hl_methods E)"
    by (simp add: hl_methods_def bare_null_def del_pw_def reduce_pw_def setstate_pw_def w)
  then show ?thesis using assms(2) by (fastforce simp only: list_all_iff split_paired_all case_prod_conv)
qed

end
