(* ===== verification/Posix.thy ===== *)
theory Posix
  imports HL_Wrappers
begin

text \<open>
  What the lock relies on from the operating system and the interpreter when
  nothing interferes: the locale \<open>quiet_os\<close> states the documented effect of the
  semaphore, memory and clock calls on an abstract view of the system, and
  carries two run relations, \<open>ev\<close> (the statements end normally) and \<open>evg\<close> (they
  jump to the error label), whose rules follow the statements of the code.
\<close>

section \<open>The view of the operating system\<close>

text \<open>
  Open semaphores (\<open>v_hsem\<close>: the object behind a \<open>sem_t*\<close>), their counts,
  mapped lock pages (\<open>v_amap\<close>: the segment behind an address), the byte and
  the pid in each segment, the names of semaphores and of shared memory
  objects, and the open file descriptors.
\<close>

record osview =
  v_hsem :: "nat \<Rightarrow> nat option"
  v_sem :: "nat \<Rightarrow> nat"
  v_amap :: "nat \<Rightarrow> nat option"
  v_byte :: "nat \<Rightarrow> c_char"
  v_pid :: "nat \<Rightarrow> c_int"
  v_semname :: "string \<Rightarrow> nat option"
  v_shmname :: "string \<Rightarrow> nat option"
  v_fd :: "c_int \<Rightarrow> nat option"

definition gives :: "('w \<Rightarrow> bool) \<Rightarrow> ('w \<Rightarrow> osview) \<Rightarrow> ('w \<Rightarrow> ('a \<times> 'w) sysres) \<Rightarrow> 'w \<Rightarrow> 'a \<Rightarrow> osview \<Rightarrow> bool" where
  "gives ok osv f w r V = (case f w of Sys (x, w') \<Rightarrow> x = r \<and> ok w' \<and> osv w' = V | _ \<Rightarrow> False)"

lemma givesE:
  assumes "gives ok osv f w r V"
  obtains w' where "f w = Sys (r, w')" "ok w'" "osv w' = V"
  using assms by (auto simp: gives_def split: sysres.splits)

text \<open>The largest count, \<open>SEM_VALUE_MAX\<close>.\<close>

definition sem_value_max :: nat where
  "sem_value_max = 2147483647"

locale quiet_os =
  fixes E :: "'w env"
    and ok :: "'w \<Rightarrow> bool"
    and osv :: "'w \<Rightarrow> osview"
    and me :: c_int
  assumes os_ld8: "ok w \<Longrightarrow> v_amap (osv w) a = Some g \<Longrightarrow> gives ok osv (x_ld8 E a) w (v_byte (osv w) g) (osv w)"
    and os_st8: "ok w \<Longrightarrow> v_amap (osv w) a = Some g \<Longrightarrow>
      gives ok osv (x_st8 E a x) w () ((osv w)\<lparr>v_byte := (v_byte (osv w))(g := x)\<rparr>)"
    and os_ld32: "ok w \<Longrightarrow> v_amap (osv w) a = Some g \<Longrightarrow> gives ok osv (x_ld32 E (a + 1)) w (v_pid (osv w) g) (osv w)"
    and os_st32: "ok w \<Longrightarrow> v_amap (osv w) a = Some g \<Longrightarrow>
      gives ok osv (x_st32 E (a + 1) y) w () ((osv w)\<lparr>v_pid := (v_pid (osv w))(g := y)\<rparr>)"
    and os_wait: "ok w \<Longrightarrow> v_hsem (osv w) h = Some k \<Longrightarrow> 0 < v_sem (osv w) k \<Longrightarrow>
      gives ok osv (x_sem_wait E h) w 0 ((osv w)\<lparr>v_sem := (v_sem (osv w))(k := v_sem (osv w) k - 1)\<rparr>)"
    and os_wait_blocks: "ok w \<Longrightarrow> v_hsem (osv w) h = Some k \<Longrightarrow> v_sem (osv w) k = 0 \<Longrightarrow> x_sem_wait E h w = SysBlocks"
    and os_timed: "ok w \<Longrightarrow> v_hsem (osv w) h = Some k \<Longrightarrow> 0 < v_sem (osv w) k \<Longrightarrow>
      gives ok osv (x_sem_timedwait E h ts tn) w 0 ((osv w)\<lparr>v_sem := (v_sem (osv w))(k := v_sem (osv w) k - 1)\<rparr>)"
    and os_timed_out: "ok w \<Longrightarrow> v_hsem (osv w) h = Some k \<Longrightarrow> v_sem (osv w) k = 0 \<Longrightarrow>
      \<exists>w' w''. x_sem_timedwait E h ts tn w = Sys (- 1, w') \<and> x_gil E w' = Sys ((), w'') \<and> ok w''
        \<and> osv w'' = osv w \<and> x_errno E w'' = ETIMEDOUT"
    and os_post: "ok w \<Longrightarrow> v_hsem (osv w) h = Some k \<Longrightarrow> v_sem (osv w) k < sem_value_max \<Longrightarrow>
      gives ok osv (x_sem_post E h) w 0 ((osv w)\<lparr>v_sem := (v_sem (osv w))(k := v_sem (osv w) k + 1)\<rparr>)"
    and os_getvalue: "ok w \<Longrightarrow> v_hsem (osv w) h = Some k \<Longrightarrow> v_sem (osv w) k \<le> sem_value_max \<Longrightarrow>
      gives ok osv (x_sem_getvalue E h) w (0, of_nat (v_sem (osv w) k)) (osv w)"
    and os_clock: "ok w \<Longrightarrow> \<exists>sec nsec. gives ok osv (x_clock_gettime E) w (0, sec, nsec) (osv w)"
    and os_getpid: "ok w \<Longrightarrow> gives ok osv (x_getpid E) w me (osv w)"
    and os_gil: "ok w \<Longrightarrow> gives ok osv (x_gil E) w () (osv w)"
    and os_malloc: "ok w \<Longrightarrow> gives ok osv (x_malloc E n) w True (osv w)"
    and os_py: "ok w \<Longrightarrow> gives ok osv (x_py E f) w None (osv w)"
begin

definition ev :: "('w, 'a) cprog \<Rightarrow> 'w cst \<Rightarrow> osview \<Rightarrow> 'a \<Rightarrow> 'w cst \<Rightarrow> osview \<Rightarrow> bool" where
  "ev m c V v c' V' = (\<forall>w. ok w \<and> osv w = V \<longrightarrow>
    (\<exists>w'. m (c\<lparr>wld := w\<rparr>) = Ret v (c'\<lparr>wld := w'\<rparr>) \<and> ok w' \<and> osv w' = V'))"

definition evg :: "('w, 'a) cprog \<Rightarrow> 'w cst \<Rightarrow> osview \<Rightarrow> nat \<Rightarrow> int \<Rightarrow> 'w cst \<Rightarrow> osview \<Rightarrow> bool" where
  "evg m c V p l c' V' = (\<forall>w. ok w \<and> osv w = V \<longrightarrow>
    (\<exists>w'. m (c\<lparr>wld := w\<rparr>) = Goto p l (c'\<lparr>wld := w'\<rparr>) \<and> ok w' \<and> osv w' = V'))"

lemma ev_bnd: "ev m c V v c1 V1 \<Longrightarrow> ev (f v) c1 V1 r c2 V2 \<Longrightarrow> ev (bnd m f) c V r c2 V2"
  unfolding ev_def by (metis bnd_Ret)

lemma ev_sq: "ev m c V v c1 V1 \<Longrightarrow> ev n c1 V1 r c2 V2 \<Longrightarrow> ev (sq m n) c V r c2 V2"
  unfolding sq_def by (rule ev_bnd)

lemma evg_bnd: "evg m c V p l c1 V1 \<Longrightarrow> evg (bnd m f) c V p l c1 V1"
  unfolding evg_def by (metis bnd_Goto)

lemma evg_bnd2: "ev m c V v c1 V1 \<Longrightarrow> evg (f v) c1 V1 p l c2 V2 \<Longrightarrow> evg (bnd m f) c V p l c2 V2"
  unfolding ev_def evg_def by (metis bnd_Ret)

lemma evg_sq: "evg m c V p l c1 V1 \<Longrightarrow> evg (sq m n) c V p l c1 V1"
  unfolding sq_def by (rule evg_bnd)

lemma evg_sq2: "ev m c V v c1 V1 \<Longrightarrow> evg n c1 V1 p l c2 V2 \<Longrightarrow> evg (sq m n) c V p l c2 V2"
  unfolding sq_def by (rule evg_bnd2)

lemma ev_label: "ev m c V v c1 V1 \<Longrightarrow> ev (at_label m h) c V v c1 V1"
  unfolding ev_def at_label_def by force

lemma ev_label_err: "evg m c V p l c1 V1 \<Longrightarrow> ev (h p l) c1 V1 r c2 V2 \<Longrightarrow> ev (at_label m h) c V r c2 V2"
  unfolding ev_def evg_def at_label_def by force

lemma ev_ret: "ev (ret v) c V v c V"
  by (auto simp: ev_def)

lemma ev_apply: "ev m c (osv (wld c)) v c' V' \<Longrightarrow> ok (wld c) \<Longrightarrow>
    \<exists>w'. m c = Ret v (c'\<lparr>wld := w'\<rparr>) \<and> ok w' \<and> osv w' = V'"
  by (auto simp: ev_def dest!: spec [of _ "wld c"])

text \<open>Runs that never return.\<close>

definition evb :: "('w, 'a) cprog \<Rightarrow> 'w cst \<Rightarrow> osview \<Rightarrow> bool" where
  "evb m c V = (\<forall>w. ok w \<and> osv w = V \<longrightarrow> m (c\<lparr>wld := w\<rparr>) = Stuck Blocks)"

lemma evb_apply: "evb m c (osv (wld c)) \<Longrightarrow> ok (wld c) \<Longrightarrow> m c = Stuck Blocks"
  by (auto simp: evb_def dest!: spec [of _ "wld c"])

lemma evb_bnd: "evb m c V \<Longrightarrow> evb (bnd m f) c V"
  by (simp add: evb_def bnd_def)

lemma evb_bnd2: "ev m c V v c1 V1 \<Longrightarrow> evb (f v) c1 V1 \<Longrightarrow> evb (bnd m f) c V"
  unfolding evb_def by (force simp: ev_def bnd_def)

lemma evb_sq2: "ev m c V v c1 V1 \<Longrightarrow> evb n c1 V1 \<Longrightarrow> evb (sq m n) c V"
  unfolding sq_def by (rule evb_bnd2)

lemma evb_label: "evb m c V \<Longrightarrow> evb (at_label m h) c V"
  by (simp add: evb_def at_label_def)

lemma ev_rd: "(\<And>w. g (c\<lparr>wld := w\<rparr>) = g c) \<Longrightarrow> ev (rd g) c V (g c) c V"
  by (auto simp: ev_def rd_def)

lemma ev_upd: "(\<And>w. g (c\<lparr>wld := w\<rparr>) = c'\<lparr>wld := w\<rparr>) \<Longrightarrow> ev (upd g) c V () c' V"
  by (auto simp: ev_def upd_def)

lemma evg_err: "evg (pyx_err p l) c V p l c V"
  by (auto simp: evg_def pyx_err_def)

lemma ev_whn: "(b \<Longrightarrow> ev m c V () c' V') \<Longrightarrow> (\<not> b \<Longrightarrow> c' = c \<and> V' = V) \<Longrightarrow> ev (whn b m) c V () c' V'"
  by (cases b) (simp_all add: whn_def ev_ret)

lemma ev_whn_no: "\<not> b \<Longrightarrow> ev (whn b m) c V () c V"
  by (simp add: whn_def ev_ret)

lemma evg_whn: "b \<Longrightarrow> evg m c V p l c' V' \<Longrightarrow> evg (whn b m) c V p l c' V'"
  by (simp add: whn_def)

lemma ev_if: "(b \<Longrightarrow> ev m c V v c' V') \<Longrightarrow> (\<not> b \<Longrightarrow> ev n c V v c' V') \<Longrightarrow> ev (if b then m else n) c V v c' V'"
  by simp

lemma ev_sysc: "(\<And>w. ok w \<Longrightarrow> osv w = V \<Longrightarrow> gives ok osv f w r V') \<Longrightarrow> ev (sysc f) c V r c V'"
proof (unfold ev_def, intro allI impI)
  fix w assume a: "\<And>w. ok w \<Longrightarrow> osv w = V \<Longrightarrow> gives ok osv f w r V'" and w: "ok w \<and> osv w = V"
  then have "gives ok osv f w r V'" by blast
  then obtain w' where "f w = Sys (r, w')" "ok w'" "osv w' = V'" by (rule givesE)
  then show "\<exists>w'. sysc f (c\<lparr>wld := w\<rparr>) = Ret r (c\<lparr>wld := w'\<rparr>) \<and> ok w' \<and> osv w' = V'"
    by (auto simp: sysc_def)
qed

lemma ev_gil: "ev (sysc (x_gil E)) c V () c V"
  by (rule ev_sysc) (use os_gil in blast)

lemma ev_py: "ev (sysc (x_py E f)) c V None c V"
  by (rule ev_sysc) (use os_py in blast)

lemma ev_nonnull: "ev (nonnull (Some a)) c V a c V"
  by (simp add: nonnull_def ev_ret)

lemma ev_self_rd: "objs c n = Some h \<Longrightarrow> ev (self_rd n g) c V (g h) c V"
  by (auto simp: ev_def self_rd_def)

lemma ev_ld8: "v_amap V a = Some g \<Longrightarrow> ev (ld8 E (Some a)) c V (v_byte V g) c V"
  unfolding ld8_def by (rule ev_bnd [OF ev_nonnull], rule ev_sysc) (use os_ld8 in blast)

lemma ev_st8: "v_amap V a = Some g \<Longrightarrow> ev (st8 E (Some a) x) c V () c (V\<lparr>v_byte := (v_byte V)(g := x)\<rparr>)"
  unfolding st8_def by (rule ev_bnd [OF ev_nonnull], rule ev_sysc) (use os_st8 in blast)

lemma ev_ld32: "v_amap V a = Some g \<Longrightarrow> ev (ld32 E (Some (a + 1))) c V (v_pid V g) c V"
  unfolding ld32_def by (rule ev_bnd [OF ev_nonnull], rule ev_sysc) (use os_ld32 in blast)

lemma ev_st32: "v_amap V a = Some g \<Longrightarrow> ev (st32 E (Some (a + 1)) x) c V () c (V\<lparr>v_pid := (v_pid V)(g := x)\<rparr>)"
  unfolding st32_def by (rule ev_bnd [OF ev_nonnull], rule ev_sysc) (use os_st32 in blast)

lemma ev_need_gil: "gil c \<Longrightarrow> ev need_gil c V () c V"
  by (auto simp: ev_def need_gil_def)

lemma ev_unblock: "gil c \<Longrightarrow> ev unblock_threads c V () (c\<lparr>gil := False\<rparr>) V"
  unfolding unblock_threads_def by (erule ev_sq [OF ev_need_gil]) (rule ev_upd, simp)

lemma ev_block:
  assumes "gil c"
  shows "ev (block_threads E) (c\<lparr>gil := False\<rparr>) V () c V"
proof -
  have "ev (sq (sysc (x_gil E)) (upd (\<lambda>s. s\<lparr>gil := True\<rparr>))) (c\<lparr>gil := False\<rparr>) V () c V"
    by (rule ev_sq [OF ev_gil], rule ev_upd) (use assms in simp)
  then show ?thesis unfolding block_threads_def
    by (intro ev_bnd [OF ev_rd]) simp_all
qed

lemma ev_set_err: "gil c \<Longrightarrow> ev (set_err k v) c V () (c\<lparr>curexc := Some (PyErr k v [])\<rparr>) V"
  unfolding set_err_def by (erule ev_sq [OF ev_need_gil]) (rule ev_upd, simp)

lemma ev_capi: "gil c \<Longrightarrow> ev (capi E f v) c V (Some v) c V"
  unfolding capi_def
  by (rule ev_sq [OF ev_need_gil], assumption, rule ev_bnd [OF ev_py]) (simp add: ev_ret)

lemma ev_chk: "ev m c V (Some v) c' V' \<Longrightarrow> ev (chk l m) c V v c' V'"
  unfolding chk_def by (erule ev_bnd) (simp add: ev_ret)

section \<open>The run-time functions when nothing fails\<close>

lemma ev_global: "gil c \<Longrightarrow> mdict c n = Some x \<Longrightarrow> ev (pyx_GetModuleGlobalName E n) c V (Some x) c V"
  unfolding pyx_GetModuleGlobalName_def
  by (rule ev_bnd [OF ev_capi], assumption, simp, rule ev_bnd [OF ev_rd], simp) (simp add: ev_ret)

lemma ev_global_builtin:
  "gil c \<Longrightarrow> mdict c n = None \<Longrightarrow> bdict c n = Some x \<Longrightarrow> ev (pyx_GetModuleGlobalName E n) c V (Some x) c V"
  unfolding pyx_GetModuleGlobalName_def pyx_GetBuiltinName_def
  by (rule ev_bnd [OF ev_capi], assumption, simp, rule ev_bnd [OF ev_rd], simp, simp,
      rule ev_bnd [OF ev_capi], assumption, rule ev_bnd [OF ev_rd], simp) (simp add: ev_ret)

lemma ev_call_exc: "gil c \<Longrightarrow> exc_class k \<Longrightarrow> ev (pyx_PyObject_Call E (PyCls k) args) c V (Some (PyExc k args)) c V"
  unfolding pyx_PyObject_Call_def pyx_call_checked_def
  by (rule ev_bnd [OF ev_capi], assumption, simp add: call_slot_def, rule ev_bnd [OF ev_capi]) (simp_all add: ev_ret)

lemma ev_call_args: "gil c \<Longrightarrow> exc_class k \<Longrightarrow> ev (call_args E (PyCls k) args) c V (Some (PyExc k args)) c V"
  unfolding call_args_def pyx_PyObject_CallNoArg_def pyx_PyObject_CallOneArg_def
  by (auto split: list.split intro!: ev_call_exc ev_bnd [OF ev_capi])

lemma ev_raise: "gil c \<Longrightarrow> exc_class k \<Longrightarrow>
    ev (pyx_Raise E (PyExc k args) None) c V () (c\<lparr>curexc := Some (PyErr k (PyExc k args) [])\<rparr>) V"
  unfolding pyx_Raise_def by (simp add: ev_set_err)

lemma evg_raise_const: "gil c \<Longrightarrow> exc_class k \<Longrightarrow>
    evg (raise_const E l k args) c V 0 l (c\<lparr>curexc := Some (PyErr k (PyExc k args) [])\<rparr>) V"
  unfolding raise_const_def
  by (rule evg_bnd2 [OF ev_chk [OF ev_call_exc]], assumption, assumption, rule evg_sq2 [OF ev_raise])
    (auto intro: evg_err)

lemma evg_raise_global: "gil c \<Longrightarrow> mdict c n = Some (PyCls k) \<Longrightarrow> exc_class k \<Longrightarrow>
    evg (raise_global E l n args) c V 0 l (c\<lparr>curexc := Some (PyErr k (PyExc k args) [])\<rparr>) V"
  unfolding raise_global_def
  by (rule evg_bnd2 [OF ev_chk [OF ev_global]], assumption, assumption,
      rule evg_bnd2 [OF ev_chk [OF ev_call_args]], assumption, assumption, rule evg_sq2 [OF ev_raise])
    (auto intro: evg_err)

lemma evg_raise_builtin: "gil c \<Longrightarrow> mdict c n = None \<Longrightarrow> bdict c n = Some (PyCls k) \<Longrightarrow> exc_class k \<Longrightarrow>
    evg (raise_global E l n args) c V 0 l (c\<lparr>curexc := Some (PyErr k (PyExc k args) [])\<rparr>) V"
  unfolding raise_global_def
  by (rule evg_bnd2 [OF ev_chk [OF ev_global_builtin]], assumption, assumption, assumption,
      rule evg_bnd2 [OF ev_chk [OF ev_call_args]], assumption, assumption, rule evg_sq2 [OF ev_raise])
    (auto intro: evg_err)

end

end
