(* ===== verification/LockSpec.thy ===== *)
theory LockSpec
  imports Posix
begin

text \<open>
  The functional behaviour of the lock operations when nothing interferes,
  proved in the locale \<open>quiet_os\<close>: which result and which exception each
  operation gives, and what it does to the semaphore, the byte and the pid.
\<close>

section \<open>The module and a constructed lock\<close>

definition SemaphoreDestroyed :: cls where
  "SemaphoreDestroyed = Derived ''SemaphoreDestroyedException'' ExceptionT"

definition NoSuchSemaphore :: cls where
  "NoSuchSemaphore = Derived ''NoSuchSemaphoreException'' ExceptionT"

definition SemaphoreExists :: cls where
  "SemaphoreExists = Derived ''SemaphoreExistsException'' ExceptionT"

lemma exc_classes [simp]: "exc_class SemaphoreDestroyed" "exc_class NoSuchSemaphore" "exc_class SemaphoreExists"
  "exc_class ExceptionT" "exc_class TimeoutErrorT" "exc_class SystemErrorT" "exc_class TypeErrorT"
  by (simp_all add: exc_class_def SemaphoreDestroyed_def NoSuchSemaphore_def SemaphoreExists_def tp_mro_unfold)

text \<open>The module as its initialisation leaves it, as far as the lock reads it.\<close>

definition std_module :: "'w cst \<Rightarrow> bool" where
  "std_module c = (v_LOCKED c = 0 \<and> v_UNLOCKED c = 1 \<and> v_DESTROYED c = 0x7F \<and> v_k c = 1
    \<and> mdict c ''SemaphoreDestroyedException'' = Some (PyCls SemaphoreDestroyed)
    \<and> mdict c ''NoSuchSemaphoreException'' = Some (PyCls NoSuchSemaphore)
    \<and> mdict c ''SemaphoreExistsException'' = Some (PyCls SemaphoreExists)
    \<and> mdict c ''CONNECT_OR_CREATE'' = Some (PyInt 0) \<and> mdict c ''CONNECT_TO_EXISTING'' = Some (PyInt 1)
    \<and> mdict c ''CREATE_NEW_OVERWRITE'' = Some (PyInt 2) \<and> mdict c ''CREATE_NEW_EXCLUSIVE'' = Some (PyInt 3)
    \<and> mdict c ''TimeoutError'' = None \<and> bdict c ''TimeoutError'' = Some (PyCls TimeoutErrorT))"

lemma std_module_upd [simp]: "std_module (c\<lparr>objs := x\<rparr>) = std_module c" "std_module (c\<lparr>wld := w\<rparr>) = std_module c"
  "std_module (c\<lparr>cmem := y\<rparr>) = std_module c" "std_module (c\<lparr>curexc := e\<rparr>) = std_module c"
  "std_module (c\<lparr>cocache := k\<rparr>) = std_module c"
  by (simp_all add: std_module_def)

text \<open>Object \<open>n\<close> is a lock connected to semaphore \<open>k\<close> and segment \<open>g\<close>.\<close>

definition lock_at :: "'w cst \<Rightarrow> osview \<Rightarrow> nat \<Rightarrow> nat \<Rightarrow> nat \<Rightarrow> bool" where
  "lock_at c V n k g = (\<exists>h a b. objs c n = Some h \<and> semaphore h = Some a \<and> v_hsem V a = Some k
    \<and> spin_lock_char h = Some b \<and> spin_lock_pid h = Some (b + 1) \<and> v_amap V b = Some g)"

text \<open>Object \<open>n\<close> maps the lock page of segment \<open>g\<close>, whatever became of its semaphore.\<close>

definition mapped :: "'w cst \<Rightarrow> osview \<Rightarrow> nat \<Rightarrow> nat \<Rightarrow> bool" where
  "mapped c V n g = (\<exists>h b. objs c n = Some h \<and> spin_lock_char h = Some b \<and> v_amap V b = Some g)"

lemma lock_at_mapped: "lock_at c V n k g \<Longrightarrow> mapped c V n g"
  by (auto simp: lock_at_def mapped_def)

text \<open>Taking and releasing, on the view.\<close>

definition take_view :: "c_int \<Rightarrow> nat \<Rightarrow> nat \<Rightarrow> osview \<Rightarrow> osview" where
  "take_view me k g V = V\<lparr>v_sem := (v_sem V)(k := v_sem V k - 1), v_byte := (v_byte V)(g := 0),
    v_pid := (v_pid V)(g := me)\<rparr>"

definition release_view :: "nat \<Rightarrow> nat \<Rightarrow> osview \<Rightarrow> osview" where
  "release_view k g V = V\<lparr>v_byte := (v_byte V)(g := 1), v_sem := (v_sem V)(k := v_sem V k + 1)\<rparr>"

text \<open>The state after a traceback entry has been added.\<close>

definition traced :: "string \<Rightarrow> int \<Rightarrow> string \<Rightarrow> 'w cst \<Rightarrow> 'w cst" where
  "traced fn l file c = c\<lparr>cocache := snd (cc.fetch True l (PyCode fn l file) (cocache c)),
    curexc := map_option (add_tb (fst (cc.fetch True l (PyCode fn l file) (cocache c)), l)) (curexc c)\<rparr>"

text \<open>What a NULL result without an exception becomes.\<close>

definition null_error :: pyerr where
  "null_error = PyErr SystemErrorT (PyStr ''NULL result without error in PyObject_Call'') []"

definition raised :: "cls \<Rightarrow> pyobj list \<Rightarrow> 'w cst \<Rightarrow> 'w cst" where
  "raised k args c = c\<lparr>curexc := Some (PyErr k (PyExc k args) [])\<rparr>"

lemma traced_simps [simp]: "gil (traced fn l f c) = gil c" "objs (traced fn l f c) = objs c"
  "curexc (traced fn l f c) = map_option (add_tb (fst (cc.fetch True l (PyCode fn l f) (cocache c)), l)) (curexc c)"
  by (simp_all add: traced_def)

context quiet_os
begin

lemma ev_traceback_here: "gil c \<Longrightarrow> ev (traceback_here E code l) c V ()
    (c\<lparr>curexc := map_option (add_tb (code, l)) (curexc c)\<rparr>) V"
  unfolding traceback_here_def
  by (rule ev_bnd [OF ev_capi], assumption, simp, rule ev_bnd [OF ev_capi], assumption, simp, rule ev_upd) simp

lemma ev_malloc: "ev (sysc (x_malloc E n)) c V True c V"
  by (rule ev_sysc) (use os_malloc in blast)

lemma ev_cache_alloc: "ev (cache_alloc E cc) c V True c V"
  by (simp add: cache_alloc_def ev_malloc ev_ret)

lemma ev_AddTraceback:
  assumes "gil c"
  shows "ev (pyx_AddTraceback E fn l file) c V () (traced fn l file c) V"
proof (cases "pyx_find_code_object (cocache c) l")
  case None
  have "ev (sq (upd (\<lambda>s. s\<lparr>cocache := pyx_insert_code_object True l x (cocache s)\<rparr>)) (traceback_here E x l)) c V ()
     (c\<lparr>cocache := pyx_insert_code_object True l x (cocache c), curexc := map_option (add_tb (x, l)) (curexc c)\<rparr>) V" for x
    using ev_traceback_here [of "c\<lparr>cocache := pyx_insert_code_object True l x (cocache c)\<rparr>" x l V] assms
    by (intro ev_sq [OF ev_upd]) simp_all
  then have "ev (bnd (pyx_CreateCodeObject E fn l file) (\<lambda>r. case r of None \<Rightarrow> ret ()
          | Some code \<Rightarrow> bnd (cache_alloc E (cocache c)) (\<lambda>mem.
              sq (upd (\<lambda>s. s\<lparr>cocache := pyx_insert_code_object mem l code (cocache s)\<rparr>))
                 (traceback_here E code l)))) c V () (traced fn l file c) V"
    unfolding pyx_CreateCodeObject_def traced_def
    by (intro ev_bnd [OF ev_capi] assms) (simp add: cc.fetch_def None ev_bnd [OF ev_cache_alloc])
  then show ?thesis unfolding pyx_AddTraceback_def
    by (intro ev_bnd [OF ev_rd]) (simp_all add: None)
next
  case (Some code)
  then show ?thesis unfolding pyx_AddTraceback_def
    using ev_traceback_here [OF assms, of code l V]
    by (intro ev_bnd [OF ev_rd]) (simp_all add: traced_def cc.fetch_def)
qed

lemma ev_exit_ok: "ev m c V v c' V' \<Longrightarrow> ev (exit_err E fn e m) c V v c' V'"
  unfolding exit_err_def by (rule ev_label)

lemma ev_exit_err: "evg m c V p l c1 V1 \<Longrightarrow> gil c1 \<Longrightarrow> ev (exit_err E fn v m) c V v (traced fn l (pyx_f p) c1) V1"
  unfolding exit_err_def by (erule ev_label_err, rule ev_sq [OF ev_AddTraceback]) (simp_all add: ev_ret)

lemma ev_bnd_any:
  assumes "\<And>w. ok w \<Longrightarrow> osv w = V \<Longrightarrow> \<exists>v w'. m (c\<lparr>wld := w\<rparr>) = Ret v (c1\<lparr>wld := w'\<rparr>) \<and> ok w' \<and> osv w' = V1"
    and "\<And>v. ev (f v) c1 V1 r c2 V2"
  shows "ev (bnd m f) c V r c2 V2"
  using assms unfolding ev_def by (metis bnd_Ret)

lemma evg_bnd_any:
  assumes "\<And>w. ok w \<Longrightarrow> osv w = V \<Longrightarrow> \<exists>v w'. m (c\<lparr>wld := w\<rparr>) = Ret v (c1\<lparr>wld := w'\<rparr>) \<and> ok w' \<and> osv w' = V1"
    and "\<And>v. evg (f v) c1 V1 p l c2 V2"
  shows "evg (bnd m f) c V p l c2 V2"
  using assms unfolding ev_def evg_def by (metis bnd_Ret)

lemma any_clock: "ok w \<Longrightarrow> osv w = V \<Longrightarrow>
    \<exists>v w'. get_current_time_ms E (c\<lparr>wld := w\<rparr>) = Ret v (c\<lparr>wld := w'\<rparr>) \<and> ok w' \<and> osv w' = V"
  using os_clock [of w] by (auto simp: get_current_time_ms_def bnd_def sysc_def elim!: givesE)

lemma ev_bnd_clock: "(\<And>v. ev (f v) c V r c' V') \<Longrightarrow> ev (bnd (get_current_time_ms E) f) c V r c' V'"
  by (rule ev_bnd_any, rule any_clock)

lemma evg_bnd_clock: "(\<And>v. evg (f v) c V p l c' V') \<Longrightarrow> evg (bnd (get_current_time_ms E) f) c V p l c' V'"
  by (rule evg_bnd_any, rule any_clock)

lemma evb_bnd_clock:
  assumes "\<And>v. evb (f v) c V"
  shows "evb (bnd (get_current_time_ms E) f) c V"
  unfolding evb_def
proof (intro allI impI)
  fix w assume "ok w \<and> osv w = V"
  then obtain v w' where "get_current_time_ms E (c\<lparr>wld := w\<rparr>) = Ret v (c\<lparr>wld := w'\<rparr>)" "ok w'" "osv w' = V"
    using any_clock by blast
  then show "bnd (get_current_time_ms E) f (c\<lparr>wld := w\<rparr>) = Stuck Blocks"
    using assms by (simp add: evb_def)
qed

lemma evb_deref: "p = Some a \<Longrightarrow> evb (f a) c V \<Longrightarrow> evb (bnd (nonnull p) f) c V"
  by (simp add: evb_bnd2 [OF ev_nonnull])

lemma evb_field: "objs c n = Some h \<Longrightarrow> evb (f (g h)) c V \<Longrightarrow> evb (bnd (self_rd n g) f) c V"
  by (rule evb_bnd2 [OF ev_self_rd])

lemma ev_field: "objs c n = Some h \<Longrightarrow> ev (f (g h)) c V r c' V' \<Longrightarrow> ev (bnd (self_rd n g) f) c V r c' V'"
  by (rule ev_bnd [OF ev_self_rd])

lemma evg_field: "objs c n = Some h \<Longrightarrow> evg (f (g h)) c V p l c' V' \<Longrightarrow> evg (bnd (self_rd n g) f) c V p l c' V'"
  by (rule evg_bnd2 [OF ev_self_rd])

lemma ev_deref: "p = Some a \<Longrightarrow> ev (f a) c V r c' V' \<Longrightarrow> ev (bnd (nonnull p) f) c V r c' V'"
  by (simp add: ev_bnd [OF ev_nonnull])

lemma evg_deref: "p = Some a \<Longrightarrow> evg (f a) c V q l c' V' \<Longrightarrow> evg (bnd (nonnull p) f) c V q l c' V'"
  by (simp add: evg_bnd2 [OF ev_nonnull])

section \<open>Reading the byte\<close>

lemma ev_is_destroyed: "mapped c V n g \<Longrightarrow> ev (is_destroyed E n) c V (v_byte V g = v_DESTROYED c) c V"
  unfolding mapped_def is_destroyed_def
  by (elim exE conjE) (rule ev_bnd [OF ev_self_rd], assumption, simp, rule ev_bnd [OF ev_ld8], assumption,
      rule ev_bnd [OF ev_rd], simp, rule ev_ret)

lemma ev_is_unlocked: "lock_at c V n k g \<Longrightarrow> ev (is_unlocked E n) c V (v_byte V g = v_UNLOCKED c) c V"
  unfolding lock_at_def is_unlocked_def
  by (elim exE conjE) (rule ev_bnd [OF ev_self_rd], assumption, simp, rule ev_bnd [OF ev_ld8], assumption,
      rule ev_bnd [OF ev_rd], simp, rule ev_ret)

lemma ev_get_destroyed:
  "mapped c V n g \<Longrightarrow> ev (get_destroyed_f E n) c V (if v_byte V g = v_DESTROYED c then 1 else 0) c V"
  unfolding get_destroyed_f_def by (rule ev_bnd [OF ev_is_destroyed]) (auto intro: ev_ret)

lemma ev_not_destroyed: "lock_at c V n k g \<Longrightarrow> v_byte V g \<noteq> v_DESTROYED c \<Longrightarrow>
    ev (bnd (is_destroyed E n) (\<lambda>b. whn b m)) c V () c V"
  by (rule ev_bnd [OF ev_is_destroyed [OF lock_at_mapped]], assumption, erule ev_whn_no)

lemma evg_destroyed: "mapped c V n g \<Longrightarrow> v_byte V g = v_DESTROYED c \<Longrightarrow> gil c \<Longrightarrow>
    mdict c name = Some (PyCls x) \<Longrightarrow> exc_class x \<Longrightarrow>
    evg (bnd (is_destroyed E n) (\<lambda>b. whn b (raise_global E l name args))) c V 0 l (raised x args c) V"
  unfolding raised_def by (rule evg_bnd2 [OF ev_is_destroyed], assumption, rule evg_whn, simp, rule evg_raise_global)

section \<open>The phases of lock\<close>

lemma lock_at_gil [simp]: "lock_at (c\<lparr>gil := x\<rparr>) V n k g = lock_at c V n k g"
  by (simp add: lock_at_def)

lemma ev_spin_loop:
  assumes "lock_at c V n k g" and "v_byte V g \<noteq> v_DESTROYED c"
  shows "ev (spin_loop E n from_t i) c V () c V"
proof (induction "nat (0x2001 - i)" arbitrary: i rule: less_induct)
  case less
  have rest: "ev (if spin_times > 0x2000 then ret () else spin_loop E n from_t (spin_times + 1)) c V () c V"
    if "spin_times = i" for spin_times
    using less that by (auto intro: ev_ret)
  have "ev (bnd (is_destroyed E n) (\<lambda>d. if d then spin_destroyed E else bnd (is_unlocked E n) (\<lambda>u.
    if u then ret () else if i > 0x2000 then ret () else spin_loop E n from_t (i + 1)))) c V () c V"
    by (rule ev_bnd [OF ev_is_destroyed [OF lock_at_mapped [OF assms(1)]]], simp only: assms(2) if_False,
        rule ev_bnd [OF ev_is_unlocked [OF assms(1)]], rule ev_if, rule ev_ret, rule rest) simp
  then show ?case unfolding spin_loop.simps [of E n from_t i]
    by (intro ev_bnd_clock) (auto intro: ev_ret)
qed

lemma ev_spin_phase:
  assumes "lock_at c V n k g" and "v_byte V g \<noteq> v_DESTROYED c" and "gil c"
  shows "ev (spin_phase E n from_t) c V () c V"
  unfolding spin_phase_def
  by (rule ev_sq [OF ev_unblock [OF assms(3)]], rule ev_sq [OF ev_label [OF ev_spin_loop]])
    (use assms in \<open>simp_all add: ev_block\<close>)

lemma ev_mark_locked: "lock_at c V n k g \<Longrightarrow>
    ev (mark_locked E n) c V () c (V\<lparr>v_byte := (v_byte V)(g := v_LOCKED c)\<rparr>)"
  unfolding lock_at_def mark_locked_def
  by (elim exE conjE) (rule ev_bnd [OF ev_self_rd], assumption, simp, rule ev_bnd [OF ev_rd], simp, rule ev_st8)

lemma ev_set_pid: "lock_at c V n k g \<Longrightarrow> ev (lock_set_pid E n) c V () c (V\<lparr>v_pid := (v_pid V)(g := me)\<rparr>)"
proof -
  have p: "ev (sysc (x_getpid E)) c V me c V" by (rule ev_sysc) (use os_getpid in blast)
  show "lock_at c V n k g \<Longrightarrow> ?thesis" unfolding lock_at_def lock_set_pid_def
    by (elim exE conjE) (rule ev_bnd [OF p], rule ev_bnd [OF ev_self_rd], assumption,
        simp del: One_nat_def add_Suc_right, rule ev_st32)
qed

lemma ev_lock_wait:
  assumes "lock_at c V n k g" and "gil c" and "0 < v_sem V k"
  shows "ev (lock_wait E n) c V 0 c (V\<lparr>v_sem := (v_sem V)(k := v_sem V k - 1), v_byte := (v_byte V)(g := v_LOCKED c)\<rparr>)"
proof -
  obtain h a where h: "objs c n = Some h" "semaphore h = Some a" "v_hsem V a = Some k"
    using assms(1) by (auto simp: lock_at_def)
  let ?V = "V\<lparr>v_sem := (v_sem V)(k := v_sem V k - 1)\<rparr>"
  have w: "ev (sysc (x_sem_wait E a)) d V 0 d ?V" for d
    by (rule ev_sysc) (use os_wait h(3) assms(3) in blast)
  have m: "ev (if (0 :: c_int) \<noteq> - 1 then sq (mark_locked E n) (ret 0) else x) c ?V 0 c
      (?V\<lparr>v_byte := (v_byte V)(g := v_LOCKED c)\<rparr>)" for x :: "('w, c_int) cprog"
    using ev_sq [OF ev_mark_locked [of c ?V n k g] ev_ret] assms(1) by (simp add: lock_at_def)
  show ?thesis unfolding lock_wait_def
    by (rule ev_sq [OF ev_unblock [OF assms(2)]], rule ev_field [where h = h], simp add: h(1),
        rule ev_deref [OF h(2)], rule ev_bnd [OF w], rule ev_sq [OF ev_block [OF assms(2)]], rule m)
qed

lemma ev_bnd_gettime: "(\<And>sec nsec. ev (f (0, sec, nsec)) c V r c' V') \<Longrightarrow> ev (bnd (sysc (x_clock_gettime E)) f) c V r c' V'"
  unfolding ev_def
proof (intro allI impI)
  fix w assume f: "\<And>sec nsec. \<forall>w. ok w \<and> osv w = V \<longrightarrow>
      (\<exists>w'. f (0, sec, nsec) (c\<lparr>wld := w\<rparr>) = Ret r (c'\<lparr>wld := w'\<rparr>) \<and> ok w' \<and> osv w' = V')"
    and w: "ok w \<and> osv w = V"
  obtain sec nsec w' where "x_clock_gettime E w = Sys ((0, sec, nsec), w')" "ok w'" "osv w' = V"
    using os_clock [of w] w by (auto elim!: givesE)
  then show "\<exists>w'. bnd (sysc (x_clock_gettime E)) f (c\<lparr>wld := w\<rparr>) = Ret r (c'\<lparr>wld := w'\<rparr>) \<and> ok w' \<and> osv w' = V'"
    using f by (simp add: bnd_def sysc_def)
qed

lemma evg_bnd_gettime: "(\<And>sec nsec. evg (f (0, sec, nsec)) c V p l c' V') \<Longrightarrow> evg (bnd (sysc (x_clock_gettime E)) f) c V p l c' V'"
  unfolding evg_def
proof (intro allI impI)
  fix w assume f: "\<And>sec nsec. \<forall>w. ok w \<and> osv w = V \<longrightarrow>
      (\<exists>w'. f (0, sec, nsec) (c\<lparr>wld := w\<rparr>) = Goto p l (c'\<lparr>wld := w'\<rparr>) \<and> ok w' \<and> osv w' = V')"
    and w: "ok w \<and> osv w = V"
  obtain sec nsec w' where "x_clock_gettime E w = Sys ((0, sec, nsec), w')" "ok w'" "osv w' = V"
    using os_clock [of w] w by (auto elim!: givesE)
  then show "\<exists>w'. bnd (sysc (x_clock_gettime E)) f (c\<lparr>wld := w\<rparr>) = Goto p l (c'\<lparr>wld := w'\<rparr>) \<and> ok w' \<and> osv w' = V'"
    using f by (simp add: bnd_def sysc_def)
qed

lemma ev_lock_timed:
  assumes "lock_at c V n k g" and "gil c" and "0 < v_sem V k"
  shows "ev (lock_timed E n timeout) c V 0 c
    (V\<lparr>v_sem := (v_sem V)(k := v_sem V k - 1), v_byte := (v_byte V)(g := v_LOCKED c)\<rparr>)"
proof -
  obtain h a where h: "objs c n = Some h" "semaphore h = Some a" "v_hsem V a = Some k"
    using assms(1) by (auto simp: lock_at_def)
  let ?V = "V\<lparr>v_sem := (v_sem V)(k := v_sem V k - 1)\<rparr>"
  have w: "ev (sysc (x_sem_timedwait E a ts tn)) d V 0 d ?V" for d ts tn
    by (rule ev_sysc) (use os_timed h(3) assms(3) in blast)
  have m: "ev (if (0 :: c_int) \<noteq> - 1 then sq (mark_locked E n) (ret 0) else x) c ?V 0 c
      (?V\<lparr>v_byte := (v_byte V)(g := v_LOCKED c)\<rparr>)" for x :: "('w, c_int) cprog"
    using ev_sq [OF ev_mark_locked [of c ?V n k g] ev_ret] assms(1) by (simp add: lock_at_def)
  have r: "ev (if (0 :: c_int) = - 1 then y else x) c V r c' V'" if "ev x c V r c' V'" for x y :: "('w, c_int) cprog" and r c' V'
    using that by simp
  show ?thesis unfolding lock_timed_def
    by (rule ev_bnd_gettime, simp only: prod.case, rule r, rule ev_sq [OF ev_unblock [OF assms(2)]],
        rule ev_field [where h = h], simp add: h(1), rule ev_deref [OF h(2)], rule ev_bnd [OF w],
        rule ev_sq [OF ev_block [OF assms(2)]], rule m)
qed

lemma evg_lock_timed_out:
  assumes "lock_at c V n k g" and "gil c" and "v_sem V k = 0"
    and "mdict c ''TimeoutError'' = None" and "bdict c ''TimeoutError'' = Some (PyCls TimeoutErrorT)"
  shows "evg (lock_timed E n timeout) c V 0 380 (raised TimeoutErrorT [] c) V"
proof -
  obtain h a where h: "objs c n = Some h" "semaphore h = Some a" "v_hsem V a = Some k"
    using assms(1) by (auto simp: lock_at_def)
  have fail: "evg (raise_global E 380 ''TimeoutError'' []) c V 0 380 (raised TimeoutErrorT [] c) V"
    for x :: unit
    unfolding raised_def by (rule evg_raise_builtin) (use assms in simp_all)
  have m: "evg (bnd (sysc (x_sem_timedwait E a ts tn)) (\<lambda>retval. sq (block_threads E)
       (if retval \<noteq> - 1 then x retval else lock_timed_fail E timeout))) (c\<lparr>gil := False\<rparr>) V 0 380
       (raised TimeoutErrorT [] c) V" for ts tn x
    unfolding evg_def
  proof (intro allI impI)
    fix w assume w: "ok w \<and> osv w = V"
    then obtain w' w'' where s: "x_sem_timedwait E a ts tn w = Sys (- 1, w')" "x_gil E w' = Sys ((), w'')"
      "ok w''" "osv w'' = V" "x_errno E w'' = ETIMEDOUT"
      using os_timed_out [of w a k ts tn] h(3) assms(3) by auto
    have "block_threads E (c\<lparr>gil := False, wld := w'\<rparr>) = Ret () (c\<lparr>wld := w''\<rparr>)"
      using s(2) assms(2) by (simp add: block_threads_def bnd_def sq_def rd_def sysc_def upd_def)
    moreover have "lock_timed_fail E timeout (c\<lparr>wld := w''\<rparr>)
        = raise_global E 380 ''TimeoutError'' [] (c\<lparr>wld := w''\<rparr>)"
      using s(5) by (simp add: lock_timed_fail_def bnd_def rd_def)
    ultimately show "\<exists>w'. bnd (sysc (x_sem_timedwait E a ts tn)) (\<lambda>retval. sq (block_threads E)
       (if retval \<noteq> - 1 then x retval else lock_timed_fail E timeout)) (c\<lparr>gil := False, wld := w\<rparr>) =
         Goto 0 380 (raised TimeoutErrorT [] c\<lparr>wld := w'\<rparr>) \<and> ok w' \<and> osv w' = V"
      using s fail by (auto simp: evg_def bnd_def sysc_def sq_def)
  qed
  have r: "evg (if (0 :: c_int) = - 1 then y else x) c V p l c' V'" if "evg x c V p l c' V'"
    for x y :: "('w, c_int) cprog" and p l c' V'
    using that by simp
  show ?thesis unfolding lock_timed_def
    by (rule evg_bnd_gettime, simp only: prod.case, rule r, rule evg_sq2 [OF ev_unblock [OF assms(2)]],
        rule evg_field [where h = h], simp add: h(1), rule evg_deref [OF h(2)], rule m)
qed

section \<open>The operations\<close>

lemma ev_lock:
  assumes "lock_at c V n k g" and "gil c" and "std_module c" and "v_byte V g \<noteq> 0x7F" and "0 < v_sem V k"
  shows "ev (lock_f E n oa) c V 0 c (take_view me k g V)"
proof -
  have d: "v_byte V g \<noteq> v_DESTROYED c" and l: "v_LOCKED c = 0" using assms(3,4) by (simp_all add: std_module_def)
  let ?V = "V\<lparr>v_sem := (v_sem V)(k := v_sem V k - 1), v_byte := (v_byte V)(g := v_LOCKED c)\<rparr>"
  have w: "ev (if t = - 1 then lock_wait E n else lock_timed E n t) c V 0 c ?V" for t
    using ev_lock_wait [OF assms(1,2,5)] ev_lock_timed [OF assms(1,2,5)] by simp
  have sp: "ev (whn b (spin_phase E n t)) c V () c V" for b t
    by (rule ev_whn [OF ev_spin_phase [OF assms(1) d assms(2)]]) simp_all
  have v: "ev (sq (whn ((0 :: c_int) = 0) (lock_set_pid E n)) (ret 0)) c ?V 0 c (take_view me k g V)"
    using ev_sq [OF ev_set_pid [of c ?V n k g] ev_ret] assms(1)
    by (simp add: whn_def lock_at_def take_view_def l)
  show ?thesis unfolding lock_f_def Let_def lock_check_destroyed_def
    by (rule ev_exit_ok, rule ev_sq [OF ev_not_destroyed [OF assms(1) d]], rule ev_bnd_clock,
        rule ev_sq [OF sp], rule ev_bnd [OF w], rule v)
qed

lemma ev_lock_timeout:
  assumes "lock_at c V n k g" and "gil c" and "std_module c" and "v_byte V g \<noteq> 0x7F" and "v_sem V k = 0"
    and "lock_timeout oa \<noteq> - 1"
  shows "ev (lock_f E n oa) c V (- 1) (traced ''HybridLock.HybridLock.lock'' 380 (pyx_f 0)
    (raised TimeoutErrorT [] c)) V"
proof -
  have d: "v_byte V g \<noteq> v_DESTROYED c" using assms(3,4) by (simp add: std_module_def)
  have sp: "ev (whn b (spin_phase E n t)) c V () c V" for b t
    by (rule ev_whn [OF ev_spin_phase [OF assms(1) d assms(2)]]) simp_all
  have w: "evg (bnd (if lock_timeout oa = - 1 then lock_wait E n else lock_timed E n (lock_timeout oa)) f) c V 0 380
      (raised TimeoutErrorT [] c) V" for f :: "c_int \<Rightarrow> ('w, c_int) cprog"
    using evg_bnd [OF evg_lock_timed_out [OF assms(1,2,5)]] assms(3,6) by (simp add: std_module_def)
  have "ev (lock_f E n oa) c V (- 1) (traced ''HybridLock.HybridLock.lock'' 380 (pyx_f 0)
    (raised TimeoutErrorT [] c)) V" unfolding lock_f_def Let_def lock_check_destroyed_def
    by (rule ev_exit_err, rule evg_sq2 [OF ev_not_destroyed [OF assms(1) d]], rule evg_bnd_clock,
        rule evg_sq2 [OF sp], rule w) (simp add: raised_def assms(2))
  then show ?thesis by (simp add: pyx_f_def)
qed

lemma evb_lock:
  assumes "lock_at c V n k g" and "gil c" and "std_module c" and "v_byte V g \<noteq> 0x7F" and "v_sem V k = 0"
    and "lock_timeout oa = - 1"
  shows "evb (lock_f E n oa) c V"
proof -
  have d: "v_byte V g \<noteq> v_DESTROYED c" using assms(3,4) by (simp add: std_module_def)
  obtain h a where h: "objs c n = Some h" "semaphore h = Some a" "v_hsem V a = Some k"
    using assms(1) by (auto simp: lock_at_def)
  have sp: "ev (whn b (spin_phase E n t)) c V () c V" for b t
    by (rule ev_whn [OF ev_spin_phase [OF assms(1) d assms(2)]]) simp_all
  have "evb (sysc (x_sem_wait E a)) (c\<lparr>gil := False\<rparr>) V"
    unfolding evb_def sysc_def using os_wait_blocks h(3) assms(5) by simp
  then have b: "evb (bnd (sysc (x_sem_wait E a)) f) (c\<lparr>gil := False\<rparr>) V" for f :: "c_int \<Rightarrow> ('w, c_int) cprog"
    by (rule evb_bnd)
  have "evb (lock_wait E n) c V" unfolding lock_wait_def
    by (rule evb_sq2 [OF ev_unblock [OF assms(2)]], rule evb_field [where h = h], simp add: h(1),
        rule evb_deref [OF h(2)], rule b)
  then have "evb (bnd (if lock_timeout oa = - 1 then lock_wait E n else lock_timed E n (lock_timeout oa)) f) c V"
    for f :: "c_int \<Rightarrow> ('w, c_int) cprog"
    using assms(6) by (simp add: evb_bnd)
  then show ?thesis unfolding lock_f_def Let_def lock_check_destroyed_def exit_err_def
    by (intro evb_label evb_sq2 [OF ev_not_destroyed [OF assms(1) d]] evb_bnd_clock evb_sq2 [OF sp])
qed

lemma ev_lock_destroyed:
  assumes "mapped c V n g" and "gil c" and "std_module c" and "v_byte V g = 0x7F"
  shows "ev (lock_f E n oa) c V (- 1) (traced ''HybridLock.HybridLock.lock'' 322 (pyx_f 0)
    (raised SemaphoreDestroyed [PyStr lock_destroyed_msg] c)) V"
proof -
  have "ev (lock_f E n oa) c V (- 1) (traced ''HybridLock.HybridLock.lock'' 322 (pyx_f 0)
    (raised SemaphoreDestroyed [PyStr lock_destroyed_msg] c)) V"
    unfolding lock_f_def Let_def lock_check_destroyed_def
    by (rule ev_exit_err, rule evg_sq, rule evg_destroyed [OF assms(1)])
      (use assms in \<open>simp_all add: std_module_def raised_def\<close>)
  then show ?thesis by (simp add: pyx_f_def)
qed

lemma ev_get_value:
  assumes "lock_at c V n k g" and "std_module c" and "v_byte V g \<noteq> 0x7F" and "v_sem V k \<le> sem_value_max"
  shows "ev (get_value_f E n) c V (of_nat (v_sem V k)) c V"
proof -
  obtain h a where h: "objs c n = Some h" "semaphore h = Some a" "v_hsem V a = Some k"
    using assms(1) by (auto simp: lock_at_def)
  have d: "v_byte V g \<noteq> v_DESTROYED c" using assms(2,3) by (simp add: std_module_def)
  have v: "ev (sysc (x_sem_getvalue E a)) c V (0, of_nat (v_sem V k)) c V"
    by (rule ev_sysc) (use os_getvalue h(3) assms(4) in blast)
  show ?thesis unfolding get_value_f_def
    by (rule ev_exit_ok, rule ev_sq [OF ev_not_destroyed [OF assms(1) d]], rule ev_field [OF h(1)],
        rule ev_deref [OF h(2)], rule ev_bnd [OF v]) (simp add: ev_ret)
qed

lemma ev_get_value_destroyed:
  assumes "mapped c V n g" and "gil c" and "std_module c" and "v_byte V g = 0x7F"
  shows "ev (get_value_f E n) c V (- 10) (traced ''HybridLock.HybridLock.get_value'' 304 (pyx_f 0)
    (raised SemaphoreDestroyed [] c)) V"
proof -
  have "ev (get_value_f E n) c V (- 10) (traced ''HybridLock.HybridLock.get_value'' 304 (pyx_f 0)
    (raised SemaphoreDestroyed [] c)) V"
    unfolding get_value_f_def
    by (rule ev_exit_err, rule evg_sq, rule evg_destroyed [OF assms(1)])
      (use assms in \<open>simp_all add: std_module_def raised_def\<close>)
  then show ?thesis by (simp add: pyx_f_def)
qed

lemma count_word:
  assumes "v_sem V k \<le> sem_value_max"
  shows "(of_nat (v_sem V k) :: c_int) \<noteq> - 10" "(of_nat (v_sem V k) :: c_int) \<noteq> - 1"
    "(of_nat (v_sem V k) :: c_int) = 0 \<longleftrightarrow> v_sem V k = 0"
proof -
  have s: "sint (of_nat (v_sem V k) :: c_int) = int (v_sem V k)"
    using assms by (simp add: sem_value_max_def signed_of_nat signed_take_bit_int_eq_self)
  then have "0 \<le> sint (of_nat (v_sem V k) :: c_int)" by simp
  then show "(of_nat (v_sem V k) :: c_int) \<noteq> - 10" "(of_nat (v_sem V k) :: c_int) \<noteq> - 1"
    by (rule sint_nonneg_ne)+
  show "(of_nat (v_sem V k) :: c_int) = 0 \<longleftrightarrow> v_sem V k = 0"
  proof
    assume "(of_nat (v_sem V k) :: c_int) = 0"
    then have "0 = int (v_sem V k)" using s by (simp only: sint_0)
    then show "v_sem V k = 0" by simp
  qed simp
qed

lemma ev_get_pid:
  assumes "lock_at c V n k g" and "std_module c" and "v_byte V g \<noteq> 0x7F" and "v_sem V k \<le> sem_value_max"
  shows "ev (get_pid_f E n) c V (if v_sem V k = 0 then v_pid V g else 0) c V"
proof -
  obtain h b where h: "objs c n = Some h" "spin_lock_pid h = Some (b + 1)" "v_amap V b = Some g"
    using assms(1) by (auto simp: lock_at_def)
  have p: "ev (ld32 E (spin_lock_pid h)) c V (v_pid V g) c V"
    unfolding h(2) by (rule ev_ld32 [OF h(3)])
  show ?thesis unfolding get_pid_f_def
    by (intro ev_exit_ok ev_bnd [OF ev_get_value [OF assms(1-4)]])
      (auto simp: count_word [OF assms(4)] intro: ev_ret ev_field [OF h(1)] p)
qed

lemma ev_unlock:
  assumes "lock_at c V n k g" and "gil c" and "std_module c" and "v_byte V g \<noteq> 0x7F" and "v_sem V k = 0"
  shows "ev (unlock_f E n) c V 0 c (release_view k g V)"
proof -
  obtain h a b where h: "objs c n = Some h" "semaphore h = Some a" "v_hsem V a = Some k"
    "spin_lock_char h = Some b" "v_amap V b = Some g"
    using assms(1) by (auto simp: lock_at_def)
  have d: "v_byte V g \<noteq> v_DESTROYED c" and u: "v_UNLOCKED c = 1" using assms(3,4) by (simp_all add: std_module_def)
  let ?V = "V\<lparr>v_byte := (v_byte V)(g := 1)\<rparr>"
  have st: "ev (bnd (self_rd n spin_lock_char) (\<lambda>p. bnd (rd v_UNLOCKED) (\<lambda>v. st8 E p v))) c V () c ?V"
    by (rule ev_field [OF h(1)], unfold h(4), rule ev_bnd [OF ev_rd], simp, unfold u, rule ev_st8 [OF h(5)])
  have gv: "ev (get_value_f E n) c ?V 0 c ?V"
    using ev_get_value [of c ?V n k g] assms(1,3,5) by (simp add: lock_at_def sem_value_max_def)
  have po: "ev (sysc (x_sem_post E a)) c ?V 0 c (release_view k g V)"
  proof (rule ev_sysc)
    fix w assume "ok w" "osv w = ?V"
    then show "gives ok osv (x_sem_post E a) w 0 (release_view k g V)"
      using os_post [of w a k] h(3) assms(5) by (simp add: release_view_def sem_value_max_def)
  qed
  show ?thesis unfolding unlock_f_def
    by (rule ev_exit_ok, rule ev_sq [OF ev_not_destroyed [OF assms(1) d]], rule ev_sq [OF st], rule ev_bnd [OF gv],
        simp, rule ev_field [OF h(1)], rule ev_deref [OF h(2)], rule ev_bnd [OF po]) (simp add: ev_ret)
qed

text \<open>A lock that is not taken: \<open>unlock\<close> sets the byte and returns \<open>-1\<close>, its
  error value, with no exception.\<close>

lemma ev_unlock_unlocked:
  assumes "lock_at c V n k g" and "gil c" and "std_module c" and "v_byte V g \<noteq> 0x7F"
    and "0 < v_sem V k" and "v_sem V k \<le> sem_value_max"
  shows "ev (unlock_f E n) c V (- 1) c (V\<lparr>v_byte := (v_byte V)(g := 1)\<rparr>)"
proof -
  obtain h a b where h: "objs c n = Some h" "semaphore h = Some a" "v_hsem V a = Some k"
    "spin_lock_char h = Some b" "v_amap V b = Some g"
    using assms(1) by (auto simp: lock_at_def)
  have d: "v_byte V g \<noteq> v_DESTROYED c" and u: "v_UNLOCKED c = 1" using assms(3,4) by (simp_all add: std_module_def)
  let ?V = "V\<lparr>v_byte := (v_byte V)(g := 1)\<rparr>"
  have st: "ev (bnd (self_rd n spin_lock_char) (\<lambda>p. bnd (rd v_UNLOCKED) (\<lambda>v. st8 E p v))) c V () c ?V"
    by (rule ev_field [OF h(1)], unfold h(4), rule ev_bnd [OF ev_rd], simp, unfold u, rule ev_st8 [OF h(5)])
  have gv: "ev (get_value_f E n) c ?V (of_nat (v_sem V k)) c ?V"
    using ev_get_value [of c ?V n k g] assms(1,3,6) by (simp add: lock_at_def)
  have "(of_nat (v_sem V k) :: c_int) \<noteq> - 10" "(of_nat (v_sem V k) :: c_int) \<noteq> 0"
    using assms(5) by (simp_all add: count_word [OF assms(6)])
  then show ?thesis unfolding unlock_f_def
    by (intro ev_exit_ok ev_sq [OF ev_not_destroyed [OF assms(1) d]] ev_sq [OF st] ev_bnd [OF gv]) (simp add: ev_ret)
qed

lemma ev_unlock_destroyed:
  assumes "mapped c V n g" and "gil c" and "std_module c" and "v_byte V g = 0x7F"
  shows "ev (unlock_f E n) c V (- 1) (traced ''HybridLock.HybridLock.unlock'' 391 (pyx_f 0)
    (raised SemaphoreDestroyed [] c)) V"
proof -
  have "ev (unlock_f E n) c V (- 1) (traced ''HybridLock.HybridLock.unlock'' 391 (pyx_f 0)
    (raised SemaphoreDestroyed [] c)) V"
    unfolding unlock_f_def
    by (rule ev_exit_err, rule evg_sq, rule evg_destroyed [OF assms(1)])
      (use assms in \<open>simp_all add: std_module_def raised_def\<close>)
  then show ?thesis by (simp add: pyx_f_def)
qed

section \<open>From Python\<close>

lemma ev_call_checked: "gil c \<Longrightarrow> ev slot c V (Some v) c' V' \<Longrightarrow> ev (pyx_call_checked E slot) c V (Some v) c' V'"
  unfolding pyx_call_checked_def
  by (rule ev_bnd [OF ev_capi], assumption, simp, erule ev_bnd) (simp add: ev_ret)

lemma ev_occurred: "gil c \<Longrightarrow> ev pyerr_occurred c V (curexc c \<noteq> None) c V"
  unfolding pyerr_occurred_def by (erule ev_sq [OF ev_need_gil]) (auto simp: ev_def rd_def)

lemma ev_call_checked_exc:
  "gil c \<Longrightarrow> ev slot c V None c' V' \<Longrightarrow> gil c' \<Longrightarrow> curexc c' \<noteq> None \<Longrightarrow> ev (pyx_call_checked E slot) c V None c' V'"
  unfolding pyx_call_checked_def
  by (rule ev_bnd [OF ev_capi], assumption, simp, erule ev_bnd, simp, rule ev_bnd [OF ev_occurred])
    (simp_all add: ev_ret)

lemma ev_call_checked_null:
  "gil c \<Longrightarrow> ev slot c V None c' V' \<Longrightarrow> gil c' \<Longrightarrow> curexc c' = None \<Longrightarrow>
    ev (pyx_call_checked E slot) c V None (c'\<lparr>curexc := Some null_error\<rparr>) V'"
  unfolding pyx_call_checked_def null_error_def
  by (rule ev_bnd [OF ev_capi], assumption, simp, erule ev_bnd, simp, rule ev_bnd [OF ev_occurred], assumption,
      simp, erule ev_sq [OF ev_set_err]) (rule ev_ret)

lemma ev_From_int: "gil c \<Longrightarrow> ev (pyx_From_int E v) c V (Some (PyInt (sint v))) c V"
  unfolding pyx_From_int_def by (rule ev_capi)

lemma ev_int_method: "ev f c V t c' V' \<Longrightarrow> t \<noteq> errv \<Longrightarrow> gil c' \<Longrightarrow>
    ev (int_method E fn l errv f) c V (Some (PyInt (sint t))) c' V'"
  unfolding int_method_def
  by (rule ev_exit_ok, erule ev_bnd, simp, rule ev_bnd [OF ev_chk [OF ev_From_int]], assumption, rule ev_ret)

lemma ev_int_method_err: "ev f c V errv c' V' \<Longrightarrow> gil c' \<Longrightarrow>
    ev (int_method E fn l errv f) c V None (traced fn l (pyx_f 0) c') V'"
proof -
  assume f: "ev f c V errv c' V'" and g: "gil c'"
  have "evg (if errv = errv then pyx_err 0 l else x) c' V' 0 l c' V'" for x :: "('w, pyobj option) cprog"
    by (simp add: evg_err)
  then have "ev (int_method E fn l errv f) c V None (traced fn l (pyx_f 0) c') V'"
    unfolding int_method_def by (intro ev_exit_err [OF evg_bnd2 [OF f]] g)
  then show ?thesis by (simp add: pyx_f_def)
qed

text \<open>Python ints in range become the C ints they denote.\<close>

lemma ev_arg_int: "ev (arg_int E l (Some (PyInt (sint v))) d) c V v c V"
  unfolding arg_int_def
  by (simp, rule ev_bnd [of _ _ _ "Some v" c V]) (simp_all add: pyx_As_int_def long_as_int_def ev_ret)

lemma ev_unpack: "nreq \<le> length args \<Longrightarrow> length args \<le> length names \<Longrightarrow>
    ev (unpack_args fname names nreq l args None) c V
      (map Some args @ replicate (length names - length args) None) c V"
  by (auto simp: ev_def unpack_positional)

lemma ev_arg_parse: "ev parse c V x c' V' \<Longrightarrow> ev (body x) c' V' r c2 V2 \<Longrightarrow>
    ev (arg_wrapper E fn v parse body) c V r c2 V2"
  unfolding arg_wrapper_def by (rule ev_bnd, rule ev_exit_ok, erule ev_bnd, rule ev_ret) simp

lemma ev_lock_args:
  "ev (lock_args E [] None) c V (- 1, 1) c V"
  "ev (lock_args E [PyInt (sint t), PyInt (sint sp)] None) c V (t, sp) c V"
  unfolding lock_args_def
  by (rule ev_bnd [OF ev_unpack], simp, simp, simp add: arg_int_def ev_bnd [OF ev_ret] ev_ret)
    (rule ev_bnd [OF ev_unpack], simp, simp, simp, (rule ev_bnd [OF ev_arg_int])+, rule ev_ret)

lemma ev_lock_pw:
  assumes "ev (lock_args E args kw) c V (t, sp) c V"
    and "lock_at c V n k g" and "gil c" and "std_module c" and "v_byte V g \<noteq> 0x7F" and "0 < v_sem V k"
  shows "ev (hl_method_call E n ''lock'' args kw) c V (Some (PyInt 0)) c (take_view me k g V)"
proof -
  have "ev (lock_pf E n t sp) c V (Some (PyInt (sint (0 :: c_int)))) c (take_view me k g V)"
    unfolding lock_pf_def by (rule ev_int_method [OF ev_lock [OF assms(2-6)]]) (simp_all add: assms(3))
  then have "ev (lock_pw E n args kw) c V (Some (PyInt 0)) c (take_view me k g V)"
    unfolding lock_pw_def by (intro ev_arg_parse [OF assms(1)]) simp
  then show ?thesis
    by (simp add: hl_method_call_def hl_methods_def pyx_CallMethO_def ev_call_checked [OF assms(3)])
qed

lemma ev_unlock_pw:
  assumes "lock_at c V n k g" and "gil c" and "std_module c" and "v_byte V g \<noteq> 0x7F" and "v_sem V k = 0"
  shows "ev (hl_method_call E n ''unlock'' [] None) c V (Some (PyInt 0)) c (release_view k g V)"
proof -
  have "ev (unlock_pw E n) c V (Some (PyInt (sint (0 :: c_int)))) c (release_view k g V)"
    unfolding unlock_pw_def unlock_pf_def by (rule ev_int_method [OF ev_unlock [OF assms]]) (simp_all add: assms(2))
  then show ?thesis
    by (simp add: hl_method_call_def hl_methods_def pyx_CallMethO_def ev_call_checked [OF assms(2)])
qed

lemma ev_unlock_unlocked_pw:
  assumes "lock_at c V n k g" and "gil c" and "std_module c" and "v_byte V g \<noteq> 0x7F"
    and "0 < v_sem V k" and "v_sem V k \<le> sem_value_max" and "curexc c = None"
  shows "ev (hl_method_call E n ''unlock'' [] None) c V None
    ((traced ''HybridLock.HybridLock.unlock'' 389 (pyx_f 0) c)\<lparr>curexc := Some null_error\<rparr>)
    (V\<lparr>v_byte := (v_byte V)(g := 1)\<rparr>)"
proof -
  have "ev (unlock_pw E n) c V None (traced ''HybridLock.HybridLock.unlock'' 389 (pyx_f 0) c)
      (V\<lparr>v_byte := (v_byte V)(g := 1)\<rparr>)"
    unfolding unlock_pw_def unlock_pf_def
    by (rule ev_int_method_err [OF ev_unlock_unlocked [OF assms(1-6)]]) (simp add: assms(2))
  then show ?thesis
    using assms(2,7) by (simp add: hl_method_call_def hl_methods_def pyx_CallMethO_def ev_call_checked_null)
qed

end

end
