(* ===== verification/Names.thy ===== *)
theory Names
  imports LockSpec
begin

text \<open>
  Names: what construction and destruction rely on.  The locale \<open>quiet_fs\<close>
  extends \<open>quiet_os\<close> by the documented effect of the calls that open, create,
  map and unlink named objects, and \<open>evq\<close> runs a statement to a set of
  outcomes, because handles, descriptors and addresses are the system's choice.
\<close>

unbundle bit_operations_syntax

text \<open>The names POSIX defines: a slash and then no slash, of bounded length.\<close>

definition posix_name :: "string \<Rightarrow> bool" where
  "posix_name nm = (case nm of [] \<Rightarrow> False | x # r \<Rightarrow> x = CHR ''/'' \<and> r \<noteq> [] \<and> length r \<le> 250
    \<and> CHR ''/'' \<notin> set r \<and> CHR 0x00 \<notin> set r)"

lemma posix_c_str [simp]: "posix_name nm \<Longrightarrow> c_str nm = nm"
  by (rule c_str_id) (auto simp: posix_name_def split: list.splits)

text \<open>The descriptors a process may have open (the usual \<open>RLIMIT_NOFILE\<close>), and room
  for \<open>n\<close> more.\<close>

definition open_max :: nat where
  "open_max = 1024"

definition fd_room :: "osview \<Rightarrow> nat \<Rightarrow> bool" where
  "fd_room V n = (card {fd. v_fd V fd \<noteq> None} + n \<le> open_max)"

lemma fd_room_less: "fd_room V n \<Longrightarrow> m \<le> n \<Longrightarrow> fd_room V m"
  by (simp add: fd_room_def)

lemma fd_room_cong: "v_fd V' = v_fd V \<Longrightarrow> fd_room V' n = fd_room V n"
  by (simp add: fd_room_def)

lemma fd_room_open: "fd_room V (Suc n) \<Longrightarrow> v_fd V' = (v_fd V)(fd := Some g) \<Longrightarrow> fd_room V' n"
proof -
  assume a: "fd_room V (Suc n)" "v_fd V' = (v_fd V)(fd := Some g)"
  have "{f. v_fd V' f \<noteq> None} = insert fd {f. v_fd V f \<noteq> None}" using a(2) by auto
  then have "card {f. v_fd V' f \<noteq> None} \<le> Suc (card {f. v_fd V f \<noteq> None})" by (simp add: card_insert_if)
  then show ?thesis using a(1) by (simp add: fd_room_def)
qed

lemma fd_room_close: "fd_room V n \<Longrightarrow> v_fd V' = (v_fd V)(fd := None) \<Longrightarrow> fd_room V' n"
proof -
  assume a: "fd_room V n" "v_fd V' = (v_fd V)(fd := None)"
  have "{f. v_fd V' f \<noteq> None} \<subseteq> {f. v_fd V f \<noteq> None}" using a(2) by auto
  then have "card {f. v_fd V' f \<noteq> None} \<le> card {f. v_fd V f \<noteq> None}" by (rule card_mono [rotated]) simp
  then show ?thesis using a(1) by (simp add: fd_room_def)
qed

text \<open>Opening a segment by name: \<open>shm_opened V loc fd g V'\<close>.\<close>

definition shm_opened :: "osview \<Rightarrow> string \<Rightarrow> c_int \<Rightarrow> nat \<Rightarrow> osview \<Rightarrow> bool" where
  "shm_opened V loc fd g V' = (fd \<noteq> - 1 \<and> v_fd V' fd = Some g \<and> (\<forall>f. v_fd V f \<noteq> None \<longrightarrow> f \<noteq> fd \<and> v_fd V' f = v_fd V f)
    \<and> (\<forall>i. fd_room V (i + 2) \<longrightarrow> fd_room V' i)
    \<and> v_hsem V' = v_hsem V \<and> v_sem V' = v_sem V \<and> v_amap V' = v_amap V \<and> v_semname V' = v_semname V
    \<and> v_shmname V' = (v_shmname V)(loc := Some g)
    \<and> (case v_shmname V loc of
        Some g' \<Rightarrow> g' = g \<and> v_byte V' = v_byte V \<and> v_pid V' = v_pid V
      | None \<Rightarrow> (\<forall>a. v_amap V a \<noteq> Some g) \<and> (\<forall>nm. v_shmname V nm \<noteq> Some g)
          \<and> v_byte V' = (v_byte V)(g := 0) \<and> v_pid V' = (v_pid V)(g := 0)))"

locale quiet_fs = quiet_os E ok osv me for E :: "'w env" and ok osv me +
  assumes os_open_some: "ok w \<Longrightarrow> posix_name nm \<Longrightarrow> v_semname (osv w) nm = Some k \<Longrightarrow>
      \<exists>h. (v_hsem (osv w) h = None \<or> v_hsem (osv w) h = Some k) \<and>
        gives ok osv (x_sem_open E nm O_RDWR mode val) w (Some h) ((osv w)\<lparr>v_hsem := (v_hsem (osv w))(h := Some k)\<rparr>)"
    and os_open_none: "ok w \<Longrightarrow> posix_name nm \<Longrightarrow> v_semname (osv w) nm = None \<Longrightarrow>
      gives ok osv (x_sem_open E nm O_RDWR mode val) w None (osv w)"
    and os_excl_new: "ok w \<Longrightarrow> posix_name nm \<Longrightarrow> v_semname (osv w) nm = None \<Longrightarrow> unat val \<le> sem_value_max \<Longrightarrow>
      \<exists>h k. v_hsem (osv w) h = None \<and> (\<forall>h'. v_hsem (osv w) h' \<noteq> Some k) \<and> (\<forall>nm'. v_semname (osv w) nm' \<noteq> Some k) \<and>
        gives ok osv (x_sem_open E nm (O_CREAT OR O_EXCL) mode val) w (Some h)
          ((osv w)\<lparr>v_hsem := (v_hsem (osv w))(h := Some k), v_semname := (v_semname (osv w))(nm := Some k),
            v_sem := (v_sem (osv w))(k := unat val)\<rparr>)"
    and os_excl_some: "ok w \<Longrightarrow> posix_name nm \<Longrightarrow> v_semname (osv w) nm = Some k \<Longrightarrow>
      gives ok osv (x_sem_open E nm (O_CREAT OR O_EXCL) mode val) w None (osv w)"
    and os_shm_none: "ok w \<Longrightarrow> posix_name nm \<Longrightarrow> v_shmname (osv w) nm = None \<Longrightarrow>
      \<exists>w'. x_shm_open E nm O_RDWR perm w = Sys (- 1, w') \<and> ok w' \<and> osv w' = osv w \<and> x_errno E w' = ENOENT"
    and os_shm_some: "ok w \<Longrightarrow> fd_room (osv w) 1 \<Longrightarrow> posix_name nm \<Longrightarrow> v_shmname (osv w) nm = Some g \<Longrightarrow>
      flags = O_RDWR \<or> flags = O_RDWR OR O_CREAT \<Longrightarrow>
      \<exists>fd. fd \<noteq> - 1 \<and> v_fd (osv w) fd = None \<and>
        gives ok osv (x_shm_open E nm flags perm) w fd ((osv w)\<lparr>v_fd := (v_fd (osv w))(fd := Some g)\<rparr>)"
    and os_shm_new: "ok w \<Longrightarrow> fd_room (osv w) 1 \<Longrightarrow> posix_name nm \<Longrightarrow> v_shmname (osv w) nm = None \<Longrightarrow>
      \<exists>fd g. fd \<noteq> - 1 \<and> v_fd (osv w) fd = None \<and> (\<forall>a. v_amap (osv w) a \<noteq> Some g) \<and>
        (\<forall>nm'. v_shmname (osv w) nm' \<noteq> Some g) \<and>
        gives ok osv (x_shm_open E nm (O_RDWR OR O_CREAT) perm) w fd
          ((osv w)\<lparr>v_fd := (v_fd (osv w))(fd := Some g), v_shmname := (v_shmname (osv w))(nm := Some g),
            v_byte := (v_byte (osv w))(g := 0), v_pid := (v_pid (osv w))(g := 0)\<rparr>)"
    and os_fchmod: "ok w \<Longrightarrow> v_fd (osv w) fd = Some g \<Longrightarrow> gives ok osv (x_fchmod E fd perm) w 0 (osv w)"
    and os_ftruncate: "ok w \<Longrightarrow> v_fd (osv w) fd = Some g \<Longrightarrow> gives ok osv (x_ftruncate E fd 8) w 0 (osv w)"
    and os_pagesize: "ok w \<Longrightarrow> \<exists>sz. gives ok osv (x_getpagesize E) w sz (osv w)"
    and os_mmap: "ok w \<Longrightarrow> v_fd (osv w) fd = Some g \<Longrightarrow>
      \<exists>a. v_amap (osv w) a = None \<and>
        gives ok osv (x_mmap E sz fd) w (Some a) ((osv w)\<lparr>v_amap := (v_amap (osv w))(a := Some g)\<rparr>)"
    and os_close: "ok w \<Longrightarrow> v_fd (osv w) fd = Some g \<Longrightarrow>
      gives ok osv (x_close E fd) w 0 ((osv w)\<lparr>v_fd := (v_fd (osv w))(fd := None)\<rparr>)"
    and os_sem_close: "ok w \<Longrightarrow> v_hsem (osv w) h = Some k \<Longrightarrow>
      \<exists>hs. (hs = v_hsem (osv w) \<or> hs = (v_hsem (osv w))(h := None)) \<and>
        gives ok osv (x_sem_close E h) w 0 ((osv w)\<lparr>v_hsem := hs\<rparr>)"
    and os_sem_unlink: "ok w \<Longrightarrow> posix_name nm \<Longrightarrow> v_semname (osv w) nm = Some k \<Longrightarrow>
      gives ok osv (x_sem_unlink E nm) w 0 ((osv w)\<lparr>v_semname := (v_semname (osv w))(nm := None)\<rparr>)"
    and os_sem_unlinked: "ok w \<Longrightarrow> posix_name nm \<Longrightarrow> v_semname (osv w) nm = None \<Longrightarrow>
      \<exists>w'. x_sem_unlink E nm w = Sys (- 1, w') \<and> ok w' \<and> osv w' = osv w \<and> x_errno E w' = ENOENT"
    and os_shm_unlink: "ok w \<Longrightarrow> posix_name nm \<Longrightarrow> v_shmname (osv w) nm = Some g \<Longrightarrow>
      gives ok osv (x_shm_unlink E nm) w 0 ((osv w)\<lparr>v_shmname := (v_shmname (osv w))(nm := None)\<rparr>)"
    and os_shm_unlinked: "ok w \<Longrightarrow> posix_name nm \<Longrightarrow> v_shmname (osv w) nm = None \<Longrightarrow>
      \<exists>w'. x_shm_unlink E nm w = Sys (- 1, w') \<and> ok w' \<and> osv w' = osv w \<and> x_errno E w' = ENOENT"
    and os_ld8_errno: "ok w \<Longrightarrow> v_amap (osv w) a = Some g \<Longrightarrow> x_ld8 E a w = Sys (v, w') \<Longrightarrow> x_errno E w' = x_errno E w"
begin

section \<open>Runs with a set of outcomes\<close>

definition evq :: "('w, 'a) cprog \<Rightarrow> 'w cst \<Rightarrow> osview \<Rightarrow> ('a \<Rightarrow> 'w cst \<Rightarrow> osview \<Rightarrow> bool) \<Rightarrow>
    (nat \<Rightarrow> int \<Rightarrow> 'w cst \<Rightarrow> osview \<Rightarrow> bool) \<Rightarrow> bool" where
  "evq m c V Q G = (\<forall>w. ok w \<and> osv w = V \<longrightarrow>
    wp m (\<lambda>v s. ok (wld s) \<and> Q v s (osv (wld s))) (\<lambda>p l s. ok (wld s) \<and> G p l s (osv (wld s))) (\<lambda>_. False)
      (c\<lparr>wld := w\<rparr>))"

lemma evq_wld [simp]: "evq m (c\<lparr>wld := w\<rparr>) V Q G = evq m c V Q G"
  by (simp add: evq_def)

lemma evq_self: "evq m s V Q G \<Longrightarrow> ok (wld s) \<Longrightarrow> V = osv (wld s) \<Longrightarrow>
    wp m (\<lambda>v s. ok (wld s) \<and> Q v s (osv (wld s))) (\<lambda>p l s. ok (wld s) \<and> G p l s (osv (wld s))) (\<lambda>_. False) s"
  by (auto simp: evq_def dest!: spec [of _ "wld s"])

lemma evq_bnd: "evq m c V (\<lambda>v s V'. evq (f v) s V' Q G) G \<Longrightarrow> evq (bnd m f) c V Q G"
  unfolding evq_def [of "bnd m f"] wp_bnd
  by (intro allI impI, simp only: evq_def [of m], drule spec, drule mp, assumption)
    (erule wp_mono, auto intro: evq_self)

lemma evq_sq: "evq m c V (\<lambda>_ s V'. evq n s V' Q G) G \<Longrightarrow> evq (sq m n) c V Q G"
  unfolding sq_def by (rule evq_bnd)

lemma evq_label: "evq m c V Q (\<lambda>p l s V'. evq (h p l) s V' Q G) \<Longrightarrow> evq (at_label m h) c V Q G"
  unfolding evq_def [of "at_label m h"] wp_at_label
  by (intro allI impI, simp only: evq_def [of m], drule spec, drule mp, assumption)
    (erule wp_mono, auto intro: evq_self)

lemma evq_mono: "evq m c V Q G \<Longrightarrow> (\<And>v s V'. Q v s V' \<Longrightarrow> Q' v s V') \<Longrightarrow> (\<And>p l s V'. G p l s V' \<Longrightarrow> G' p l s V') \<Longrightarrow>
    evq m c V Q' G'"
  unfolding evq_def by (elim all_forward imp_forward) (auto elim!: wp_mono)

lemma evq_ev: "ev m c V v c' V' \<Longrightarrow> (\<And>w. Q v (c'\<lparr>wld := w\<rparr>) V') \<Longrightarrow> evq m c V Q G"
  unfolding evq_def ev_def by (fastforce simp: wp_def)

lemma evq_evg: "evg m c V p l c' V' \<Longrightarrow> (\<And>w. G p l (c'\<lparr>wld := w\<rparr>) V') \<Longrightarrow> evq m c V Q G"
  unfolding evq_def evg_def by (fastforce simp: wp_def)

lemma evq_bnd_ev: "ev m c V v c' V' \<Longrightarrow> evq (f v) c' V' Q G \<Longrightarrow> evq (bnd m f) c V Q G"
  by (rule evq_bnd, erule evq_ev) simp

lemma evq_sq_ev: "ev m c V v c' V' \<Longrightarrow> evq n c' V' Q G \<Longrightarrow> evq (sq m n) c V Q G"
  unfolding sq_def by (rule evq_bnd_ev)

lemma evq_ret: "(\<And>w. Q v (c\<lparr>wld := w\<rparr>) V) \<Longrightarrow> evq (ret v) c V Q G"
  by (simp add: evq_def wp_ret)

lemma evq_err: "(\<And>w. G p l (c\<lparr>wld := w\<rparr>) V) \<Longrightarrow> evq (pyx_err p l) c V Q G"
  by (simp add: evq_def wp_pyx_err)

lemma evq_run:
  assumes "evq m c (osv (wld c)) Q G" and "ok (wld c)"
  shows "case m c of Ret v s \<Rightarrow> ok (wld s) \<and> Q v s (osv (wld s)) | Goto p l s \<Rightarrow> ok (wld s) \<and> G p l s (osv (wld s))
    | Stuck u \<Rightarrow> False"
  using evq_self [OF assms(1,2)] by (simp add: wp_def)

lemma evq_apply: "evq m c (osv (wld c)) Q (\<lambda>_ _ _ _. False) \<Longrightarrow> ok (wld c) \<Longrightarrow>
    \<exists>v s. m c = Ret v s \<and> ok (wld s) \<and> Q v s (osv (wld s))"
  by (drule (1) evq_run) (auto split: out.splits)

lemma evq_sysc:
  assumes "\<And>w. ok w \<Longrightarrow> osv w = V \<Longrightarrow> \<exists>r V'. gives ok osv f w r V' \<and> evq (k r) c V' Q G"
  shows "evq (bnd (sysc f) k) c V Q G"
proof (unfold evq_def, intro allI impI)
  fix w assume w: "ok w \<and> osv w = V"
  then obtain r V' where r: "gives ok osv f w r V'" "evq (k r) c V' Q G" using assms by blast
  then obtain w' where w': "f w = Sys (r, w')" "ok w'" "osv w' = V'" by (auto elim: givesE)
  have "wp (k r) (\<lambda>v s. ok (wld s) \<and> Q v s (osv (wld s))) (\<lambda>p l s. ok (wld s) \<and> G p l s (osv (wld s))) (\<lambda>_. False)
      (c\<lparr>wld := w'\<rparr>)"
    using r(2) w'(2,3) by (intro evq_self) simp_all
  then show "wp (bnd (sysc f) k) (\<lambda>v s. ok (wld s) \<and> Q v s (osv (wld s)))
      (\<lambda>p l s. ok (wld s) \<and> G p l s (osv (wld s))) (\<lambda>_. False) (c\<lparr>wld := w\<rparr>)"
    using w'(1) by (simp add: wp_def bnd_def sysc_def)
qed

lemma evq_sysc1: "(\<And>w. ok w \<Longrightarrow> osv w = V \<Longrightarrow> gives ok osv f w r V') \<Longrightarrow> evq (k r) c V' Q G \<Longrightarrow>
    evq (bnd (sysc f) k) c V Q G"
  by (rule evq_sysc) blast

lemma evq_errno: "(\<And>e. evq (k e) c V Q G) \<Longrightarrow> evq (bnd (rd (\<lambda>s. x_errno E (wld s))) k) c V Q G"
  by (simp add: evq_def wp_bnd wp_rd)

lemma ev_self_wr: "objs c n = Some h \<Longrightarrow> ev (self_wr n g) c V () (c\<lparr>objs := (objs c)(n := Some (g h))\<rparr>) V"
  unfolding ev_def
proof (intro allI impI)
  fix w assume "objs c n = Some h" "ok w \<and> osv w = V"
  then show "\<exists>w'. self_wr n g (c\<lparr>wld := w\<rparr>) = Ret () (c\<lparr>objs := (objs c)(n := Some (g h)), wld := w'\<rparr>) \<and> ok w' \<and> osv w' = V"
    by (intro exI [of _ w]) (simp add: self_wr_def)
qed

lemma evq_wr: "objs c n = Some h \<Longrightarrow> evq m (c\<lparr>objs := (objs c)(n := Some (g h))\<rparr>) V Q G \<Longrightarrow> evq (sq (self_wr n g) m) c V Q G"
  by (rule evq_sq_ev [OF ev_self_wr])

lemma evq_field: "objs c n = Some h \<Longrightarrow> evq (f (g h)) c V Q G \<Longrightarrow> evq (bnd (self_rd n g) f) c V Q G"
  by (rule evq_bnd_ev [OF ev_self_rd])

lemma evq_skip: "\<not> b \<Longrightarrow> evq m c V Q G \<Longrightarrow> evq (sq (whn b x) m) c V Q G"
  by (rule evq_sq_ev [OF ev_whn_no])

section \<open>init_mmap\<close>

lemma evq_shm_absent:
  assumes "posix_name loc" and "v_shmname V loc = None" and "objs c n = Some h"
    and "evq (k ENOENT) (c\<lparr>objs := (objs c)(n := Some (h\<lparr>shm_fd := - 1\<rparr>))\<rparr>) V Q G"
  shows "evq (bnd (sysc (x_shm_open E loc O_RDWR perm)) (\<lambda>fd. sq (self_wr n (\<lambda>h. h\<lparr>shm_fd := fd\<rparr>))
    (bnd (rd (\<lambda>s. x_errno E (wld s))) k))) c V Q G"
proof (unfold evq_def, intro allI impI)
  fix w assume "ok w \<and> osv w = V"
  then obtain w' where w: "x_shm_open E loc O_RDWR perm w = Sys (- 1, w')" "ok w'" "osv w' = V" "x_errno E w' = ENOENT"
    using os_shm_none [of w loc perm] assms(1,2) by blast
  have "wp (k ENOENT) (\<lambda>v s. ok (wld s) \<and> Q v s (osv (wld s))) (\<lambda>p l s. ok (wld s) \<and> G p l s (osv (wld s))) (\<lambda>_. False)
      (c\<lparr>wld := w', objs := (objs c)(n := Some (h\<lparr>shm_fd := - 1\<rparr>))\<rparr>)"
    using assms(4) w(2,3) by (intro evq_self) (simp_all add: evq_def)
  then show "wp (bnd (sysc (x_shm_open E loc O_RDWR perm)) (\<lambda>fd. sq (self_wr n (\<lambda>h. h\<lparr>shm_fd := fd\<rparr>))
      (bnd (rd (\<lambda>s. x_errno E (wld s))) k)))
      (\<lambda>v s. ok (wld s) \<and> Q v s (osv (wld s))) (\<lambda>p l s. ok (wld s) \<and> G p l s (osv (wld s))) (\<lambda>_. False) (c\<lparr>wld := w\<rparr>)"
    using w(1,4) assms(3) by (simp add: wp_def bnd_def sq_def sysc_def self_wr_def rd_def)
qed

lemma evq_init_open:
  assumes "posix_name loc" and "objs c n = Some h" and room: "fd_room V 2"
    and opened: "\<And>fd g V' w. shm_opened V loc fd g V' \<Longrightarrow> Q () (c\<lparr>objs := (objs c)(n := Some (h\<lparr>shm_fd := fd\<rparr>)), wld := w\<rparr>) V'"
  shows "evq (init_mmap_open E n loc perm) c V Q G"
proof -
  let ?c = "\<lambda>fd. c\<lparr>objs := (objs c)(n := Some (h\<lparr>shm_fd := fd\<rparr>))\<rparr>"
  let ?create = "bnd (sysc (x_shm_open E loc (O_RDWR OR O_CREAT) perm)) (\<lambda>fd.
        sq (self_wr n (\<lambda>h. h\<lparr>shm_fd := fd\<rparr>))
        (bnd (self_rd n shm_fd) (\<lambda>fd.
         bnd (sysc (x_fchmod E fd perm)) (\<lambda>r.
         whn (r = - 1)
           (bnd (chk 191 (capi E ''PyObject_GetAttr'' ())) (\<lambda>_.
            bnd (chk 191 (pyx_call_checked E (exception_occurred_pw E n (PyStr ''fchmod'')))) (\<lambda>_.
            ret ())))))))"
  have create: "evq ?create (?c fd0) V1 Q G"
    if o: "\<And>w. ok w \<Longrightarrow> osv w = V1 \<Longrightarrow>
        \<exists>fd g V'. gives ok osv (x_shm_open E loc (O_RDWR OR O_CREAT) perm) w fd V' \<and> shm_opened V loc fd g V'"
    for fd0 V1
  proof (rule evq_sysc)
    fix w assume "ok w" "osv w = V1"
    then obtain fd g V' where fg: "gives ok osv (x_shm_open E loc (O_RDWR OR O_CREAT) perm) w fd V'" "shm_opened V loc fd g V'"
      using o by blast
    have f: "v_fd V' fd = Some g" using fg(2) by (simp add: shm_opened_def)
    have "gives ok osv (x_fchmod E fd perm) w 0 V'" if "ok w" "osv w = V'" for w
      using os_fchmod [of w fd g perm] that f by simp
    then have "evq (bnd (sysc (x_fchmod E fd perm)) (\<lambda>r. whn (r = - 1) X)) (?c fd) V' Q G" for X
      by (rule evq_sysc1) (simp_all add: whn_def evq_ret opened [OF fg(2)])
    then have e: "evq (bnd (self_rd n shm_fd) (\<lambda>fd. bnd (sysc (x_fchmod E fd perm)) (\<lambda>r. whn (r = - 1) X))) (?c fd) V' Q G" for X
      by (intro evq_field [where h = "h\<lparr>shm_fd := fd\<rparr>"]) simp_all
    show "\<exists>r V'. gives ok osv (x_shm_open E loc (O_RDWR OR O_CREAT) perm) w r V' \<and>
        evq (sq (self_wr n (\<lambda>h. h\<lparr>shm_fd := r\<rparr>)) (bnd (self_rd n shm_fd) (\<lambda>fd. bnd (sysc (x_fchmod E fd perm)) (\<lambda>r.
          whn (r = - 1) (bnd (chk 191 (capi E ''PyObject_GetAttr'' ())) (\<lambda>_.
            bnd (chk 191 (pyx_call_checked E (exception_occurred_pw E n (PyStr ''fchmod'')))) (\<lambda>_. ret ()))))))) (?c fd0) V' Q G"
      by (rule exI [of _ fd], rule exI [of _ V'], rule conjI [OF fg(1)], rule evq_wr [where h = "h\<lparr>shm_fd := fd0\<rparr>"])
        (simp_all add: e)
  qed
  show ?thesis
  proof (cases "v_shmname V loc")
    case None
    have "\<exists>fd g V'. gives ok osv (x_shm_open E loc (O_RDWR OR O_CREAT) perm) w fd V' \<and> shm_opened V loc fd g V'"
      if w: "ok w" "osv w = V" for w
    proof -
      obtain fd g where fg: "fd \<noteq> - 1" "v_fd V fd = None" "\<forall>a. v_amap V a \<noteq> Some g" "\<forall>nm. v_shmname V nm \<noteq> Some g"
        "gives ok osv (x_shm_open E loc (O_RDWR OR O_CREAT) perm) w fd
          (V\<lparr>v_fd := (v_fd V)(fd := Some g), v_shmname := (v_shmname V)(loc := Some g),
            v_byte := (v_byte V)(g := 0), v_pid := (v_pid V)(g := 0)\<rparr>)"
        using os_shm_new [of w loc perm] assms(1) None w fd_room_less [OF room, of 1] by auto
      show ?thesis
        by (intro exI conjI, rule fg(5)) (use fg(1-4) None in \<open>auto simp: shm_opened_def elim: fd_room_open [OF fd_room_less]\<close>)
    qed
    then show ?thesis unfolding init_mmap_open_def
      by (intro evq_shm_absent [OF assms(1) None assms(2)]) (simp add: whn_def create [unfolded whn_def])
  next
    case (Some g)
    have opn: "\<exists>fd. gives ok osv (x_shm_open E loc flags perm) w fd (V1\<lparr>v_fd := (v_fd V1)(fd := Some g)\<rparr>)
        \<and> fd \<noteq> - 1 \<and> v_fd V1 fd = None"
      if "ok w" "osv w = V1" "flags = O_RDWR \<or> flags = O_RDWR OR O_CREAT" "v_shmname V1 loc = Some g" "fd_room V1 1" for w flags V1
      using os_shm_some [of w loc g flags perm] that assms(1) by blast
    show ?thesis unfolding init_mmap_open_def
    proof (rule evq_sysc)
      fix w assume "ok w" "osv w = V"
      then obtain fd where fd: "gives ok osv (x_shm_open E loc O_RDWR perm) w fd (V\<lparr>v_fd := (v_fd V)(fd := Some g)\<rparr>)"
        "fd \<noteq> - 1" "v_fd V fd = None" using opn [of w V O_RDWR] Some fd_room_less [OF room, of 1] by auto
      let ?V = "V\<lparr>v_fd := (v_fd V)(fd := Some g)\<rparr>"
      have rm: "fd_room V (i + 2) \<Longrightarrow> fd_room ?V (i + 1)" for i by (rule fd_room_open [of V _ ?V fd g]) simp_all
      have rm1: "fd_room ?V 1" by (rule fd_room_open [of V _ ?V fd g]) (use room in \<open>simp_all add: numeral_2_eq_2\<close>)
      have o1: "shm_opened V loc fd g ?V"
        using Some fd fd_room_less [OF rm] by (auto simp: shm_opened_def)
      have "\<exists>fd' g V'. gives ok osv (x_shm_open E loc (O_RDWR OR O_CREAT) perm) w fd' V' \<and> shm_opened V loc fd' g V'"
        if w: "ok w" "osv w = ?V" for w
      proof -
        obtain fd' where f: "gives ok osv (x_shm_open E loc (O_RDWR OR O_CREAT) perm) w fd' (?V\<lparr>v_fd := (v_fd ?V)(fd' := Some g)\<rparr>)"
          "fd' \<noteq> - 1" "v_fd ?V fd' = None"
          using opn [of w ?V "O_RDWR OR O_CREAT"] w Some rm1 by auto
        have "fd_room V (i + 2) \<Longrightarrow> fd_room (?V\<lparr>v_fd := (v_fd ?V)(fd' := Some g)\<rparr>) i" for i
          by (rule fd_room_open [of ?V _ _ fd' g]) (use rm [of i] in simp_all)
        then have "shm_opened V loc fd' g (?V\<lparr>v_fd := (v_fd ?V)(fd' := Some g)\<rparr>)"
          using Some fd f by (auto simp: shm_opened_def)
        then show ?thesis using f(1) by blast
      qed
      then have cr: "evq ?create (?c fd) ?V Q G" by (rule create)
      have e: "evq (whn (e = ENOENT) ?create) (?c fd) ?V Q G" for e
        using cr opened [OF o1] by (simp add: whn_def evq_ret)
      show "\<exists>r V'. gives ok osv (x_shm_open E loc O_RDWR perm) w r V' \<and>
        evq (sq (self_wr n (\<lambda>h. h\<lparr>shm_fd := r\<rparr>)) (bnd (rd (\<lambda>s. x_errno E (wld s))) (\<lambda>errno. whn (errno = ENOENT) ?create)))
          c V' Q G"
        by (rule exI [of _ fd], rule exI [of _ ?V], rule conjI [OF fd(1)], intro evq_wr [OF assms(2)] evq_errno e)
    qed
  qed
qed

end

end
