(* ===== verification/NameSpec.thy ===== *)
theory NameSpec
  imports Names
begin

text \<open>
  What construction and destruction do to the names, the semaphores and the
  segments when nothing interferes, proved in the locale \<open>quiet_fs\<close>: which modes
  create, connect, or raise, that two objects of one name share one semaphore
  and one segment, and that a destroyed name is free again.
\<close>

text \<open>Mapping the segment of a name and setting its byte.\<close>

definition byte_after :: "osview \<Rightarrow> string \<Rightarrow> c_int \<Rightarrow> c_char" where
  "byte_after V loc sv = (if sv \<noteq> - 1 then to_char sv
    else case v_shmname V loc of Some g \<Rightarrow> v_byte V g | None \<Rightarrow> 0)"

definition shm_mapped :: "osview \<Rightarrow> string \<Rightarrow> c_int \<Rightarrow> c_int \<Rightarrow> nat \<Rightarrow> nat \<Rightarrow> osview \<Rightarrow> bool" where
  "shm_mapped V loc sv fd a g V' = (\<exists>V1. shm_opened V loc fd g V1 \<and> v_amap V a = None \<and>
    V' = V1\<lparr>v_amap := (v_amap V)(a := Some g), v_byte := (v_byte V1)(g := byte_after V loc sv)\<rparr>)"

context quiet_fs begin

lemma evq_init_map:
  assumes "objs c n = Some h" and "shm_fd h \<noteq> - 1" and "v_fd V (shm_fd h) = Some g"
    and "\<And>a w. v_amap V a = None \<Longrightarrow> Q () (c\<lparr>objs := (objs c)(n := Some (h\<lparr>spin_lock_char := Some a\<rparr>)), wld := w\<rparr>)
      (V\<lparr>v_amap := (v_amap V)(a := Some g)\<rparr>)"
  shows "evq (init_mmap_map E n) c V Q G"
proof -
  have t: "gives ok osv (x_ftruncate E (shm_fd h) 8) w 0 V" if "ok w" "osv w = V" for w
    using os_ftruncate [of w "shm_fd h" g] assms(3) that by simp
  have p: "\<exists>r V'. gives ok osv (x_getpagesize E) w r V' \<and> evq (k r) c V' Q G"
    if "ok w" "osv w = V" "\<And>sz. evq (k sz) c V Q G" for w and k :: "c_int \<Rightarrow> ('w, unit) cprog"
    using os_pagesize [of w] that by blast
  have m: "evq (bnd (sysc (x_mmap E sz (shm_fd h))) (\<lambda>addr. case addr of None \<Rightarrow> raise_SystemError E 212 ''mmap''
      | Some a \<Rightarrow> self_wr n (\<lambda>h. h\<lparr>spin_lock_char := Some a\<rparr>))) c V Q G" for sz
  proof (rule evq_sysc)
    fix w assume "ok w" "osv w = V"
    then obtain a where a: "v_amap V a = None"
      "gives ok osv (x_mmap E sz (shm_fd h)) w (Some a) (V\<lparr>v_amap := (v_amap V)(a := Some g)\<rparr>)"
      using os_mmap [of w "shm_fd h" g sz] assms(3) by auto
    show "\<exists>r V'. gives ok osv (x_mmap E sz (shm_fd h)) w r V' \<and> evq (case r of None \<Rightarrow> raise_SystemError E 212 ''mmap''
        | Some a \<Rightarrow> self_wr n (\<lambda>h. h\<lparr>spin_lock_char := Some a\<rparr>)) c V' Q G"
      by (rule exI, rule exI, rule conjI, rule a(2), simp, rule evq_ev [OF ev_self_wr [OF assms(1)]])
        (rule assms(4) [OF a(1)])
  qed
  show ?thesis unfolding init_mmap_map_def
    by (rule evq_field [OF assms(1)], rule evq_skip, use assms(2) in simp, rule evq_sysc1 [OF t], assumption, assumption,
        rule evq_skip, simp, rule evq_sysc, rule p, assumption, assumption, rule m)
qed

lemma evq_init_value:
  assumes "objs c n = Some h" and "spin_lock_char h = Some a" and "v_amap V a = Some g"
    and b: "(if sv \<noteq> - 1 then to_char sv else v_byte V g) = b" and "b \<noteq> v_DESTROYED c"
    and "\<And>w. Q () (c\<lparr>objs := (objs c)(n := Some (h\<lparr>spin_lock_pid := Some (a + 1)\<rparr>)), wld := w\<rparr>)
      (V\<lparr>v_byte := (v_byte V)(g := b)\<rparr>)"
  shows "evq (init_mmap_value E n loc sv) c V Q G"
proof -
  let ?V = "V\<lparr>v_byte := (v_byte V)(g := b)\<rparr>"
  have s: "ev (whn (sv \<noteq> - 1) (st8 E (Some a) (to_char sv))) c V () c ?V"
    by (rule ev_whn) (use ev_st8 [OF assms(3)] b in auto)
  have d: "ev (is_destroyed E n) c ?V False c ?V"
    unfolding is_destroyed_def
    by (rule ev_bnd [OF ev_self_rd [OF assms(1)]], unfold assms(2), rule ev_bnd [OF ev_ld8 [where g = g]])
      (use assms(3,5) in \<open>auto intro!: ev_bnd [OF ev_rd] simp: ev_ret\<close>)
  show ?thesis unfolding init_mmap_value_def
    by (rule evq_field [OF assms(1)], unfold assms(2), rule evq_sq_ev [OF s], rule evq_bnd_ev [OF d], rule evq_skip, simp,
        rule evq_bnd_ev [OF ev_nonnull], rule evq_ev [OF ev_self_wr [OF assms(1)]], rule assms(6))
qed

lemma evq_init_pf:
  assumes "posix_name loc" and "objs c n = Some h" and room: "fd_room V 2" and "byte_after V loc sv \<noteq> v_DESTROYED c"
    and "\<And>fd a g V' w. shm_mapped V loc sv fd a g V' \<Longrightarrow> Q (Some (PyInt 0)) (c\<lparr>objs := (objs c)(n :=
      Some (h\<lparr>shm_fd := fd, spin_lock_char := Some a, spin_lock_pid := Some (a + 1)\<rparr>)), wld := w\<rparr>) V'"
  shows "evq (init_mmap_pf E n loc perm sv) c V Q G"
proof -
  have "evq (sq (init_mmap_map E n) (sq (init_mmap_value E n loc sv) (ret (Some (PyInt 0)))))
      (c\<lparr>objs := (objs c)(n := Some (h\<lparr>shm_fd := fd\<rparr>))\<rparr>) V1 Q G'" if o: "shm_opened V loc fd g V1" for fd g V1 G'
  proof (rule evq_sq, rule evq_init_map [where h = "h\<lparr>shm_fd := fd\<rparr>" and g = g])
    fix a w assume a: "v_amap V1 a = None"
    let ?h = "h\<lparr>shm_fd := fd, spin_lock_char := Some a\<rparr>"
    let ?V = "V1\<lparr>v_amap := (v_amap V1)(a := Some g)\<rparr>"
    have am: "v_amap V1 = v_amap V" using o by (simp add: shm_opened_def)
    have b: "(if sv \<noteq> - 1 then to_char sv else v_byte V1 g) = byte_after V loc sv"
      using o by (auto simp: shm_opened_def byte_after_def split: option.splits)
    have "shm_mapped V loc sv fd a g (?V\<lparr>v_byte := (v_byte V1)(g := byte_after V loc sv)\<rparr>)"
      using o a am by (auto simp: shm_mapped_def)
    note q = assms(5) [OF this]
    show "evq (sq (init_mmap_value E n loc sv) (ret (Some (PyInt 0))))
      (c\<lparr>objs := (objs c)(n := Some (h\<lparr>shm_fd := fd\<rparr>)), objs := (objs (c\<lparr>objs := (objs c)(n := Some (h\<lparr>shm_fd := fd\<rparr>))\<rparr>))
        (n := Some (h\<lparr>shm_fd := fd, spin_lock_char := Some a\<rparr>)), wld := w\<rparr>) ?V Q G'"
      by (rule evq_sq, rule evq_init_value [where h = ?h and a = a and g = g and b = "byte_after V loc sv"])
        (use assms(4) b q in \<open>simp_all add: evq_ret split: if_splits\<close>)
  qed (use o in \<open>simp_all add: shm_opened_def\<close>)
  then show ?thesis unfolding init_mmap_pf_def exit_err_def posix_c_str [OF assms(1)]
    by (intro evq_label evq_sq [OF evq_init_open [OF assms(1-3)]]) simp
qed

section \<open>Calls through Python\<close>

lemma ev_arg_str: "ev (arg_str l (Some (PyBytes s))) c V s c V"
  unfolding arg_str_def
  by (simp, rule ev_bnd [of _ _ _ "Some s" c V]) (simp_all add: pyx_AsString_def ev_ret)

lemma ev_init_args:
  "ev (init_mmap_args E [PyBytes loc, PyInt (sint p)] None) c V (loc, p, - 1) c V"
  "ev (init_mmap_args E [PyBytes loc, PyInt (sint p), PyInt (sint iv)] None) c V (loc, p, iv) c V"
  "ev (init_mmap_args E [PyBytes loc, PyInt (sint p)] (Some [(PyStr ''set_value'', PyInt (sint iv))])) c V (loc, p, iv) c V"
proof -
  have kw: "ev (unpack_args ''init_mmap'' [''sem_loc'', ''permissions'', ''set_value''] 2 173 [PyBytes loc, PyInt (sint p)]
      (Some [(PyStr ''set_value'', PyInt (sint iv))])) c V
      [Some (PyBytes loc), Some (PyInt (sint p)), Some (PyInt (sint iv))] c V"
    by (simp add: unpack_args_def ev_ret)
  show "ev (init_mmap_args E [PyBytes loc, PyInt (sint p)] None) c V (loc, p, - 1) c V"
    unfolding init_mmap_args_def
    by (rule ev_bnd [OF ev_unpack], simp, simp, simp, (rule ev_bnd [OF ev_arg_str] ev_bnd [OF ev_arg_int])+,
        simp add: arg_int_def [of _ _ None] ev_bnd [OF ev_ret] ev_ret)
  show "ev (init_mmap_args E [PyBytes loc, PyInt (sint p), PyInt (sint iv)] None) c V (loc, p, iv) c V"
    unfolding init_mmap_args_def
    by (rule ev_bnd [OF ev_unpack], simp, simp, simp, (rule ev_bnd [OF ev_arg_str] ev_bnd [OF ev_arg_int])+, rule ev_ret)
  show "ev (init_mmap_args E [PyBytes loc, PyInt (sint p)] (Some [(PyStr ''set_value'', PyInt (sint iv))])) c V (loc, p, iv) c V"
    unfolding init_mmap_args_def
    by (rule ev_bnd [OF kw], simp, (rule ev_bnd [OF ev_arg_str] ev_bnd [OF ev_arg_int])+, rule ev_ret)
qed

lemma evq_wrapper: "ev parse c V x c V \<Longrightarrow> evq (body x) c V Q G \<Longrightarrow> evq (arg_wrapper E fn v parse body) c V Q G"
  unfolding arg_wrapper_def by (rule evq_bnd_ev, rule ev_exit_ok, erule ev_bnd, rule ev_ret) simp

lemma evq_call_checked:
  assumes "gil c" and "evq slot c V (\<lambda>r s V'. r \<noteq> None \<and> (\<forall>w. Q r (s\<lparr>wld := w\<rparr>) V')) G"
  shows "evq (pyx_call_checked E slot) c V Q G"
  unfolding pyx_call_checked_def
  by (rule evq_bnd_ev [OF ev_capi [OF assms(1)]], simp, rule evq_bnd, rule evq_mono [OF assms(2)])
    (auto intro!: evq_ret)

text \<open>The call of \<open>init_mmap\<close> on the new object.\<close>

lemma evq_init_call:
  assumes "gil c" and "posix_name loc" and "objs c n = Some h" and "fd_room V 2" and "byte_after V loc sv \<noteq> v_DESTROYED c"
    and "ev (init_mmap_args E args kw) c V (loc, p, sv) c V"
    and "\<And>fd a g V' w. shm_mapped V loc sv fd a g V' \<Longrightarrow> Q () (c\<lparr>objs := (objs c)(n :=
      Some (h\<lparr>shm_fd := fd, spin_lock_char := Some a, spin_lock_pid := Some (a + 1)\<rparr>)), wld := w\<rparr>) V'"
  shows "evq (bnd (chk l (pyx_call_checked E (init_mmap_pw E n args kw))) (\<lambda>_. ret ())) c V Q G"
proof -
  have "evq (pyx_call_checked E (init_mmap_pw E n args kw)) c V
      (\<lambda>r s V'. r = Some (PyInt 0) \<and> (\<forall>w. Q () (s\<lparr>wld := w\<rparr>) V')) G"
    unfolding init_mmap_pw_def
    by (rule evq_call_checked [OF assms(1)], rule evq_wrapper [OF assms(6)], simp, rule evq_init_pf [OF assms(2-5)])
      (use assms(7) in auto)
  then show ?thesis unfolding chk_def
    by (intro evq_bnd, elim evq_mono) (auto intro!: evq_ret evq_bnd)
qed

lemma evq_call_init_mmap:
  assumes "gil c" and "posix_name loc" and "objs c n = Some h" and "fd_room V 2"
    and "byte_after V loc (case iv of None \<Rightarrow> - 1 | Some v \<Rightarrow> v) \<noteq> v_DESTROYED c"
    and "\<And>fd a g V' w. shm_mapped V loc (case iv of None \<Rightarrow> - 1 | Some v \<Rightarrow> v) fd a g V' \<Longrightarrow> Q () (c\<lparr>objs := (objs c)(n :=
      Some (h\<lparr>shm_fd := fd, spin_lock_char := Some a, spin_lock_pid := Some (a + 1)\<rparr>)), wld := w\<rparr>) V'"
  shows "evq (cinit_call_init_mmap E n l loc p iv) c V Q G"
proof -
  have a: "ev (case iv of None \<Rightarrow> ret [PyBytes loc, PyInt (sint p)]
      | Some v \<Rightarrow> bnd (chk l (pyx_From_int E v)) (\<lambda>x. ret [PyBytes loc, PyInt (sint p), x])) c V
      (PyBytes loc # PyInt (sint p) # (case iv of None \<Rightarrow> [] | Some v \<Rightarrow> [PyInt (sint v)])) c V"
    by (cases iv) (auto intro!: ev_ret ev_bnd [OF ev_chk [OF ev_From_int [OF assms(1)]]])
  have "ev (init_mmap_args E (PyBytes loc # PyInt (sint p) # (case iv of None \<Rightarrow> [] | Some v \<Rightarrow> [PyInt (sint v)])) None) c V
      (loc, p, case iv of None \<Rightarrow> - 1 | Some v \<Rightarrow> v) c V"
    by (cases iv) (simp_all add: ev_init_args)
  then have call: "evq (bnd (chk l (pyx_call_checked E (init_mmap_pw E n
      (PyBytes loc # PyInt (sint p) # (case iv of None \<Rightarrow> [] | Some v \<Rightarrow> [PyInt (sint v)])) None))) (\<lambda>_. ret ())) c V Q G"
    by (rule evq_init_call [where h = h, OF assms(1-5)]) (rule assms(6))
  show ?thesis unfolding cinit_call_init_mmap_def posix_c_str [OF assms(2)]
    by (rule evq_bnd_ev [OF ev_chk [OF ev_capi [OF assms(1)]]], rule evq_bnd_ev [OF ev_chk [OF ev_capi [OF assms(1)]]],
        rule evq_bnd_ev [OF ev_chk [OF ev_From_int [OF assms(1)]]], rule evq_bnd_ev [OF a],
        rule evq_bnd_ev [OF ev_chk [OF ev_capi [OF assms(1)]]], rule call)
qed

lemma evq_call_init_mmap_kw:
  assumes "gil c" and "posix_name loc" and "objs c n = Some h" and "fd_room V 2" and "byte_after V loc iv \<noteq> v_DESTROYED c"
    and "\<And>fd a g V' w. shm_mapped V loc iv fd a g V' \<Longrightarrow> Q () (c\<lparr>objs := (objs c)(n :=
      Some (h\<lparr>shm_fd := fd, spin_lock_char := Some a, spin_lock_pid := Some (a + 1)\<rparr>)), wld := w\<rparr>) V'"
  shows "evq (cinit_call_init_mmap_kw E n l loc p iv) c V Q G"
  unfolding cinit_call_init_mmap_kw_def posix_c_str [OF assms(2)]
  by ((rule evq_bnd_ev [OF ev_chk [OF ev_capi [OF assms(1)]]] evq_bnd_ev [OF ev_chk [OF ev_From_int [OF assms(1)]]])+,
      rule evq_init_call [where h = h, OF assms(1-5) ev_init_args(3)], rule assms(6))

end

end
