(* ===== verification/Construct.thy ===== *)
theory Construct
  imports NameSpec
begin

text \<open>
  The constructor on a quiet system, mode by mode, from the call of the class:
  which modes create, which connect, which raise, and what the new object
  shares with the objects of the same name.
\<close>

unbundle bit_operations_syntax

section \<open>The outcome of a construction\<close>

text \<open>The state with the object and the copy of the name allocated.\<close>

definition allocd :: "'w cst \<Rightarrow> string \<Rightarrow> 'w cst" where
  "allocd c loc = c\<lparr>nobj := Suc (nobj c), objs := (objs c)(nobj c := Some (hlock_zero\<lparr>cleaned_up := 1, sem_loc := Some (nmem c)\<rparr>)),
    cmem := (cmem c)(nmem c := Some (length loc + 1, loc)), nmem := Suc (nmem c)\<rparr>"

text \<open>The new object, with its semaphore, its descriptor and its mapping.\<close>

definition new_hlock :: "nat \<Rightarrow> nat \<Rightarrow> c_int \<Rightarrow> nat \<Rightarrow> hlock" where
  "new_hlock p h fd a = \<lparr>semaphore = Some h, cleaned_up = 0, spin_lock_char = Some a, spin_lock_pid = Some (a + 1),
    shm_fd = fd, sem_loc = Some p\<rparr>"

text \<open>An object once it is attached to its semaphore and its segment.\<close>

definition att :: "hlock \<Rightarrow> nat \<Rightarrow> c_int \<Rightarrow> nat \<Rightarrow> hlock" where
  "att x h fd a = x\<lparr>semaphore := Some h, shm_fd := fd, spin_lock_char := Some a, spin_lock_pid := Some (a + 1)\<rparr>"

text \<open>Opening the semaphore of a name, and creating it with the count \<open>v\<close>.\<close>

definition sem_conn :: "osview \<Rightarrow> string \<Rightarrow> nat \<Rightarrow> nat \<Rightarrow> osview \<Rightarrow> bool" where
  "sem_conn V loc h k V' = (v_semname V loc = Some k \<and> (v_hsem V h = None \<or> v_hsem V h = Some k)
    \<and> V' = V\<lparr>v_hsem := (v_hsem V)(h := Some k)\<rparr>)"

definition sem_made :: "osview \<Rightarrow> string \<Rightarrow> nat \<Rightarrow> nat \<Rightarrow> nat \<Rightarrow> osview \<Rightarrow> bool" where
  "sem_made V loc v h k V' = (v_semname V loc = None \<and> v_hsem V h = None \<and> (\<forall>h'. v_hsem V h' \<noteq> Some k)
    \<and> (\<forall>nm. v_semname V nm \<noteq> Some k)
    \<and> V' = V\<lparr>v_hsem := (v_hsem V)(h := Some k), v_semname := (v_semname V)(loc := Some k), v_sem := (v_sem V)(k := v)\<rparr>)"

text \<open>The arguments \<open>(sem_loc, mode, initial_value, permissions)\<close> of a call of the class.\<close>

abbreviation cinit_list :: "string \<Rightarrow> c_int \<Rightarrow> c_int \<Rightarrow> c_int \<Rightarrow> pyobj list" where
  "cinit_list loc mode iv perm \<equiv> [PyBytes loc, PyInt (sint mode), PyInt (sint iv), PyInt (sint perm)]"

context quiet_fs
begin

section \<open>The parts\<close>

lemma ev_run: "(\<And>w. m (c\<lparr>wld := w\<rparr>) = Ret v (c'\<lparr>wld := w\<rparr>)) \<Longrightarrow> ev m c V v c' V"
  by (auto simp: ev_def)

lemma ev_alloc_body:
  assumes "objs c n = Some h" and "posix_name loc"
  shows "ev (cinit_alloc E n loc) c V () (c\<lparr>objs := (objs c)(n := Some (h\<lparr>cleaned_up := 1, sem_loc := Some (nmem c)\<rparr>)),
    cmem := (cmem c)(nmem c := Some (length loc + 1, loc)), nmem := Suc (nmem c)\<rparr>) V"
proof -
  let ?c1 = "c\<lparr>objs := (objs c)(n := Some (h\<lparr>cleaned_up := 1\<rparr>))\<rparr>"
  let ?c2 = "?c1\<lparr>cmem := (cmem c)(nmem c := Some (length loc + 1, [])), nmem := Suc (nmem c)\<rparr>"
  let ?c3 = "?c2\<lparr>objs := (objs c)(n := Some (h\<lparr>cleaned_up := 1, sem_loc := Some (nmem c)\<rparr>))\<rparr>"
  let ?c4 = "?c3\<lparr>cmem := (cmem c)(nmem c := Some (length loc + 1, loc))\<rparr>"
  have m: "ev (c_malloc E (length loc + 1)) ?c1 V (Some (nmem c)) ?c2 V"
    unfolding c_malloc_def by (rule ev_bnd [OF ev_malloc], rule ev_run) simp
  have w: "ev (self_wr n (\<lambda>h. h\<lparr>sem_loc := Some (nmem c)\<rparr>)) ?c2 V () ?c3 V"
    using ev_self_wr [of ?c2 n "h\<lparr>cleaned_up := 1\<rparr>"] by simp
  have r: "ev (self_rd n sem_loc) ?c3 V (Some (nmem c)) ?c3 V"
    using ev_self_rd [of ?c3 n "h\<lparr>cleaned_up := 1, sem_loc := Some (nmem c)\<rparr>" sem_loc] by simp
  have s: "ev (c_strcpy (Some (nmem c)) loc) ?c3 V (Some (nmem c)) ?c4 V"
    unfolding c_strcpy_def by (rule ev_bnd [OF ev_nonnull], rule ev_run) simp
  have "ev (cinit_alloc E n loc) c V () ?c4 V"
    unfolding cinit_alloc_def posix_c_str [OF assms(2)]
    by (rule ev_sq [OF ev_self_wr [OF assms(1)]], rule ev_bnd [OF m], rule ev_sq [OF w], rule ev_sq [OF ev_whn_no],
        simp, rule ev_bnd [OF r], rule ev_bnd [OF s], rule ev_whn_no) simp
  moreover have "?c4 = c\<lparr>objs := (objs c)(n := Some (h\<lparr>cleaned_up := 1, sem_loc := Some (nmem c)\<rparr>)),
    cmem := (cmem c)(nmem c := Some (length loc + 1, loc)), nmem := Suc (nmem c)\<rparr>"
    by simp
  ultimately show ?thesis by (simp only:)
qed

lemma ev_mode_is:
  assumes "gil c" and "mdict c nm = Some (PyInt j)"
  shows "ev (cinit_mode_is E l mode nm) c V (sint mode = j) c V"
  unfolding cinit_mode_is_def
  by (rule ev_bnd [OF ev_chk [OF ev_From_int [OF assms(1)]]], rule ev_bnd [OF ev_chk [OF ev_global [OF assms]]],
      simp only: api_richcompare_eq_def prod.case pyobj.case, rule ev_bnd [OF ev_chk [OF ev_capi [OF assms(1)]]])
    (simp add: pyx_IsTrue_def ev_chk ev_ret)

lemma evq_sem_open_some:
  assumes "posix_name loc" and "objs c n = Some x" and "v_semname V loc = Some k"
    and "\<And>h V' w. sem_conn V loc h k V' \<Longrightarrow>
      Q () (c\<lparr>objs := (objs c)(n := Some (x\<lparr>semaphore := Some h\<rparr>)), wld := w\<rparr>) V'"
  shows "evq (cinit_sem_open E n loc O_RDWR perm iv) c V Q G"
  unfolding cinit_sem_open_def posix_c_str [OF assms(1)]
proof (rule evq_sysc)
  fix w assume "ok w" "osv w = V"
  then obtain h where h: "v_hsem V h = None \<or> v_hsem V h = Some k"
    "gives ok osv (x_sem_open E loc O_RDWR perm iv) w (Some h) (V\<lparr>v_hsem := (v_hsem V)(h := Some k)\<rparr>)"
    using os_open_some [of w loc k perm iv] assms(1,3) by auto
  show "\<exists>r V'. gives ok osv (x_sem_open E loc O_RDWR perm iv) w r V' \<and>
      evq (self_wr n (\<lambda>h. h\<lparr>semaphore := r\<rparr>)) c V' Q G"
    by (intro exI conjI, rule h(2), rule evq_ev [OF ev_self_wr [OF assms(2)]], rule assms(4))
      (use h(1) assms(3) in \<open>simp add: sem_conn_def\<close>)
qed

lemma evq_sem_open_new:
  assumes "posix_name loc" and "objs c n = Some x" and "v_semname V loc = None" and "unat iv \<le> sem_value_max"
    and "\<And>h k V' w. sem_made V loc (unat iv) h k V' \<Longrightarrow>
      Q () (c\<lparr>objs := (objs c)(n := Some (x\<lparr>semaphore := Some h\<rparr>)), wld := w\<rparr>) V'"
  shows "evq (cinit_sem_open E n loc (O_CREAT OR O_EXCL) perm iv) c V Q G"
  unfolding cinit_sem_open_def posix_c_str [OF assms(1)]
proof (rule evq_sysc)
  fix w assume "ok w" "osv w = V"
  then obtain h k where h: "v_hsem V h = None" "\<forall>h'. v_hsem V h' \<noteq> Some k" "\<forall>nm'. v_semname V nm' \<noteq> Some k"
    "gives ok osv (x_sem_open E loc (O_CREAT OR O_EXCL) perm iv) w (Some h)
      (V\<lparr>v_hsem := (v_hsem V)(h := Some k), v_semname := (v_semname V)(loc := Some k), v_sem := (v_sem V)(k := unat iv)\<rparr>)"
    using os_excl_new [of w loc iv perm] assms(1,3,4) by auto
  show "\<exists>r V'. gives ok osv (x_sem_open E loc (O_CREAT OR O_EXCL) perm iv) w r V' \<and>
      evq (self_wr n (\<lambda>h. h\<lparr>semaphore := r\<rparr>)) c V' Q G"
    by (intro exI conjI, rule h(4), rule evq_ev [OF ev_self_wr [OF assms(2)]], rule assms(5))
      (use h(1-3) assms(3) in \<open>simp add: sem_made_def\<close>)
qed

lemma ev_sem_open_null:
  assumes "objs c n = Some x"
    and "\<And>w. ok w \<Longrightarrow> osv w = V \<Longrightarrow> gives ok osv (x_sem_open E (c_str loc) fl perm iv) w None V"
  shows "ev (cinit_sem_open E n loc fl perm iv) c V () (c\<lparr>objs := (objs c)(n := Some (x\<lparr>semaphore := None\<rparr>))\<rparr>) V"
  unfolding cinit_sem_open_def by (rule ev_bnd [OF ev_sysc [OF assms(2)]]) (simp_all add: ev_self_wr assms(1))

lemma ev_sem_open_absent: "posix_name loc \<Longrightarrow> objs c n = Some x \<Longrightarrow> v_semname V loc = None \<Longrightarrow>
    ev (cinit_sem_open E n loc O_RDWR perm iv) c V () (c\<lparr>objs := (objs c)(n := Some (x\<lparr>semaphore := None\<rparr>))\<rparr>) V"
  by (rule ev_sem_open_null) (use os_open_none in auto)

lemma ev_sem_open_taken: "posix_name loc \<Longrightarrow> objs c n = Some x \<Longrightarrow> v_semname V loc = Some k \<Longrightarrow>
    ev (cinit_sem_open E n loc (O_CREAT OR O_EXCL) perm iv) c V () (c\<lparr>objs := (objs c)(n := Some (x\<lparr>semaphore := None\<rparr>))\<rparr>) V"
  by (rule ev_sem_open_null) (use os_excl_some in auto)

lemma ev_null_ok: "objs c n = Some x \<Longrightarrow> semaphore x = Some h \<Longrightarrow> ev (cinit_null_raises E n l nm loc) c V () c V"
  unfolding cinit_null_raises_def by (erule ev_bnd [OF ev_self_rd]) (simp add: ev_whn_no)

lemma evg_null_raises:
  assumes "objs c n = Some x" and "semaphore x = None" and "gil c" and "mdict c nm = Some (PyCls k)" and "exc_class k"
    and "posix_name loc"
  shows "evg (cinit_null_raises E n l nm loc) c V 0 l (raised k [PyBytes loc] c) V"
proof -
  have e: "ev (pyx_PyObject_CallOneArg E (PyCls k) (PyBytes loc)) c V (Some (PyExc k [PyBytes loc])) c V"
    using ev_call_args [OF assms(3,5), of "[PyBytes loc]" V] by (simp add: call_args_def)
  show ?thesis unfolding cinit_null_raises_def posix_c_str [OF assms(6)] raised_def
    by (rule evg_bnd2 [OF ev_self_rd [OF assms(1)]], rule evg_whn, rule assms(2),
        rule evg_bnd2 [OF ev_chk [OF ev_global [OF assms(3,4)]]], rule evg_bnd2 [OF ev_chk [OF ev_capi [OF assms(3)]]],
        rule evg_bnd2 [OF ev_chk [OF e]], rule evg_sq2 [OF ev_raise [OF assms(3,5)]], rule evg_err)
qed

section \<open>The modes\<close>

lemma iv_byte: "unat iv \<le> sem_value_max \<Longrightarrow> byte_after V loc iv = to_char iv"
proof -
  assume "unat iv \<le> sem_value_max"
  moreover have "unat (- 1 :: c_int) = 4294967295" by (simp add: unsigned_minus_1_eq_mask mask_eq_exp_minus_1)
  ultimately have "iv \<noteq> - 1" by (auto simp: sem_value_max_def)
  then show ?thesis by (simp add: byte_after_def)
qed

lemma room_conn: "sem_conn V loc h k V1 \<Longrightarrow> fd_room V1 n = fd_room V n" "sem_made V loc v h k V1 \<Longrightarrow> fd_room V1 n = fd_room V n"
  by (auto simp: sem_conn_def sem_made_def intro!: fd_room_cong)

lemma byte_after_conn: "sem_conn V loc h k V1 \<Longrightarrow> byte_after V1 nm sv = byte_after V nm sv"
  by (auto simp: sem_conn_def byte_after_def split: option.split)

lemma evq_create:
  assumes "gil c" and "posix_name loc" and "objs c n = Some x" and "v_semname V loc = None"
    and "unat iv \<le> sem_value_max" and "to_char iv \<noteq> v_DESTROYED c"
    and room: "fd_room V 2"
    and fin: "\<And>h k V1 fd a g V' w. sem_made V loc (unat iv) h k V1 \<Longrightarrow> shm_mapped V1 loc iv fd a g V' \<Longrightarrow>
      Q () (c\<lparr>objs := (objs c)(n := Some (att x h fd a)), wld := w\<rparr>) V'"
  shows "evq (sq (cinit_sem_open E n loc (O_CREAT OR O_EXCL) perm iv) (sq (cinit_null_raises E n l nm loc)
    (cinit_call_init_mmap_kw E n l' loc perm iv))) c V Q G"
proof (rule evq_sq, rule evq_sem_open_new [OF assms(2-5)])
  fix h k V1 w assume m: "sem_made V loc (unat iv) h k V1"
  let ?x = "x\<lparr>semaphore := Some h\<rparr>"
  show "evq (sq (cinit_null_raises E n l nm loc) (cinit_call_init_mmap_kw E n l' loc perm iv))
      (c\<lparr>objs := (objs c)(n := Some ?x), wld := w\<rparr>) V1 Q G"
    unfolding evq_wld
  proof (rule evq_sq_ev, rule ev_null_ok [where x = ?x], simp, simp,
      rule evq_call_init_mmap_kw [where h = ?x])
    fix fd a g V' w assume "shm_mapped V1 loc iv fd a g V'"
    note q = fin [OF m this, of w]
    then show "Q () (c\<lparr>objs := (objs c)(n := Some ?x), objs := (objs (c\<lparr>objs := (objs c)(n := Some ?x)\<rparr>))
        (n := Some (?x\<lparr>shm_fd := fd, spin_lock_char := Some a, spin_lock_pid := Some (a + 1)\<rparr>)), wld := w\<rparr>) V'"
      by (simp add: att_def)
  qed (use assms room_conn(2) [OF m] in \<open>simp_all add: iv_byte\<close>)
qed

lemma evq_connected:
  assumes "gil c" and "posix_name loc" and "objs c n = Some x" and "v_semname V loc = Some k"
    and "byte_after V loc (- 1) \<noteq> v_DESTROYED c"
    and room: "fd_room V 2"
    and fin: "\<And>h V1 fd a g V' w. sem_conn V loc h k V1 \<Longrightarrow> shm_mapped V1 loc (- 1) fd a g V' \<Longrightarrow>
      Q () (c\<lparr>objs := (objs c)(n := Some (att x h fd a)), wld := w\<rparr>) V'"
  shows "evq (cinit_connect_existing E n loc iv perm) c V Q G"
    and "evq (cinit_connect_or_create E n loc iv perm) c V Q G"
proof -
  have call: "evq (cinit_call_init_mmap E n l loc perm None) (c\<lparr>objs := (objs c)(n := Some (x\<lparr>semaphore := Some h\<rparr>))\<rparr>) V1 Q G"
    if m: "sem_conn V loc h k V1" for l h V1
  proof (rule evq_call_init_mmap [where h = "x\<lparr>semaphore := Some h\<rparr>"])
    let ?x = "x\<lparr>semaphore := Some h\<rparr>"
    fix fd a g V' w assume "shm_mapped V1 loc (case None of None \<Rightarrow> - 1 | Some v \<Rightarrow> v) fd a g V'"
    then have "shm_mapped V1 loc (- 1) fd a g V'" by simp
    note q = fin [OF m this, of w]
    then show "Q () (c\<lparr>objs := (objs c)(n := Some ?x), objs := (objs (c\<lparr>objs := (objs c)(n := Some ?x)\<rparr>))
        (n := Some (?x\<lparr>shm_fd := fd, spin_lock_char := Some a, spin_lock_pid := Some (a + 1)\<rparr>)), wld := w\<rparr>) V'"
      by (simp add: att_def)
  qed (use assms byte_after_conn [OF m] room_conn(1) [OF m] in simp_all)
  show "evq (cinit_connect_existing E n loc iv perm) c V Q G"
    unfolding cinit_connect_existing_def
    by (rule evq_sq, rule evq_sem_open_some [OF assms(2-4)], unfold evq_wld) (simp add: evq_sq_ev [OF ev_null_ok] call)
  show "evq (cinit_connect_or_create E n loc iv perm) c V Q G"
    unfolding cinit_connect_or_create_def
  proof (rule evq_sq, rule evq_sem_open_some [OF assms(2-4)], unfold evq_wld)
    fix h V1 assume "sem_conn V loc h k V1"
    then show "evq (bnd (self_rd n semaphore) (\<lambda>sm. if sm = None then
       sq (cinit_sem_open E n loc (O_CREAT OR O_EXCL) 0x1B6 iv) (cinit_call_init_mmap E n 100 loc perm (Some iv))
     else cinit_call_init_mmap E n 103 loc perm None)) (c\<lparr>objs := (objs c)(n := Some (x\<lparr>semaphore := Some h\<rparr>))\<rparr>) V1 Q G"
      by (intro evq_field [where h = "x\<lparr>semaphore := Some h\<rparr>"]) (simp_all add: call)
  qed
qed

lemma evq_or_create_new:
  assumes "gil c" and "posix_name loc" and "objs c n = Some x" and "v_semname V loc = None"
    and "unat iv \<le> sem_value_max" and "to_char iv \<noteq> v_DESTROYED c"
    and room: "fd_room V 2"
    and fin: "\<And>h k V1 fd a g V' w. sem_made V loc (unat iv) h k V1 \<Longrightarrow> shm_mapped V1 loc iv fd a g V' \<Longrightarrow>
      Q () (c\<lparr>objs := (objs c)(n := Some (att x h fd a)), wld := w\<rparr>) V'"
  shows "evq (cinit_connect_or_create E n loc iv perm) c V Q G"
proof -
  let ?x0 = "x\<lparr>semaphore := None\<rparr>"
  have call: "evq (cinit_call_init_mmap E n l loc perm (Some iv)) (c\<lparr>objs := (objs c)(n := Some (x\<lparr>semaphore := Some h\<rparr>))\<rparr>) V1 Q G"
    if m: "sem_made V loc (unat iv) h k V1" for l h k V1
  proof (rule evq_call_init_mmap [where h = "x\<lparr>semaphore := Some h\<rparr>"])
    let ?x = "x\<lparr>semaphore := Some h\<rparr>"
    fix fd a g V' w assume "shm_mapped V1 loc (case Some iv of None \<Rightarrow> - 1 | Some v \<Rightarrow> v) fd a g V'"
    then have "shm_mapped V1 loc iv fd a g V'" by simp
    note q = fin [OF m this, of w]
    then show "Q () (c\<lparr>objs := (objs c)(n := Some ?x), objs := (objs (c\<lparr>objs := (objs c)(n := Some ?x)\<rparr>))
        (n := Some (?x\<lparr>shm_fd := fd, spin_lock_char := Some a, spin_lock_pid := Some (a + 1)\<rparr>)), wld := w\<rparr>) V'"
      by (simp add: att_def)
  qed (use assms room_conn(2) [OF m] in \<open>simp_all add: iv_byte\<close>)
  show ?thesis unfolding cinit_connect_or_create_def
    by (rule evq_sq_ev [OF ev_sem_open_absent [OF assms(2-4)]], rule evq_field, simp, simp, rule evq_sq,
        rule evq_sem_open_new [where x = ?x0])
      (use assms(2,4,5) call in simp_all)
qed

section \<open>The call of the class\<close>

lemma evq_dispatch:
  assumes "gil c" and "std_module c"
  shows "evq (cinit_connect_or_create E n loc iv perm) c V Q G \<Longrightarrow> evq (cinit_dispatch E nl n loc 0 iv perm) c V Q G"
    and "evq (cinit_connect_existing E n loc iv perm) c V Q G \<Longrightarrow> evq (cinit_dispatch E nl n loc 1 iv perm) c V Q G"
    and "evq (cinit_create_overwrite E nl n loc iv perm) c V Q G \<Longrightarrow> evq (cinit_dispatch E nl n loc 2 iv perm) c V Q G"
    and "evq (cinit_create_exclusive E n loc iv perm) c V Q G \<Longrightarrow> evq (cinit_dispatch E nl n loc 3 iv perm) c V Q G"
proof -
  have m: "mdict c ''CONNECT_OR_CREATE'' = Some (PyInt 0)" "mdict c ''CONNECT_TO_EXISTING'' = Some (PyInt 1)"
    "mdict c ''CREATE_NEW_EXCLUSIVE'' = Some (PyInt 3)" "mdict c ''CREATE_NEW_OVERWRITE'' = Some (PyInt 2)"
    using assms(2) by (simp_all add: std_module_def)
  note t = ev_mode_is [OF assms(1) m(1), of _ "0 :: c_int"] ev_mode_is [OF assms(1) m(1), of _ "1 :: c_int"]
    ev_mode_is [OF assms(1) m(1), of _ "2 :: c_int"] ev_mode_is [OF assms(1) m(1), of _ "3 :: c_int"]
    ev_mode_is [OF assms(1) m(2), of _ "1 :: c_int"] ev_mode_is [OF assms(1) m(2), of _ "2 :: c_int"]
    ev_mode_is [OF assms(1) m(2), of _ "3 :: c_int"] ev_mode_is [OF assms(1) m(3), of _ "2 :: c_int"]
    ev_mode_is [OF assms(1) m(3), of _ "3 :: c_int"] ev_mode_is [OF assms(1) m(4), of _ "2 :: c_int"]
  show "evq (cinit_connect_or_create E n loc iv perm) c V Q G \<Longrightarrow> evq (cinit_dispatch E nl n loc 0 iv perm) c V Q G"
    unfolding cinit_dispatch_def by (rule evq_bnd_ev [OF t(1)]) simp
  show "evq (cinit_connect_existing E n loc iv perm) c V Q G \<Longrightarrow> evq (cinit_dispatch E nl n loc 1 iv perm) c V Q G"
    unfolding cinit_dispatch_def by (rule evq_bnd_ev [OF t(2)], simp, rule evq_bnd_ev [OF t(5)]) simp
  show "evq (cinit_create_exclusive E n loc iv perm) c V Q G \<Longrightarrow> evq (cinit_dispatch E nl n loc 3 iv perm) c V Q G"
    unfolding cinit_dispatch_def
    by (rule evq_bnd_ev [OF t(4)], simp, rule evq_bnd_ev [OF t(7)], simp, rule evq_bnd_ev [OF t(9)]) simp
  show "evq (cinit_create_overwrite E nl n loc iv perm) c V Q G \<Longrightarrow> evq (cinit_dispatch E nl n loc 2 iv perm) c V Q G"
    unfolding cinit_dispatch_def
    by (rule evq_bnd_ev [OF t(3)], simp, rule evq_bnd_ev [OF t(6)], simp, rule evq_bnd_ev [OF t(8)], simp,
        rule evq_bnd_ev [OF t(10)]) simp
qed

lemma ev_cinit_args:
  "ev (cinit_args E [PyBytes loc, PyInt (sint mode), PyInt (sint iv), PyInt (sint perm)] None) c V (loc, mode, iv, perm) c V"
  unfolding cinit_args_def
  by (rule ev_bnd [OF ev_unpack], simp, simp, simp, (rule ev_bnd [OF ev_arg_str] ev_bnd [OF ev_arg_int])+,
      rule ev_bnd [OF ev_rd], simp, (rule ev_bnd [OF ev_arg_int])+, rule ev_ret)

lemma ev_hl_alloc: "ev hl_alloc c V (nobj c)
    (c\<lparr>objs := (objs c)(nobj c := Some hlock_zero), nobj := Suc (nobj c)\<rparr>) V"
  unfolding hl_alloc_def by (rule ev_run) simp

lemma ev_alloc_new:
  assumes "posix_name loc"
  shows "ev (cinit_alloc E (nobj c) loc) (c\<lparr>objs := (objs c)(nobj c := Some hlock_zero), nobj := Suc (nobj c)\<rparr>) V ()
    (allocd c loc) V"
  using ev_alloc_body [of "c\<lparr>objs := (objs c)(nobj c := Some hlock_zero), nobj := Suc (nobj c)\<rparr>" "nobj c" hlock_zero loc V]
  by (simp add: assms allocd_def)

lemma evq_hl_call:
  assumes "gil c" and "posix_name loc"
    and "evq (cinit_dispatch E (\<lambda>args. hl_call E d args None) (nobj c) loc mode iv perm) (allocd c loc) V
      (\<lambda>_ s V'. \<exists>x. objs s (nobj c) = Some x \<and>
        (\<forall>w. Q (Some (PyLock (nobj c))) (s\<lparr>objs := (objs s)(nobj c := Some (x\<lparr>cleaned_up := 0\<rparr>)), wld := w\<rparr>) V')) (\<lambda>_ _ _ _. False)"
  shows "evq (hl_call E (Suc d) (cinit_list loc mode iv perm) None) c V Q G"
proof -
  let ?n = "nobj c" and ?nl = "\<lambda>args. hl_call E d args None"
  let ?R = "\<lambda>r s V'. r = 0 \<and> (\<forall>w. Q (Some (PyLock ?n)) (s\<lparr>wld := w\<rparr>) V')"
  have w: "evq (sq (self_wr ?n (\<lambda>h. h\<lparr>cleaned_up := 0\<rparr>)) (ret 0)) s V' ?R G'"
    if "objs s ?n = Some x" "\<forall>w. Q (Some (PyLock ?n)) (s\<lparr>objs := (objs s)(?n := Some (x\<lparr>cleaned_up := 0\<rparr>)), wld := w\<rparr>) V'"
    for s V' x G'
    by (rule evq_wr [OF that(1)], rule evq_ret) (use that(2) in simp)
  have "evq (cinit_pf E ?nl ?n loc mode iv perm) (c\<lparr>objs := (objs c)(?n := Some hlock_zero), nobj := Suc ?n\<rparr>) V ?R G"
    unfolding cinit_pf_def exit_err_def
    by (rule evq_label, rule evq_sq_ev [OF ev_alloc_new [OF assms(2)]], rule evq_sq, rule evq_mono [OF assms(3)])
      (use w in auto)
  then have pw: "evq (cinit_pw E ?nl ?n (cinit_list loc mode iv perm) None)
      (c\<lparr>objs := (objs c)(?n := Some hlock_zero), nobj := Suc ?n\<rparr>) V ?R G"
    unfolding cinit_pw_def by (intro evq_wrapper [OF ev_cinit_args]) simp
  have "evq (hl_tp_new E ?nl (cinit_list loc mode iv perm) None) c V
      (\<lambda>r s V'. r \<noteq> None \<and> (\<forall>w. Q r (s\<lparr>wld := w\<rparr>) V')) G"
    unfolding hl_tp_new_def
    by (rule evq_bnd_ev [OF ev_capi [OF assms(1)]], simp, rule evq_bnd_ev [OF ev_hl_alloc], rule evq_bnd,
        rule evq_mono [OF pw]) (auto intro!: evq_ret)
  then show ?thesis by (simp add: evq_call_checked [OF assms(1)])
qed

text \<open>A construction that raises: the object is released, the copy of the name
  and whatever was opened is not.\<close>

lemma ev_hl_call_err:
  assumes "gil c" and "posix_name loc"
    and "evg (cinit_dispatch E (\<lambda>args. hl_call E d args None) (nobj c) loc mode iv perm) (allocd c loc) V 0 l c1 V1"
    and "gil c1" and "curexc c1 \<noteq> None"
  shows "ev (hl_call E (Suc d) (cinit_list loc mode iv perm) None) c V None
    ((traced ''HybridLock.HybridLock.__cinit__'' l (pyx_f 0) c1)\<lparr>objs := (objs c1)(nobj c := None)\<rparr>) V1"
proof -
  let ?n = "nobj c" and ?nl = "\<lambda>args. hl_call E d args None"
  let ?c = "traced ''HybridLock.HybridLock.__cinit__'' l (pyx_f 0) c1"
  have "ev (cinit_pf E ?nl ?n loc mode iv perm) (c\<lparr>objs := (objs c)(?n := Some hlock_zero), nobj := Suc ?n\<rparr>) V (- 1) ?c V1"
    unfolding cinit_pf_def
    by (rule ev_exit_err, rule evg_sq2 [OF ev_alloc_new [OF assms(2)]], rule evg_sq, rule assms(3), rule assms(4))
  then have pw: "ev (cinit_pw E ?nl ?n (cinit_list loc mode iv perm) None)
      (c\<lparr>objs := (objs c)(?n := Some hlock_zero), nobj := Suc ?n\<rparr>) V (- 1) ?c V1"
    unfolding cinit_pw_def by (intro ev_arg_parse [OF ev_cinit_args]) simp
  have de: "ev (hl_tp_dealloc ?n) ?c V1 () (?c\<lparr>objs := (objs c1)(?n := None)\<rparr>) V1"
    unfolding hl_tp_dealloc_def by (rule ev_upd) simp
  have "ev (hl_tp_new E ?nl (cinit_list loc mode iv perm) None) c V None (?c\<lparr>objs := (objs c1)(?n := None)\<rparr>) V1"
    unfolding hl_tp_new_def
    by (rule ev_bnd [OF ev_capi [OF assms(1)]], simp, rule ev_bnd [OF ev_hl_alloc], rule ev_bnd [OF pw], simp,
        rule ev_sq [OF de], rule ev_ret)
  then show ?thesis using assms(4,5) by (simp add: ev_call_checked_exc [OF assms(1)])
qed

end

end
