(* ===== verification/Modes.thy ===== *)
theory Modes
  imports Construct
begin

text \<open>
  The four modes of the constructor as a user sees them: which call creates a
  lock, which one joins an existing lock, which one raises, and that the locks
  already there are not disturbed.
\<close>

section \<open>Owning a lock\<close>

text \<open>Object \<open>n\<close> is an open lock named \<open>loc\<close>: connected to the semaphore \<open>k\<close> and
  to the segment \<open>g\<close>, with an open descriptor and its copy of the name.\<close>

definition owns :: "'w cst \<Rightarrow> osview \<Rightarrow> nat \<Rightarrow> string \<Rightarrow> nat \<Rightarrow> nat \<Rightarrow> bool" where
  "owns c V n loc k g = (\<exists>h a b p len. objs c n = Some h \<and> cleaned_up h = 0 \<and> semaphore h = Some a
    \<and> v_hsem V a = Some k \<and> spin_lock_char h = Some b \<and> spin_lock_pid h = Some (b + 1) \<and> v_amap V b = Some g
    \<and> v_fd V (shm_fd h) = Some g \<and> sem_loc h = Some p \<and> cmem c p = Some (len, loc))"

lemma owns_lock_at: "owns c V n loc k g \<Longrightarrow> lock_at c V n k g"
  by (auto simp: owns_def lock_at_def)

text \<open>The allocation counters are above everything allocated.\<close>

definition heap_ok :: "'w cst \<Rightarrow> bool" where
  "heap_ok c = ((\<forall>n \<ge> nobj c. objs c n = None) \<and> (\<forall>p \<ge> nmem c. cmem c p = None))"

text \<open>The new object is attached to the name; the rest is as it was.\<close>

definition attached :: "'w cst \<Rightarrow> osview \<Rightarrow> string \<Rightarrow> nat \<Rightarrow> nat \<Rightarrow> 'w cst \<Rightarrow> osview \<Rightarrow> bool" where
  "attached c V loc k g s V' = (owns s V' (nobj c) loc k g \<and> heap_ok s \<and> nobj c < nobj s
    \<and> (\<forall>m. m \<noteq> nobj c \<longrightarrow> objs s m = objs c m) \<and> (\<forall>p. cmem c p \<noteq> None \<longrightarrow> cmem s p = cmem c p)
    \<and> (\<exists>h p. objs s (nobj c) = Some h \<and> sem_loc h = Some p \<and> cmem c p = None)
    \<and> gil s = gil c \<and> curexc s = curexc c \<and> std_module s = std_module c
    \<and> v_semname V' = (v_semname V)(loc := Some k) \<and> v_shmname V' = (v_shmname V)(loc := Some g)
    \<and> (\<forall>i. fd_room V (i + 2) \<longrightarrow> fd_room V' i)
    \<and> (\<forall>m nm k' g'. owns c V m nm k' g' \<longrightarrow> m \<noteq> nobj c \<and> owns s V' m nm k' g'))"

text \<open>A new lock with the count \<open>v\<close> and the byte \<open>b\<close>: no other object is connected
  to its semaphore, the other semaphores and segments are untouched.\<close>

definition created :: "'w cst \<Rightarrow> osview \<Rightarrow> string \<Rightarrow> nat \<Rightarrow> c_char \<Rightarrow> nat \<Rightarrow> nat \<Rightarrow> 'w cst \<Rightarrow> osview \<Rightarrow> bool" where
  "created c V loc v b k g s V' = (attached c V loc k g s V'
    \<and> v_sem V' = (v_sem V)(k := v) \<and> v_byte V' = (v_byte V)(g := b)
    \<and> (\<forall>m nm k' g'. owns c V m nm k' g' \<longrightarrow> k' \<noteq> k \<and> (v_shmname V loc = None \<longrightarrow> g' \<noteq> g)))"

text \<open>An existing lock, joined: neither its count nor its byte nor its pid changes.\<close>

definition joined :: "'w cst \<Rightarrow> osview \<Rightarrow> string \<Rightarrow> nat \<Rightarrow> nat \<Rightarrow> 'w cst \<Rightarrow> osview \<Rightarrow> bool" where
  "joined c V loc k g s V' = (attached c V loc k g s V'
    \<and> v_sem V' = v_sem V \<and> v_byte V' = v_byte V \<and> v_pid V' = v_pid V)"

text \<open>The state of a finished construction: one more object and its copy of the
  name; what a failed attempt on the way has allocated is no longer an object.\<close>

definition grown :: "'w cst \<Rightarrow> string \<Rightarrow> hlock \<Rightarrow> 'w cst \<Rightarrow> bool" where
  "grown c loc x s = (objs s = (objs c)(nobj c := Some x) \<and> (\<exists>len. cmem s (nmem c) = Some (len, loc))
    \<and> (\<forall>q. cmem c q \<noteq> None \<longrightarrow> cmem s q = cmem c q) \<and> heap_ok s \<and> nobj c < nobj s
    \<and> gil s = gil c \<and> curexc s = curexc c \<and> std_module s = std_module c)"

lemma att_new: "(att (hlock_zero\<lparr>cleaned_up := 1, sem_loc := Some p\<rparr>) h fd a)\<lparr>cleaned_up := 0\<rparr> = new_hlock p h fd a"
  by (simp add: att_def new_hlock_def hlock_zero_def)

lemma allocd_simps [simp]: "objs (allocd c loc) = (objs c)(nobj c := Some (hlock_zero\<lparr>cleaned_up := 1, sem_loc := Some (nmem c)\<rparr>))"
  "gil (allocd c loc) = gil c" "curexc (allocd c loc) = curexc c" "std_module (allocd c loc) = std_module c"
  "v_DESTROYED (allocd c loc) = v_DESTROYED c" "mdict (allocd c loc) = mdict c"
  by (simp_all add: allocd_def std_module_def)

lemma grown_allocd: "heap_ok c \<Longrightarrow> grown c loc x ((allocd c loc)\<lparr>objs := (objs c)(nobj c := Some x), wld := w\<rparr>)"
  by (auto simp: grown_def allocd_def heap_ok_def std_module_def)

lemma owns_mono:
  assumes "owns c V m nm k' g'" and "objs s m = objs c m" and "\<And>p. cmem c p \<noteq> None \<Longrightarrow> cmem s p = cmem c p"
    and "\<And>x. v_hsem V x \<noteq> None \<Longrightarrow> v_hsem V' x = v_hsem V x" and "\<And>x. v_amap V x \<noteq> None \<Longrightarrow> v_amap V' x = v_amap V x"
    and "\<And>x. v_fd V x \<noteq> None \<Longrightarrow> v_fd V' x = v_fd V x"
  shows "owns s V' m nm k' g'"
proof -
  obtain x y b p len where x: "objs c m = Some x" "cleaned_up x = 0" "semaphore x = Some y" "v_hsem V y = Some k'"
    "spin_lock_char x = Some b" "spin_lock_pid x = Some (b + 1)" "v_amap V b = Some g'" "v_fd V (shm_fd x) = Some g'"
    "sem_loc x = Some p" "cmem c p = Some (len, nm)"
    using assms(1) by (auto simp: owns_def)
  then show ?thesis using assms(2) assms(3) [of p] assms(4) [of y] assms(5) [of b] assms(6) [of "shm_fd x"]
    by (auto simp: owns_def)
qed

lemma owns_kept:
  assumes "heap_ok c" and "grown c loc x0 s" and "owns c V m nm k' g'"
    and "\<And>x. v_hsem V x \<noteq> None \<Longrightarrow> v_hsem V' x = v_hsem V x" and "\<And>x. v_amap V x \<noteq> None \<Longrightarrow> v_amap V' x = v_amap V x"
    and "\<And>x. v_fd V x \<noteq> None \<Longrightarrow> v_fd V' x = v_fd V x"
  shows "m \<noteq> nobj c \<and> owns s V' m nm k' g'"
proof -
  have "m \<noteq> nobj c" using assms(1,3) by (auto simp: heap_ok_def owns_def)
  then show ?thesis using owns_mono [OF assms(3) _ _ assms(4-6), of s] assms(2) by (simp add: grown_def)
qed

lemma attached_built:
  assumes "heap_ok c" and "grown c loc (new_hlock (nmem c) h fd a) s" and "v_hsem V' h = Some k" and "\<And>x. v_hsem V x \<noteq> None \<Longrightarrow> v_hsem V' x = v_hsem V x"
    and "shm_mapped V1 loc sv fd a g V'" and "v_amap V1 = v_amap V" and "v_fd V1 = v_fd V" and "v_shmname V1 = v_shmname V"
    and "v_semname V1 = (v_semname V)(loc := Some k)"
  shows "attached c V loc k g s V'"
proof -
  obtain V2 where o: "shm_opened V1 loc fd g V2" "v_amap V1 a = None"
    "V' = V2\<lparr>v_amap := (v_amap V1)(a := Some g), v_byte := (v_byte V2)(g := byte_after V1 loc sv)\<rparr>"
    using assms(5) by (auto simp: shm_mapped_def)
  have f: "v_fd V' x = v_fd V x" if "v_fd V x \<noteq> None" for x
    using o that assms(7) by (auto simp: shm_opened_def)
  have am: "v_amap V' x = v_amap V x" if "v_amap V x \<noteq> None" for x
    using o that assms(6) by auto
  have own: "owns s V' (nobj c) loc k g"
    using o assms(2,3) by (auto simp: owns_def grown_def new_hlock_def shm_opened_def)
  have nm: "v_semname V' = (v_semname V)(loc := Some k)" "v_shmname V' = (v_shmname V)(loc := Some g)"
    using o assms(8,9) by (simp_all add: shm_opened_def)
  have kp: "m \<noteq> nobj c \<and> owns s V' m lc k' g'" if "owns c V m lc k' g'" for m lc k' g'
    by (rule owns_kept [OF assms(1,2) that assms(4) am f])
  have rm: "fd_room V (i + 2) \<Longrightarrow> fd_room V' i" for i
    using o(1,3) assms(7) fd_room_cong [of V1 V "i + 2"] fd_room_cong [of V' V2 i] by (simp add: shm_opened_def)
  have "\<exists>x p. objs s (nobj c) = Some x \<and> sem_loc x = Some p \<and> cmem c p = None"
    using assms(1,2) by (auto simp: grown_def heap_ok_def new_hlock_def)
  then show ?thesis unfolding attached_def using own nm kp rm assms(2) by (simp add: grown_def)
qed

lemma created_built:
  assumes "heap_ok c" and "grown c loc (new_hlock (nmem c) h fd a) s" and "sem_made V loc v h k V1" and "shm_mapped V1 loc iv fd a g V'" and "byte_after V1 loc iv = b"
  shows "created c V loc v b k g s V'"
proof -
  note m = assms(3) [unfolded sem_made_def]
  obtain V2 where o: "shm_opened V1 loc fd g V2"
    "V' = V2\<lparr>v_amap := (v_amap V1)(a := Some g), v_byte := (v_byte V2)(g := b)\<rparr>"
    using assms(4,5) by (auto simp: shm_mapped_def)
  have at: "attached c V loc k g s V'"
    by (rule attached_built [OF assms(1,2) _ _ assms(4)]) (use m o in \<open>auto simp: shm_opened_def\<close>)
  have sb: "v_sem V' = (v_sem V)(k := v)" "v_byte V' = (v_byte V)(g := b)"
    using m o by (auto simp: shm_opened_def split: option.splits)
  have fr: "k' \<noteq> k \<and> (v_shmname V loc = None \<longrightarrow> g' \<noteq> g)" if "owns c V m nm k' g'" for m nm k' g'
    using that m o by (auto simp: owns_def shm_opened_def)
  show ?thesis unfolding created_def using at sb fr by blast
qed

lemma joined_built:
  assumes "heap_ok c" and "grown c loc (new_hlock (nmem c) h fd a) s" and "sem_conn V loc h k V1" and "shm_mapped V1 loc (- 1) fd a g V'" and "v_shmname V loc = Some g0"
  shows "g = g0 \<and> joined c V loc k g s V'"
proof -
  note m = assms(3) [unfolded sem_conn_def]
  obtain V2 where o: "shm_opened V1 loc fd g V2"
    "V' = V2\<lparr>v_amap := (v_amap V1)(a := Some g), v_byte := (v_byte V2)(g := byte_after V1 loc (- 1))\<rparr>"
    using assms(4) by (auto simp: shm_mapped_def)
  have at: "attached c V loc k g s V'"
    by (rule attached_built [OF assms(1,2) _ _ assms(4)]) (use m o in \<open>auto simp: shm_opened_def\<close>)
  have "g = g0" "v_sem V' = v_sem V" "v_byte V' = v_byte V" "v_pid V' = v_pid V"
    using m o assms(5) by (auto simp: shm_opened_def byte_after_def split: option.splits)
  then show ?thesis using at by (simp add: joined_def)
qed

text \<open>What a refused construction leaves: the exception with its traceback entry,
  no object, the names and semaphores as they were, and the copy of the name
  allocated but no longer reachable.\<close>

definition refused :: "'w cst \<Rightarrow> string \<Rightarrow> cls \<Rightarrow> int \<Rightarrow> 'w cst" where
  "refused c loc k l = (traced ''HybridLock.HybridLock.__cinit__'' l (pyx_f 0) (raised k [PyBytes loc] (allocd c loc)))\<lparr>
    objs := (objs c)(nobj c := None)\<rparr>"

section \<open>The modes\<close>

context quiet_fs
begin

lemma create_new:
  assumes "gil c" and "std_module c" and "heap_ok c" and "posix_name loc" and "v_semname V loc = None"
    and "unat iv \<le> sem_value_max" and "to_char iv \<noteq> 0x7F" and "mode = 3 \<or> mode = 0"
    and room: "fd_room V 2"
  shows "evq (hl_call E (Suc d) (cinit_list loc mode iv perm) None) c V
    (\<lambda>r s V'. r = Some (PyLock (nobj c)) \<and> (\<exists>k g. created c V loc (unat iv) (to_char iv) k g s V')) G"
proof -
  have st: "std_module (allocd c loc)" "gil (allocd c loc)" and de: "v_DESTROYED c = 0x7F"
    using assms(1,2) by (simp_all add: std_module_def allocd_def)
  show ?thesis
  proof (rule evq_hl_call [OF assms(1,4)])
    let ?P = "\<lambda>r s V'. r = Some (PyLock (nobj c)) \<and> (\<exists>k g. created c V loc (unat iv) (to_char iv) k g s V')"
    let ?Q = "\<lambda>_ s V'. \<exists>x. objs s (nobj c) = Some x \<and> (\<forall>w. ?P (Some (PyLock (nobj c)))
      (s\<lparr>objs := (objs s)(nobj c := Some (x\<lparr>cleaned_up := 0\<rparr>)), wld := w\<rparr>) V')"
    have q: "?Q () ((allocd c loc)\<lparr>objs := (objs (allocd c loc))(nobj c := Some (att (hlock_zero\<lparr>cleaned_up := 1,
      sem_loc := Some (nmem c)\<rparr>) h fd a)), wld := w'\<rparr>) V'"
      if "sem_made V loc (unat iv) h k V1" "shm_mapped V1 loc iv fd a g V'" for h k V1 fd a g V' w'
    proof -
      note created_built [OF assms(3) grown_allocd [OF assms(3)] that iv_byte [OF assms(6)]]
      then show ?thesis by (auto simp: att_new)
    qed
    have o: "objs (allocd c loc) (nobj c) = Some (hlock_zero\<lparr>cleaned_up := 1, sem_loc := Some (nmem c)\<rparr>)"
      "to_char iv \<noteq> v_DESTROYED (allocd c loc)" using de assms(7) by simp_all
    have "evq (cinit_create_exclusive E (nobj c) loc iv perm) (allocd c loc) V ?Q G'" for G'
      unfolding cinit_create_exclusive_def by (rule evq_create [OF st(2) assms(4) o(1) assms(5,6) o(2) room]) (rule q)
    moreover have "evq (cinit_connect_or_create E (nobj c) loc iv perm) (allocd c loc) V ?Q G'" for G'
      by (rule evq_or_create_new [OF st(2) assms(4) o(1) assms(5,6) o(2) room]) (rule q)
    ultimately show "evq (cinit_dispatch E (\<lambda>args. hl_call E d args None) (nobj c) loc mode iv perm) (allocd c loc) V ?Q (\<lambda>_ _ _ _. False)"
      using assms(8) evq_dispatch(1,4) [OF st(2,1)] by blast
  qed
qed

lemma join_existing:
  assumes "gil c" and "std_module c" and "heap_ok c" and "posix_name loc" and "v_semname V loc = Some k"
    and "v_shmname V loc = Some g" and "v_byte V g \<noteq> 0x7F" and "mode = 1 \<or> mode = 0"
    and room: "fd_room V 2"
  shows "evq (hl_call E (Suc d) (cinit_list loc mode iv perm) None) c V
    (\<lambda>r s V'. r = Some (PyLock (nobj c)) \<and> joined c V loc k g s V') G"
proof -
  have st: "std_module (allocd c loc)" "gil (allocd c loc)" and de: "v_DESTROYED c = 0x7F"
    using assms(1,2) by (simp_all add: std_module_def allocd_def)
  have o: "objs (allocd c loc) (nobj c) = Some (hlock_zero\<lparr>cleaned_up := 1, sem_loc := Some (nmem c)\<rparr>)"
    "byte_after V loc (- 1) \<noteq> v_DESTROYED (allocd c loc)" using de assms(6,7) by (simp_all add: byte_after_def)
  show ?thesis
  proof (rule evq_hl_call [OF assms(1,4)])
    let ?P = "\<lambda>r s V'. r = Some (PyLock (nobj c)) \<and> joined c V loc k g s V'"
    let ?Q = "\<lambda>_ s V'. \<exists>x. objs s (nobj c) = Some x \<and> (\<forall>w. ?P (Some (PyLock (nobj c)))
      (s\<lparr>objs := (objs s)(nobj c := Some (x\<lparr>cleaned_up := 0\<rparr>)), wld := w\<rparr>) V')"
    have q: "?Q () ((allocd c loc)\<lparr>objs := (objs (allocd c loc))(nobj c := Some (att (hlock_zero\<lparr>cleaned_up := 1,
      sem_loc := Some (nmem c)\<rparr>) h fd a)), wld := w'\<rparr>) V'"
      if "sem_conn V loc h k V1" "shm_mapped V1 loc (- 1) fd a g' V'" for h V1 fd a g' V' w'
    proof -
      note joined_built [OF assms(3) grown_allocd [OF assms(3)] that assms(6)]
      then show ?thesis by (auto simp: att_new)
    qed
    have "evq (cinit_connect_existing E (nobj c) loc iv perm) (allocd c loc) V ?Q G'" for G'
      by (rule evq_connected(1) [OF st(2) assms(4) o(1) assms(5) o(2) room]) (rule q)
    moreover have "evq (cinit_connect_or_create E (nobj c) loc iv perm) (allocd c loc) V ?Q G'" for G'
      by (rule evq_connected(2) [OF st(2) assms(4) o(1) assms(5) o(2) room]) (rule q)
    ultimately show "evq (cinit_dispatch E (\<lambda>args. hl_call E d args None) (nobj c) loc mode iv perm) (allocd c loc) V ?Q (\<lambda>_ _ _ _. False)"
      using assms(8) evq_dispatch(1,2) [OF st(2,1)] by blast
  qed
qed

text \<open>The calls that raise.\<close>

lemma evg_dispatch:
  assumes "gil c" and "std_module c"
  shows "evg (cinit_connect_existing E n loc iv perm) c V p l c' V' \<Longrightarrow> evg (cinit_dispatch E nl n loc 1 iv perm) c V p l c' V'"
    and "evg (cinit_create_exclusive E n loc iv perm) c V p l c' V' \<Longrightarrow> evg (cinit_dispatch E nl n loc 3 iv perm) c V p l c' V'"
proof -
  have m: "mdict c ''CONNECT_OR_CREATE'' = Some (PyInt 0)" "mdict c ''CONNECT_TO_EXISTING'' = Some (PyInt 1)"
    "mdict c ''CREATE_NEW_EXCLUSIVE'' = Some (PyInt 3)"
    using assms(2) by (simp_all add: std_module_def)
  note t = ev_mode_is [OF assms(1) m(1), of _ "1 :: c_int"] ev_mode_is [OF assms(1) m(1), of _ "3 :: c_int"]
    ev_mode_is [OF assms(1) m(2), of _ "1 :: c_int"] ev_mode_is [OF assms(1) m(2), of _ "3 :: c_int"]
    ev_mode_is [OF assms(1) m(3), of _ "3 :: c_int"]
  show "evg (cinit_connect_existing E n loc iv perm) c V p l c' V' \<Longrightarrow> evg (cinit_dispatch E nl n loc 1 iv perm) c V p l c' V'"
    unfolding cinit_dispatch_def by (rule evg_bnd2 [OF t(1)], simp, rule evg_bnd2 [OF t(3)]) simp
  show "evg (cinit_create_exclusive E n loc iv perm) c V p l c' V' \<Longrightarrow> evg (cinit_dispatch E nl n loc 3 iv perm) c V p l c' V'"
    unfolding cinit_dispatch_def
    by (rule evg_bnd2 [OF t(2)], simp, rule evg_bnd2 [OF t(4)], simp, rule evg_bnd2 [OF t(5)]) simp
qed

lemma raised_simps: "gil (raised k a c) = gil c" "objs (raised k a c) = objs c"
    "curexc (raised k a c) = Some (PyErr k (PyExc k a) [])"
    "(traced fn l f (raised k a (c\<lparr>objs := x\<rparr>)))\<lparr>objs := y\<rparr> = (traced fn l f (raised k a c))\<lparr>objs := y\<rparr>"
  by (simp_all add: raised_def traced_def)

lemma refused_at:
  assumes "gil c" and "posix_name loc"
    and "evg (cinit_dispatch E (\<lambda>args. hl_call E d args None) (nobj c) loc mode iv perm) (allocd c loc) V 0 l
      (raised k [PyBytes loc] ((allocd c loc)\<lparr>objs := (objs c)(nobj c := Some x)\<rparr>)) V1"
  shows "ev (hl_call E (Suc d) (cinit_list loc mode iv perm) None) c V None (refused c loc k l) V1"
  using ev_hl_call_err [OF assms(1-3)] assms(1)
  by (simp add: raised_simps refused_def del: hl_call.simps)

lemma null_refuses:
  assumes "gil c" and "posix_name loc" and "objs c n = Some x" and "mdict c nm = Some (PyCls k)" and "exc_class k"
    and "\<And>w. ok w \<Longrightarrow> osv w = V \<Longrightarrow> gives ok osv (x_sem_open E loc fl perm iv) w None V"
  shows "evg (sq (cinit_sem_open E n loc fl perm iv) (sq (cinit_null_raises E n l nm loc) m)) c V 0 l
    (raised k [PyBytes loc] (c\<lparr>objs := (objs c)(n := Some (x\<lparr>semaphore := None\<rparr>))\<rparr>)) V"
proof -
  let ?c = "c\<lparr>objs := (objs c)(n := Some (x\<lparr>semaphore := None\<rparr>))\<rparr>"
  have n: "evg (cinit_null_raises E n l nm loc) ?c V 0 l (raised k [PyBytes loc] ?c) V"
    by (rule evg_null_raises [where x = "x\<lparr>semaphore := None\<rparr>"]) (use assms in simp_all)
  have s: "ev (cinit_sem_open E n loc fl perm iv) c V () ?c V"
    by (rule ev_sem_open_null [OF assms(3)]) (use assms(2,6) in simp)
  show ?thesis by (rule evg_sq2 [OF s], rule evg_sq, rule n)
qed

lemma refused_absent:
  assumes "gil c" and "std_module c" and "posix_name loc" and "v_semname V loc = None"
  shows "ev (hl_call E (Suc d) (cinit_list loc 1 iv perm) None) c V None (refused c loc NoSuchSemaphore 113) V"
proof -
  let ?c = "allocd c loc" and ?x = "hlock_zero\<lparr>cleaned_up := 1, sem_loc := Some (nmem c)\<rparr>"
  have st: "std_module ?c" "gil ?c" using assms(1,2) by simp_all
  have "evg (cinit_connect_existing E (nobj c) loc iv perm) ?c V 0 113
      (raised NoSuchSemaphore [PyBytes loc] (?c\<lparr>objs := (objs ?c)(nobj c := Some (?x\<lparr>semaphore := None\<rparr>))\<rparr>)) V"
    unfolding cinit_connect_existing_def
    by (rule null_refuses) (use assms st os_open_none in \<open>auto simp: std_module_def\<close>)
  then show ?thesis by (intro refused_at [OF assms(1,3) evg_dispatch(1) [OF st(2,1)]]) simp
qed

lemma refused_taken:
  assumes "gil c" and "std_module c" and "posix_name loc" and "v_semname V loc = Some k"
  shows "ev (hl_call E (Suc d) (cinit_list loc 3 iv perm) None) c V None (refused c loc SemaphoreExists 125) V"
proof -
  let ?c = "allocd c loc" and ?x = "hlock_zero\<lparr>cleaned_up := 1, sem_loc := Some (nmem c)\<rparr>"
  have st: "std_module ?c" "gil ?c" using assms(1,2) by simp_all
  have "evg (cinit_create_exclusive E (nobj c) loc iv perm) ?c V 0 125
      (raised SemaphoreExists [PyBytes loc] (?c\<lparr>objs := (objs ?c)(nobj c := Some (?x\<lparr>semaphore := None\<rparr>))\<rparr>)) V"
    unfolding cinit_create_exclusive_def
    by (rule null_refuses) (use assms st os_excl_some in \<open>auto simp: std_module_def\<close>)
  then show ?thesis by (intro refused_at [OF assms(1,3) evg_dispatch(2) [OF st(2,1)]]) simp
qed

end

end
