(* ===== verification/DestroySpec.thy ===== *)
theory DestroySpec
  imports Modes
begin

text \<open>
  Destruction on a quiet system: both names go, the byte says destroyed, the
  descriptor and the semaphore are closed and the copy of the name is freed,
  once; CREATE_NEW_OVERWRITE is destruction followed by creation.
\<close>

section \<open>The outcome\<close>

text \<open>The names of \<open>loc\<close> are gone, whichever lock they belonged to.\<close>

definition unnamed :: "string \<Rightarrow> osview \<Rightarrow> osview" where
  "unnamed loc V = V\<lparr>v_shmname := (v_shmname V)(loc := None), v_semname := (v_semname V)(loc := None)\<rparr>"

definition destroyed :: "'w cst \<Rightarrow> osview \<Rightarrow> nat \<Rightarrow> string \<Rightarrow> nat \<Rightarrow> nat \<Rightarrow> 'w cst \<Rightarrow> osview \<Rightarrow> bool" where
  "destroyed c V n loc k g s V' = ((\<exists>h p. objs c n = Some h \<and> sem_loc h = Some p
      \<and> objs s = (objs c)(n := Some (h\<lparr>cleaned_up := 1\<rparr>)) \<and> cmem s = (cmem c)(p := None) \<and> v_fd V' (shm_fd h) = None)
    \<and> nobj s = nobj c \<and> nmem s = nmem c \<and> gil s = gil c \<and> curexc s = curexc c \<and> std_module s = std_module c
    \<and> v_semname V' = (v_semname V)(loc := None) \<and> v_shmname V' = (v_shmname V)(loc := None)
    \<and> v_byte V' = (v_byte V)(g := 0x7F) \<and> v_sem V' = v_sem V \<and> v_pid V' = v_pid V
    \<and> v_amap V' = v_amap V \<and> (\<exists>a. v_amap V a = Some g) \<and> (\<forall>i. fd_room V i \<longrightarrow> fd_room V' i)
    \<and> (\<forall>m nm k' g'. owns c V m nm k' g' \<and> nm \<noteq> loc \<and> k' \<noteq> k \<and> g' \<noteq> g \<longrightarrow> owns s V' m nm k' g'))"

text \<open>The lock \<open>k0\<close>, \<open>g0\<close> has been replaced by a new one.\<close>

definition replaced :: "'w cst \<Rightarrow> osview \<Rightarrow> string \<Rightarrow> nat \<Rightarrow> c_char \<Rightarrow> nat \<Rightarrow> nat \<Rightarrow> nat \<Rightarrow> nat \<Rightarrow> 'w cst \<Rightarrow> osview \<Rightarrow> bool" where
  "replaced c V loc v b k0 g0 k g s V' = (owns s V' (nobj c) loc k g \<and> g \<noteq> g0
    \<and> gil s = gil c \<and> curexc s = curexc c \<and> std_module s = std_module c
    \<and> v_semname V' = (v_semname V)(loc := Some k) \<and> v_shmname V' = (v_shmname V)(loc := Some g)
    \<and> v_sem V' = (v_sem V)(k := v) \<and> v_byte V' = (v_byte V)(g0 := 0x7F, g := b)
    \<and> (\<forall>m nm k' g'. owns c V m nm k' g' \<and> nm \<noteq> loc \<and> k' \<noteq> k0 \<and> g' \<noteq> g0 \<longrightarrow>
        m \<noteq> nobj c \<and> k' \<noteq> k \<and> g' \<noteq> g \<and> owns s V' m nm k' g'))"

text \<open>Between the destruction of the old lock and the creation of the new one.\<close>

definition cleared :: "'w cst \<Rightarrow> osview \<Rightarrow> string \<Rightarrow> nat \<Rightarrow> nat \<Rightarrow> 'w cst \<Rightarrow> osview \<Rightarrow> bool" where
  "cleared c V loc k0 g0 s V' = (objs s = objs (allocd c loc) \<and> cmem s (nmem c) = Some (length loc + 1, loc)
    \<and> gil s = gil c \<and> curexc s = curexc c \<and> std_module s = std_module c
    \<and> v_semname V' = (v_semname V)(loc := None) \<and> v_shmname V' = (v_shmname V)(loc := None)
    \<and> v_sem V' = v_sem V \<and> v_byte V' = (v_byte V)(g0 := 0x7F) \<and> (\<exists>a. v_amap V' a = Some g0)
    \<and> (\<forall>i. fd_room V (i + 2) \<longrightarrow> fd_room V' i)
    \<and> (\<forall>m nm k' g'. owns c V m nm k' g' \<and> nm \<noteq> loc \<and> k' \<noteq> k0 \<and> g' \<noteq> g0 \<longrightarrow> m \<noteq> nobj c \<and> owns s V' m nm k' g'))"

lemma cleared_after:
  assumes "heap_ok c" and "joined (allocd c loc) V loc k g s V1" and "destroyed s V1 (nobj (allocd c loc)) loc k g s2 V2"
  shows "cleared c V loc k g (s2\<lparr>objs := (objs s2)(nobj (allocd c loc) := None)\<rparr>) V2"
proof -
  let ?c = "allocd c loc"
  let ?n = "nobj ?c" and ?s = "s2\<lparr>objs := (objs s2)(nobj ?c := None)\<rparr>"
  have a: "attached ?c V loc k g s V1" and v1: "v_sem V1 = v_sem V" "v_byte V1 = v_byte V"
    using assms(2) by (simp_all add: joined_def)
  have hp: "objs ?c ?n = None" "nobj c < ?n" using assms(1) by (auto simp: heap_ok_def allocd_def)
  obtain h p where h: "objs s ?n = Some h" "sem_loc h = Some p" "objs s2 = (objs s)(?n := Some (h\<lparr>cleaned_up := 1\<rparr>))"
    "cmem s2 = (cmem s)(p := None)" "cmem ?c p = None"
    using assms(3) a unfolding destroyed_def attached_def by fastforce
  have o: "objs ?s = objs ?c"
  proof (rule ext)
    fix m show "objs ?s m = objs ?c m"
      using h(3) hp(1) a by (cases "m = ?n") (simp_all add: attached_def del: allocd_simps)
  qed
  have "cmem s (nmem c) = cmem ?c (nmem c)" "cmem ?c (nmem c) = Some (length loc + 1, loc)"
    using a by (simp_all add: attached_def allocd_def)
  then have m: "cmem ?s (nmem c) = Some (length loc + 1, loc)" using h(4,5) by auto
  have own: "i \<noteq> nobj c \<and> owns ?s V2 i nm k' g'"
    if i: "owns c V i nm k' g'" "nm \<noteq> loc" "k' \<noteq> k" "g' \<noteq> g" for i nm k' g'
  proof -
    have x: "i \<noteq> nobj c" using i(1) assms(1) by (auto simp: owns_def heap_ok_def)
    have "cmem ?c q = cmem c q" if "cmem c q \<noteq> None" for q
      using that assms(1) by (auto simp: heap_ok_def allocd_def)
    then have "owns ?c V i nm k' g'" using x by (intro owns_mono [OF i(1)]) simp_all
    then have y: "i \<noteq> ?n" "owns s V1 i nm k' g'" using a by (auto simp: attached_def)
    then have "owns s2 V2 i nm k' g'" using assms(3) i by (auto simp: destroyed_def)
    then show ?thesis using x y(1) by (simp add: owns_def)
  qed
  have d: "gil s2 = gil s" "curexc s2 = curexc s" "std_module s2 = std_module s"
    "v_semname V2 = (v_semname V1)(loc := None)" "v_shmname V2 = (v_shmname V1)(loc := None)"
    "v_sem V2 = v_sem V1" "v_byte V2 = (v_byte V1)(g := 0x7F)" "\<exists>a. v_amap V2 a = Some g"
    using assms(3) by (simp_all add: destroyed_def)
  have b: "gil s = gil c" "curexc s = curexc c" "std_module s = std_module c"
    "v_semname V1 = (v_semname V)(loc := Some k)" "v_shmname V1 = (v_shmname V)(loc := Some g)"
    using a by (simp_all add: attached_def)
  have f: "gil ?s = gil c" "curexc ?s = curexc c" "std_module ?s = std_module c"
    using d(1-3) b(1-3) by (simp_all add: std_module_def)
  have v: "v_semname V2 = (v_semname V)(loc := None)" "v_shmname V2 = (v_shmname V)(loc := None)"
    "v_sem V2 = v_sem V" "v_byte V2 = (v_byte V)(g := 0x7F)"
    using d(4-7) b(4,5) v1 by simp_all
  have rm: "\<forall>i. fd_room V (i + 2) \<longrightarrow> fd_room V2 i" using assms(3) a by (simp add: attached_def destroyed_def)
  show ?thesis unfolding cleared_def using o m own f v d(8) rm by blast
qed

lemma replaced_built:
  assumes "cleared c V loc k0 g0 s V1" and "sem_made V1 loc v h k V2" and "shm_mapped V2 loc iv fd a g V'"
    and "byte_after V2 loc iv = b"
  shows "replaced c V loc v b k0 g0 k g (s\<lparr>objs := (objs c)(nobj c := Some (new_hlock (nmem c) h fd a)), wld := w\<rparr>) V'"
    (is "replaced c V loc v b k0 g0 k g ?s V'")
proof -
  note m = assms(2) [unfolded sem_made_def] and c = assms(1) [unfolded cleared_def]
  obtain V3 where o: "shm_opened V2 loc fd g V3" "v_amap V2 a = None"
    "V' = V3\<lparr>v_amap := (v_amap V2)(a := Some g), v_byte := (v_byte V3)(g := b)\<rparr>"
    using assms(3,4) by (auto simp: shm_mapped_def)
  have n: "v_shmname V2 loc = None" using m c by simp
  have f: "\<forall>a. v_amap V2 a \<noteq> Some g" "v_byte V3 = (v_byte V2)(g := 0)" "v_sem V3 = v_sem V2"
    "v_semname V3 = v_semname V2" "v_shmname V3 = (v_shmname V2)(loc := Some g)" "v_hsem V3 = v_hsem V2"
    "v_fd V3 fd = Some g" "\<And>x. v_fd V2 x \<noteq> None \<Longrightarrow> v_fd V3 x = v_fd V2 x"
    using o(1) n by (auto simp: shm_opened_def)
  have own: "owns ?s V' (nobj c) loc k g"
    using o(3) f m c by (auto simp: owns_def new_hlock_def)
  have g: "g \<noteq> g0" using f(1) m c by auto
  have kp: "i \<noteq> nobj c \<and> k' \<noteq> k \<and> g' \<noteq> g \<and> owns ?s V' i nm k' g'"
    if i: "owns c V i nm k' g'" "nm \<noteq> loc" "k' \<noteq> k0" "g' \<noteq> g0" for i nm k' g'
  proof -
    have x: "i \<noteq> nobj c" "owns s V1 i nm k' g'" using c i by blast+
    have "owns ?s V' i nm k' g'"
      by (rule owns_mono [OF x(2)]) (use o(2,3) f m c x(1) in auto)
    moreover have "k' \<noteq> k \<and> g' \<noteq> g" using x(2) m f(1) by (auto simp: owns_def)
    ultimately show ?thesis using x(1) by simp
  qed
  have vs: "v_semname V' = (v_semname V)(loc := Some k)" "v_shmname V' = (v_shmname V)(loc := Some g)"
    "v_sem V' = (v_sem V)(k := v)" "v_byte V' = (v_byte V)(g0 := 0x7F, g := b)"
    using o(3) f m c by auto
  have "gil ?s = gil c" "curexc ?s = curexc c" "std_module ?s = std_module c"
    using c by (simp_all add: std_module_def)
  then show ?thesis unfolding replaced_def using own g kp vs by blast
qed

context quiet_fs
begin

section \<open>The steps\<close>

lemma ev_c_string: "cmem c p = Some (len, v) \<Longrightarrow> ev (c_string (Some p)) c V v c V"
  unfolding c_string_def by (rule ev_bnd [OF ev_nonnull], rule ev_run) simp

lemma ev_c_free: "cmem c p = Some x \<Longrightarrow> ev (c_free (Some p)) c V () (c\<lparr>cmem := (cmem c)(p := None)\<rparr>) V"
  by (rule ev_run) (simp add: c_free_def)

text \<open>An unlink either removes the name or finds it gone.\<close>

lemma ev_unlink:
  assumes "objs c n = Some h" and "sem_loc h = Some p" and "cmem c p = Some (len, loc)"
    and "spin_lock_char h = Some b" and "v_amap V b = Some g"
    and u: "\<And>w. ok w \<Longrightarrow> osv w = V \<Longrightarrow> gives ok osv (f loc) w 0 V' \<or>
      V' = V \<and> (\<exists>w'. f loc w = Sys (- 1, w') \<and> ok w' \<and> osv w' = V \<and> x_errno E w' = ENOENT)"
  shows "ev (destroy_unlink E n f l what) c V () c V'"
proof -
  let ?k = "\<lambda>r. bnd (if r = - 1 then bnd (is_destroyed E n) (\<lambda>b. ret (\<not> b)) else ret False) (\<lambda>bad.
    whn bad (bnd (rd (\<lambda>s. x_errno E (wld s))) (\<lambda>errno. whn (errno \<noteq> ENOENT) (raise_Exception E l what))))"
  have "ev (bnd (sysc (f loc)) ?k) c V () c V'" unfolding ev_def
  proof (intro allI impI)
    fix w assume w: "ok w \<and> osv w = V"
    then consider w' where "f loc w = Sys (0, w')" "ok w'" "osv w' = V'"
      | w' where "V' = V" "f loc w = Sys (- 1, w')" "ok w'" "osv w' = V" "x_errno E w' = ENOENT"
      using u [of w] by (auto elim: givesE)
    then show "\<exists>w'. bnd (sysc (f loc)) ?k (c\<lparr>wld := w\<rparr>) = Ret () (c\<lparr>wld := w'\<rparr>) \<and> ok w' \<and> osv w' = V'"
    proof cases
      case (1 w')
      then show ?thesis by (intro exI [of _ w']) (simp add: sysc_def bnd_def ret_def whn_def)
    next
      case (2 w')
      have "gives ok osv (x_ld8 E b) w' (v_byte V g) V" using os_ld8 [of w' b g] 2 assms(5) by simp
      then obtain w2 where w2: "x_ld8 E b w' = Sys (v_byte V g, w2)" "ok w2" "osv w2 = V" by (rule givesE)
      have "x_errno E w2 = ENOENT" using os_ld8_errno [OF _ _ w2(1)] 2 assms(5) by simp
      then show ?thesis using 2 w2 assms(1,4)
        by (intro exI [of _ w2]) (simp add: sysc_def bnd_def ret_def whn_def is_destroyed_def self_rd_def ld8_def nonnull_def rd_def)
    qed
  qed
  then show ?thesis unfolding destroy_unlink_def
    by (intro ev_bnd [OF ev_self_rd [OF assms(1)]], unfold assms(2)) (rule ev_bnd [OF ev_c_string [OF assms(3)]])
qed

lemma ev_unlinks:
  assumes "objs c n = Some h" and "sem_loc h = Some p" and "cmem c p = Some (len, loc)"
    and "spin_lock_char h = Some b" and "v_amap V b = Some g" and "posix_name loc"
  shows "ev (destroy_shm_unlink E n) c V () c (V\<lparr>v_shmname := (v_shmname V)(loc := None)\<rparr>)"
    and "ev (destroy_sem_unlink E n) c V () c (V\<lparr>v_semname := (v_semname V)(loc := None)\<rparr>)"
  unfolding destroy_shm_unlink_def destroy_sem_unlink_def
proof -
  let ?V = "V\<lparr>v_shmname := (v_shmname V)(loc := None)\<rparr>" and ?W = "V\<lparr>v_semname := (v_semname V)(loc := None)\<rparr>"
  have a: "gives ok osv (x_shm_unlink E loc) w 0 ?V \<or>
      ?V = V \<and> (\<exists>w'. x_shm_unlink E loc w = Sys (- 1, w') \<and> ok w' \<and> osv w' = V \<and> x_errno E w' = ENOENT)"
    if "ok w" "osv w = V" for w
    using os_shm_unlink [OF that(1) assms(6)] os_shm_unlinked [OF that(1) assms(6)] that(2)
    by (cases "v_shmname V loc") (auto simp: fun_upd_idem)
  have b: "gives ok osv (x_sem_unlink E loc) w 0 ?W \<or>
      ?W = V \<and> (\<exists>w'. x_sem_unlink E loc w = Sys (- 1, w') \<and> ok w' \<and> osv w' = V \<and> x_errno E w' = ENOENT)"
    if "ok w" "osv w = V" for w
    using os_sem_unlink [OF that(1) assms(6)] os_sem_unlinked [OF that(1) assms(6)] that(2)
    by (cases "v_semname V loc") (auto simp: fun_upd_idem)
  show "ev (destroy_unlink E n (x_shm_unlink E) 266 ''shm_unlink'') c V () c ?V"
    by (rule ev_unlink [where f = "x_shm_unlink E", OF assms(1-5)]) (rule a)
  show "ev (destroy_unlink E n (x_sem_unlink E) 275 ''sem_unlink'') c V () c ?W"
    by (rule ev_unlink [where f = "x_sem_unlink E", OF assms(1-5)]) (rule b)
qed

lemma evq_close:
  assumes "objs c n = Some h" and "v_fd V (shm_fd h) = Some g" and "semaphore h = Some a" and "v_hsem V a = Some k"
    and "\<And>w hs. hs = v_hsem V \<or> hs = (v_hsem V)(a := None) \<Longrightarrow>
      Q () (c\<lparr>wld := w\<rparr>) (V\<lparr>v_fd := (v_fd V)(shm_fd h := None), v_hsem := hs\<rparr>)"
  shows "evq (destroy_close E n) c V Q G"
proof -
  let ?V = "V\<lparr>v_fd := (v_fd V)(shm_fd h := None)\<rparr>"
  have c: "gives ok osv (x_close E (shm_fd h)) w 0 ?V" if "ok w" "osv w = V" for w
    using os_close [of w "shm_fd h" g] assms(2) that by simp
  have s: "evq (bnd (sysc (x_sem_close E a)) (\<lambda>r. whn (r = - 1) m)) c ?V Q G" for m
  proof (rule evq_sysc)
    fix w assume w: "ok w" "osv w = ?V"
    then obtain hs where hs: "hs = v_hsem V \<or> hs = (v_hsem V)(a := None)"
      "gives ok osv (x_sem_close E a) w 0 (?V\<lparr>v_hsem := hs\<rparr>)"
      using os_sem_close [of w a k] assms(4) by auto
    show "\<exists>r V'. gives ok osv (x_sem_close E a) w r V' \<and> evq (whn (r = - 1) m) c V' Q G"
      by (intro exI conjI, rule hs(2), rule evq_ev [OF ev_whn_no], simp, rule assms(5) [OF hs(1)])
  qed
  show ?thesis unfolding destroy_close_def
    by (rule evq_field [OF assms(1)], rule evq_sysc1 [OF c], assumption, assumption, rule evq_skip, simp,
        rule evq_field [OF assms(1)], unfold assms(3), rule evq_bnd_ev [OF ev_nonnull], rule s)
qed

lemma destroy_open:
  assumes "owns c V n loc k g" and "posix_name loc" and "std_module c"
  shows "evq (destroy_f E n) c V (\<lambda>r s V'. r = 0 \<and> destroyed c V n loc k g s V') G"
proof -
  obtain h a b p len where h: "objs c n = Some h" "cleaned_up h = 0" "semaphore h = Some a" "v_hsem V a = Some k"
    "spin_lock_char h = Some b" "v_amap V b = Some g" "v_fd V (shm_fd h) = Some g" "sem_loc h = Some p"
    "cmem c p = Some (len, loc)"
    using assms(1) by (auto simp: owns_def)
  let ?h = "h\<lparr>cleaned_up := 1\<rparr>" and ?V = "unnamed loc V"
  let ?c1 = "c\<lparr>objs := (objs c)(n := Some ?h)\<rparr>"
  let ?c2 = "?c1\<lparr>cmem := (cmem c)(p := None)\<rparr>"
  let ?V2 = "?V\<lparr>v_byte := (v_byte V)(g := 0x7F)\<rparr>"
  have k: "ev (destroy_check E n) c V () c V"
    unfolding destroy_check_def by (rule ev_bnd [OF ev_self_rd [OF h(1)]], rule ev_whn_no) (simp add: h(2))
  have u: "ev (destroy_shm_unlink E n) ?c1 V () ?c1 (V\<lparr>v_shmname := (v_shmname V)(loc := None)\<rparr>)"
    by (rule ev_unlinks(1) [where h = ?h and p = p and b = b]) (use h assms(2) in simp_all)
  have "ev (destroy_sem_unlink E n) ?c1 (V\<lparr>v_shmname := (v_shmname V)(loc := None)\<rparr>) () ?c1
      (V\<lparr>v_shmname := (v_shmname V)(loc := None), v_semname :=
        (v_semname (V\<lparr>v_shmname := (v_shmname V)(loc := None)\<rparr>))(loc := None)\<rparr>)"
    by (rule ev_unlinks(2) [where h = ?h and p = p and b = b]) (use h assms(2) in simp_all)
  then have v: "ev (destroy_sem_unlink E n) ?c1 (V\<lparr>v_shmname := (v_shmname V)(loc := None)\<rparr>) () ?c1 ?V"
    by (simp add: unnamed_def)
  have f: "ev (destroy_free n) ?c1 ?V () ?c2 ?V"
    unfolding destroy_free_def
    by (rule ev_bnd [OF ev_self_rd [where h = ?h]], simp, simp add: h(8))
      (use ev_c_free [of ?c1 p "(len, loc)" ?V] h(9) in simp)
  have m: "ev (destroy_mark E n) ?c2 ?V () ?c2 ?V2"
    unfolding destroy_mark_def
    by (rule ev_bnd [OF ev_self_rd [where h = ?h]], simp, rule ev_bnd [OF ev_rd], simp)
      (use ev_st8 [where V = ?V and a = b and g = g and c = ?c2 and x = "0x7F"] h(5,6) assms(3) in
        \<open>simp add: unnamed_def std_module_def\<close>)
  have d: "destroyed c V n loc k g (?c2\<lparr>wld := w\<rparr>) (?V2\<lparr>v_fd := (v_fd ?V2)(shm_fd h := None), v_hsem := hs\<rparr>)"
    if hs: "hs = v_hsem V \<or> hs = (v_hsem V)(a := None)" for w hs
  proof -
    have "owns (?c2\<lparr>wld := w\<rparr>) (?V2\<lparr>v_fd := (v_fd ?V2)(shm_fd h := None), v_hsem := hs\<rparr>) i nm k' g'"
      if i: "owns c V i nm k' g'" "nm \<noteq> loc" "k' \<noteq> k" "g' \<noteq> g" for i nm k' g'
    proof -
      obtain x y z q l where x: "objs c i = Some x" "cleaned_up x = 0" "semaphore x = Some y" "v_hsem V y = Some k'"
        "spin_lock_char x = Some z" "spin_lock_pid x = Some (z + 1)" "v_amap V z = Some g'" "v_fd V (shm_fd x) = Some g'"
        "sem_loc x = Some q" "cmem c q = Some (l, nm)"
        using i(1) by (auto simp: owns_def)
      have "i \<noteq> n" "y \<noteq> a" "shm_fd x \<noteq> shm_fd h" "q \<noteq> p" using x h i by auto
      then show ?thesis using x hs by (auto simp: owns_def unnamed_def)
    qed
    moreover have "fd_room V i \<Longrightarrow> fd_room (?V2\<lparr>v_fd := (v_fd ?V2)(shm_fd h := None), v_hsem := hs\<rparr>) i" for i
      by (erule fd_room_close [where fd = "shm_fd h"]) (simp add: unnamed_def)
    ultimately show ?thesis unfolding destroyed_def
      using h(1,6,8) by (auto simp: unnamed_def std_module_def)
  qed
  have cl: "evq (destroy_close E n) ?c2 ?V2 (\<lambda>_ s V'. \<forall>w. destroyed c V n loc k g (s\<lparr>wld := w\<rparr>) V') G'" for G'
    by (rule evq_close [where h = ?h and a = a and k = k and g = g]) (use h d in \<open>simp_all add: unnamed_def\<close>)
  have r: "evq (sq (destroy_close E n) (ret 0)) ?c2 ?V2 (\<lambda>r s V'. r = 0 \<and> destroyed c V n loc k g s V') G'" for G'
    by (rule evq_sq, rule evq_mono [OF cl]) (auto intro!: evq_ret)
  show ?thesis unfolding destroy_f_def exit_err_def
    by (rule evq_label, rule evq_sq_ev [OF k], rule evq_wr [OF h(1)], rule evq_sq_ev [OF u], rule evq_sq_ev [OF v],
        rule evq_sq_ev [OF f], rule evq_sq_ev [OF m], rule r)
qed

lemma evq_int_method:
  assumes "evq f c V (\<lambda>r s V'. r = t \<and> gil s \<and> (\<forall>w. Q (Some (PyInt (sint t))) (s\<lparr>wld := w\<rparr>) V')) (\<lambda>_ _ _ _. False)"
    and "t \<noteq> errv"
  shows "evq (int_method E fn l errv f) c V Q G"
proof -
  have r: "evq (bnd (chk l (pyx_From_int E t)) (\<lambda>r. ret (Some r))) s V' Q G'"
    if "gil s" "\<forall>w. Q (Some (PyInt (sint t))) (s\<lparr>wld := w\<rparr>) V'" for s V' G'
    by (rule evq_bnd_ev [OF ev_chk [OF ev_From_int [OF that(1)]]], rule evq_ret) (simp add: that(2))
  show ?thesis unfolding int_method_def exit_err_def
    by (rule evq_label, rule evq_bnd, rule evq_mono [OF assms(1)]) (use assms(2) r in auto)
qed

lemma destroy_call:
  assumes "gil c" and "owns c V n loc k g" and "posix_name loc" and "std_module c"
  shows "evq (hl_method_call E n ''destroy'' [] None) c V (\<lambda>r s V'. r = Some (PyInt 0) \<and> destroyed c V n loc k g s V') G"
proof -
  have d: "evq (destroy_f E n) c V (\<lambda>r s V'. r = 0 \<and> gil s \<and> (\<forall>w. destroyed c V n loc k g (s\<lparr>wld := w\<rparr>) V')) G'" for G'
    by (rule evq_mono [OF destroy_open [OF assms(2-4)]]) (use assms(1) in \<open>auto simp: destroyed_def owns_def\<close>)
  have "evq (destroy_pw E n) c V
      (\<lambda>r s V'. r \<noteq> None \<and> (\<forall>w. r = Some (PyInt 0) \<and> destroyed c V n loc k g (s\<lparr>wld := w\<rparr>) V')) G"
    unfolding destroy_pw_def destroy_pf_def
    by (rule evq_int_method [where t = 0], rule evq_mono [OF d]) auto
  then show ?thesis
    by (simp add: hl_method_call_def hl_methods_def pyx_CallMethO_def evq_call_checked [OF assms(1)])
qed

section \<open>Destroying a closed lock\<close>

lemma destroy_closed:
  assumes "objs c n = Some h" and "cleaned_up h \<noteq> 0" and "gil c" and "std_module c"
  shows "ev (destroy_f E n) c V (- 1) (traced ''HybridLock.HybridLock.destroy'' 252 (pyx_f 0)
    (raised SemaphoreDestroyed [PyStr ''HybridLock has already been destroyed''] c)) V"
proof -
  have "evg (destroy_check E n) c V 0 252 (raised SemaphoreDestroyed [PyStr ''HybridLock has already been destroyed''] c) V"
    unfolding destroy_check_def raised_def
    by (rule evg_bnd2 [OF ev_self_rd [OF assms(1)]], rule evg_whn [OF assms(2)], rule evg_raise_global)
      (use assms(3,4) in \<open>simp_all add: std_module_def\<close>)
  then show ?thesis unfolding destroy_f_def
    by (intro ev_exit_err evg_sq) (simp_all add: assms(3) raised_def)
qed

section \<open>CREATE_NEW_OVERWRITE\<close>

lemma ev_except_match:
  assumes "gil c" and "curexc c = Some (PyErr k v t)" and "mdict c nm = Some (PyCls k)"
  shows "ev (except_clause E l nm) c V True (c\<lparr>curexc := None\<rparr>) V"
proof -
  let ?c = "c\<lparr>curexc := None\<rparr>"
  have f: "ev err_fetch c V (curexc c) ?c V"
    unfolding err_fetch_def
    by (rule ev_sq [OF ev_need_gil [OF assms(1)]], rule ev_bnd [OF ev_rd], simp, rule ev_sq [OF ev_upd [where c' = ?c]])
      (simp_all add: ev_ret)
  have r: "ev (err_restore x) c' V () (c'\<lparr>curexc := x\<rparr>) V" if "gil c'" for x c'
    unfolding err_restore_def by (rule ev_sq [OF ev_need_gil [OF that]], rule ev_upd) simp
  have m: "pyx_GivenExceptionMatches k (PyCls k)"
    by (simp add: pyx_GivenExceptionMatches_def)
  show ?thesis unfolding except_clause_def
    by (rule ev_bnd [OF f], rule ev_bnd [OF ev_chk [OF ev_global]], simp add: assms(1), simp add: assms(3),
        rule ev_bnd [OF ev_ret], simp add: assms(2) m, rule ev_sq [OF r], simp add: assms(1), rule ev_sq [OF ev_whn [OF r]],
        simp_all add: assms(1) ev_ret)
qed

lemma overwrite_args:
  assumes "gil c" and "std_module c" and "posix_name loc"
  shows "evq (bnd (chk 141 (nl (cinit_list loc 1 iv perm))) f) c V Q G \<Longrightarrow>
    evq (bnd (chk 142 (capi E ''PyBytes_FromString'' (PyBytes (c_str loc)))) (\<lambda>a.
    bnd (chk 142 (pyx_GetModuleGlobalName E ''CONNECT_TO_EXISTING'')) (\<lambda>m.
    bnd (chk 143 (pyx_From_int E iv)) (\<lambda>i.
    bnd (chk 143 (pyx_From_int E perm)) (\<lambda>p.
    bnd (chk 141 (capi E ''PyTuple_New'' ())) (\<lambda>_.
    bnd (chk 141 (nl [a, m, i, p])) f)))))) c V Q G"
  unfolding posix_c_str [OF assms(3)]
  by (rule evq_bnd_ev [OF ev_chk [OF ev_capi [OF assms(1)]]],
      rule evq_bnd_ev [OF ev_chk [OF ev_global [OF assms(1), where x = "PyInt 1"]]], use assms(2) in \<open>simp add: std_module_def\<close>,
      (rule evq_bnd_ev [OF ev_chk [OF ev_From_int [OF assms(1)]]])+,
      rule evq_bnd_ev [OF ev_chk [OF ev_capi [OF assms(1)]]], simp)

text \<open>No lock of the name: the exception of the attempt is caught.\<close>

lemma overwrite_absent:
  assumes "gil c" and "std_module c" and "posix_name loc" and "v_semname V loc = None"
    and "evq m ((refused c loc NoSuchSemaphore 113)\<lparr>curexc := None\<rparr>) V Q G"
  shows "evq (sq (overwrite_existing E (\<lambda>args. hl_call E (Suc d) args None) loc iv perm) m) c V Q G"
proof -
  let ?nl = "\<lambda>args. hl_call E (Suc d) args None" and ?c = "refused c loc NoSuchSemaphore 113"
  have c: "gil ?c" "curexc ?c = Some (PyErr NoSuchSemaphore (PyExc NoSuchSemaphore [PyBytes loc])
      [(fst (cc.fetch True 113 (PyCode ''HybridLock.HybridLock.__cinit__'' 113 (pyx_f 0)) (cocache c)), 113)])"
    "mdict ?c ''NoSuchSemaphoreException'' = Some (PyCls NoSuchSemaphore)"
    using assms(1,2) by (simp_all add: refused_def raised_simps add_tb_def raised_def allocd_def traced_def std_module_def)
  have n: "evq (bnd (chk 141 (?nl (cinit_list loc 1 iv perm))) f) c V R (\<lambda>p l s V'. p = 0 \<and> l = 141 \<and> V' = V \<and> (\<exists>w. s = ?c\<lparr>wld := w\<rparr>))"
    for f R
    unfolding chk_def
    by (rule evq_bnd, rule evq_bnd_ev [OF refused_absent [OF assms(1-4)]], simp, rule evq_err) auto
  have x: "ev (except_clause E 147 ''NoSuchSemaphoreException'') ?c V True (?c\<lparr>curexc := None\<rparr>) V"
    by (rule ev_except_match [OF c])
  have r: "evq (ret ()) (?c\<lparr>curexc := None\<rparr>) V (\<lambda>_ s V'. evq m s V' Q G) G"
    by (rule evq_ret) (simp add: assms(5))
  show ?thesis unfolding overwrite_existing_def overwrite_try_def
    by (rule evq_sq, rule evq_label, rule overwrite_args [OF assms(1-3)], rule evq_mono [OF n])
      (auto intro!: evq_bnd_ev [OF x] r)
qed

text \<open>A lock of the name: it is joined, destroyed and its object released.\<close>

lemma overwrite_present:
  assumes "gil c" and "std_module c" and "heap_ok c" and "posix_name loc" and "v_semname V loc = Some k"
    and "v_shmname V loc = Some g" and "v_byte V g \<noteq> 0x7F" and room: "fd_room V 2"
    and fin: "\<And>s V1 s2 V2. joined c V loc k g s V1 \<Longrightarrow> destroyed s V1 (nobj c) loc k g s2 V2 \<Longrightarrow>
      evq m (s2\<lparr>objs := (objs s2)(nobj c := None)\<rparr>) V2 Q G"
  shows "evq (sq (overwrite_existing E (\<lambda>args. hl_call E (Suc d) args None) loc iv perm) m) c V Q G"
proof -
  let ?nl = "\<lambda>args. hl_call E (Suc d) args None" and ?n = "nobj c"
  let ?f = "\<lambda>o1. case o1 of PyLock n \<Rightarrow> bnd (destroy_f E n) (\<lambda>r. sq (hl_tp_dealloc n) (whn (r = - 1) (pyx_err 0 145)))
      | _ \<Rightarrow> stuck Undefined"
  have d: "evq (bnd (destroy_f E ?n) (\<lambda>r. sq (hl_tp_dealloc ?n) (whn (r = - 1) (pyx_err 0 145)))) s V1
      (\<lambda>_ s V'. evq m s V' Q G) G'" if j: "joined c V loc k g s V1" for s V1 G'
  proof -
    have o: "owns s V1 ?n loc k g" "std_module s" using j assms(2) by (simp_all add: joined_def attached_def)
    have t: "evq (sq (hl_tp_dealloc ?n) (whn ((0 :: c_int) = - 1) (pyx_err 0 145))) s2 V2 (\<lambda>_ s V'. evq m s V' Q G) G'"
      if "destroyed s V1 ?n loc k g s2 V2" for s2 V2
      unfolding hl_tp_dealloc_def
      by (rule evq_sq_ev [OF ev_upd [where c' = "s2\<lparr>objs := (objs s2)(?n := None)\<rparr>"]], simp, rule evq_ev [OF ev_whn_no], simp)
        (simp add: fin [OF j that])
    show ?thesis by (rule evq_bnd, rule evq_mono [OF destroy_open [OF o(1) assms(4) o(2)]]) (use t in auto)
  qed
  have "evq (bnd (chk 141 (?nl (cinit_list loc 1 iv perm))) ?f) c V (\<lambda>_ s V'. evq m s V' Q G) G'" for G'
    unfolding chk_def
    by (rule evq_bnd, rule evq_bnd, rule evq_mono [OF join_existing [OF assms(1-7) _ room]]) (auto intro!: evq_ret d)
  then show ?thesis unfolding overwrite_existing_def overwrite_try_def
    by (intro evq_sq evq_label overwrite_args [OF assms(1,2,4)])
qed

lemma overwrite_replaces:
  assumes "gil c" and "std_module c" and "heap_ok c" and "posix_name loc" and "v_semname V loc = Some k0"
    and "v_shmname V loc = Some g0" and "v_byte V g0 \<noteq> 0x7F" and "unat iv \<le> sem_value_max" and "to_char iv \<noteq> 0x7F"
    and room: "fd_room V 4"
  shows "evq (hl_call E (Suc (Suc d)) (cinit_list loc 2 iv perm) None) c V
    (\<lambda>r s V'. r = Some (PyLock (nobj c)) \<and> (\<exists>k g. replaced c V loc (unat iv) (to_char iv) k0 g0 k g s V')) G"
proof (rule evq_hl_call [OF assms(1,4)])
  let ?c = "allocd c loc" and ?x = "hlock_zero\<lparr>cleaned_up := 1, sem_loc := Some (nmem c)\<rparr>"
  let ?P = "\<lambda>r s V'. r = Some (PyLock (nobj c)) \<and> (\<exists>k g. replaced c V loc (unat iv) (to_char iv) k0 g0 k g s V')"
  let ?Q = "\<lambda>_ s V'. \<exists>x. objs s (nobj c) = Some x \<and> (\<forall>w. ?P (Some (PyLock (nobj c)))
      (s\<lparr>objs := (objs s)(nobj c := Some (x\<lparr>cleaned_up := 0\<rparr>)), wld := w\<rparr>) V')"
  have st: "std_module ?c" "gil ?c" "heap_ok ?c" and de: "v_DESTROYED c = 0x7F"
    using assms(1-3) by (simp_all add: std_module_def allocd_def heap_ok_def)
  have room2: "fd_room V 2" by (rule fd_room_less [OF room]) simp
  have "evq (sq (cinit_sem_open E (nobj c) loc (O_CREAT OR O_EXCL) perm iv)
      (sq (cinit_null_raises E (nobj c) 159 ''SemaphoreExistsException'' loc) (cinit_call_init_mmap_kw E (nobj c) 161 loc perm iv)))
      (s2\<lparr>objs := (objs s2)(nobj ?c := None)\<rparr>) V2 ?Q G'"
    if j: "joined ?c V loc k0 g0 s V1" and t: "destroyed s V1 (nobj ?c) loc k0 g0 s2 V2" for s V1 s2 V2 G'
  proof -
    let ?s = "s2\<lparr>objs := (objs s2)(nobj ?c := None)\<rparr>"
    note cl = cleared_after [OF assms(3) j t]
    have cs: "gil ?s" "objs ?s = objs ?c" "v_semname V2 loc = None" "std_module ?s" "fd_room V2 2"
      using cl [unfolded cleared_def] assms(1,2) room by (simp_all del: allocd_simps)
    have o: "objs ?s (nobj c) = Some ?x" using cs(2) by simp
    have "to_char iv \<noteq> v_DESTROYED ?s" using cs(4) assms(9) by (simp add: std_module_def)
    then show ?thesis
    proof (rule evq_create [OF cs(1) assms(4) o cs(3) assms(8) _ cs(5)])
      fix h k V3 fd a g V' w assume m: "sem_made V2 loc (unat iv) h k V3" "shm_mapped V3 loc iv fd a g V'"
      note replaced_built [OF cl m iv_byte [OF assms(8)]]
      then show "?Q () (?s\<lparr>objs := (objs ?s)(nobj c := Some (att ?x h fd a)), wld := w\<rparr>) V'"
        unfolding cs(2) by (auto simp: att_new)
    qed
  qed
  then have "evq (cinit_create_overwrite E (\<lambda>args. hl_call E (Suc d) args None) (nobj c) loc iv perm) ?c V ?Q (\<lambda>_ _ _ _. False)"
    unfolding cinit_create_overwrite_def by (rule overwrite_present [OF st(2,1,3) assms(4-7) room2])
  then show "evq (cinit_dispatch E (\<lambda>args. hl_call E (Suc d) args None) (nobj c) loc 2 iv perm) ?c V ?Q (\<lambda>_ _ _ _. False)"
    by (rule evq_dispatch(3) [OF st(2,1)])
qed

lemma overwrite_creates:
  assumes "gil c" and "std_module c" and "heap_ok c" and "posix_name loc" and "v_semname V loc = None"
    and "unat iv \<le> sem_value_max" and "to_char iv \<noteq> 0x7F" and "curexc c = None"
    and room: "fd_room V 2"
  shows "evq (hl_call E (Suc (Suc d)) (cinit_list loc 2 iv perm) None) c V
    (\<lambda>r s V'. r = Some (PyLock (nobj c)) \<and> (\<exists>k g. created c V loc (unat iv) (to_char iv) k g s V')) G"
proof (rule evq_hl_call [OF assms(1,4)])
  let ?c = "allocd c loc" and ?x = "hlock_zero\<lparr>cleaned_up := 1, sem_loc := Some (nmem c)\<rparr>"
  let ?P = "\<lambda>r s V'. r = Some (PyLock (nobj c)) \<and> (\<exists>k g. created c V loc (unat iv) (to_char iv) k g s V')"
  let ?Q = "\<lambda>_ s V'. \<exists>x. objs s (nobj c) = Some x \<and> (\<forall>w. ?P (Some (PyLock (nobj c)))
      (s\<lparr>objs := (objs s)(nobj c := Some (x\<lparr>cleaned_up := 0\<rparr>)), wld := w\<rparr>) V')"
  let ?s = "(refused ?c loc NoSuchSemaphore 113)\<lparr>curexc := None\<rparr>"
  have st: "std_module ?c" "gil ?c" using assms(1,2) by (simp_all add: std_module_def allocd_def)
  have n: "objs ?c (nobj ?c) = None" "nobj ?c = Suc (nobj c)" using assms(3) by (simp_all add: heap_ok_def allocd_def)
  have o: "objs ?s = objs ?c" using n(1) by (simp add: refused_def fun_upd_idem del: allocd_simps)
  have s: "gil ?s" "std_module ?s"
    using st by (simp_all add: refused_def traced_def raised_def std_module_def allocd_def)
  have g: "grown c loc x (?s\<lparr>objs := (objs c)(nobj c := Some x), wld := w\<rparr>)" for x w
    using assms(3,8) by (auto simp: grown_def refused_def traced_def raised_def allocd_def heap_ok_def std_module_def)
  have x: "objs ?s (nobj c) = Some ?x" unfolding o by simp
  have d: "to_char iv \<noteq> v_DESTROYED ?s" using s(2) assms(7) by (simp add: std_module_def)
  have "evq (sq (cinit_sem_open E (nobj c) loc (O_CREAT OR O_EXCL) perm iv)
      (sq (cinit_null_raises E (nobj c) 159 ''SemaphoreExistsException'' loc) (cinit_call_init_mmap_kw E (nobj c) 161 loc perm iv)))
      ?s V ?Q G'" for G'
  proof (rule evq_create [OF s(1) assms(4) x assms(5,6) d room])
    fix h k V1 fd a g V' w assume m: "sem_made V loc (unat iv) h k V1" "shm_mapped V1 loc iv fd a g V'"
    note created_built [OF assms(3) g m iv_byte [OF assms(6)]]
    then show "?Q () (?s\<lparr>objs := (objs ?s)(nobj c := Some (att ?x h fd a)), wld := w\<rparr>) V'"
      unfolding o by (auto simp: att_new)
  qed
  then have "evq (cinit_create_overwrite E (\<lambda>args. hl_call E (Suc d) args None) (nobj c) loc iv perm) ?c V ?Q (\<lambda>_ _ _ _. False)"
    unfolding cinit_create_overwrite_def by (rule overwrite_absent [OF st(2,1) assms(4,5)])
  then show "evq (cinit_dispatch E (\<lambda>args. hl_call E (Suc d) args None) (nobj c) loc 2 iv perm) ?c V ?Q (\<lambda>_ _ _ _. False)"
    by (rule evq_dispatch(3) [OF st(2,1)])
qed

end

end
