(* ===== verification/Neutral.thy ===== *)
theory Neutral
  imports HL_Wrappers
begin

text \<open>
  Statements that neither wait for a semaphore, post it, write to shared memory
  nor ask for the pid.  The locale \<open>neutral_law\<close> takes a relation between worlds that every
  other call of the system keeps, and carries it through the run-time functions
  and the parts of the lock that only look: the queries, the tests of the marker,
  the spin.  The locales that count waits and posts and that trace what the lock
  does build on it.
\<close>

locale neutral_law =
  fixes E :: "'w env"
    and nstep :: "'w \<Rightarrow> 'w \<Rightarrow> bool"
  assumes n_refl: "nstep w w"
    and n_trans: "nstep w w1 \<Longrightarrow> nstep w1 w2 \<Longrightarrow> nstep w w2"
    and n_getvalue: "x_sem_getvalue E h w = Sys (v, w') \<Longrightarrow> nstep w w'"
    and n_ld8: "x_ld8 E a w = Sys (c, w') \<Longrightarrow> nstep w w'"
    and n_ld32: "x_ld32 E a w = Sys (i, w') \<Longrightarrow> nstep w w'"
    and n_clock: "x_clock_gettime E w = Sys (t, w') \<Longrightarrow> nstep w w'"
    and n_malloc: "x_malloc E n w = Sys (b, w') \<Longrightarrow> nstep w w'"
    and n_gil: "x_gil E w = Sys (u, w') \<Longrightarrow> nstep w w'"
    and n_py: "x_py E f w = Sys (e, w') \<Longrightarrow> nstep w w'"
    and n_call: "x_call E y args w = Sys (o1, w') \<Longrightarrow> nstep w w'"
begin

text \<open>The statement leaves the objects and the constants of the module alone, and is
  neutral towards the world.\<close>

definition neu :: "'w cst \<Rightarrow> 'w cst \<Rightarrow> bool" where
  "neu s t = (objs t = objs s \<and> v_LOCKED t = v_LOCKED s \<and> v_UNLOCKED t = v_UNLOCKED s \<and> v_DESTROYED t = v_DESTROYED s
    \<and> nstep (wld s) (wld t))"

definition N :: "('w, 'a) cprog \<Rightarrow> bool" where
  "N m = (\<forall>s. wp m (\<lambda>_ t. neu s t) (\<lambda>_ _ t. neu s t) (\<lambda>_. True) s)"

lemma neu_refl: "neu s s"
  by (simp add: neu_def n_refl)

lemma neu_trans: "neu s t \<Longrightarrow> neu t u \<Longrightarrow> neu s u"
  by (auto simp: neu_def intro: n_trans)

lemma N_wp: "N m \<Longrightarrow> neu s t \<Longrightarrow> wp m (\<lambda>_ u. neu s u) (\<lambda>_ _ u. neu s u) (\<lambda>_. True) t"
  unfolding N_def by (erule allE [of _ t], erule wp_mono) (auto intro: neu_trans)

lemma N_ret: "N (ret a)"
  by (simp add: N_def wp_ret neu_refl)

lemma N_err: "N (pyx_err p l)"
  by (simp add: N_def wp_pyx_err neu_refl)

lemma N_stuck: "N (stuck u)"
  by (simp add: N_def wp_stuck)

lemma N_rd: "N (rd g)"
  by (simp add: N_def wp_rd neu_refl)

lemma N_upd: "(\<And>s. objs (g s) = objs s \<and> wld (g s) = wld s \<and> v_LOCKED (g s) = v_LOCKED s
    \<and> v_UNLOCKED (g s) = v_UNLOCKED s \<and> v_DESTROYED (g s) = v_DESTROYED s) \<Longrightarrow> N (upd g)"
  by (simp add: N_def wp_upd neu_def n_refl)

lemma N_bnd: "N m \<Longrightarrow> (\<And>a. N (f a)) \<Longrightarrow> N (bnd m f)"
  unfolding N_def [of "bnd m f"] wp_bnd
  by (intro allI, rule wp_mono [OF N_wp [OF _ neu_refl]]) (auto intro: N_wp)

lemma N_sq: "N m \<Longrightarrow> N m' \<Longrightarrow> N (sq m m')"
  unfolding sq_def by (rule N_bnd)

lemma N_if: "N m \<Longrightarrow> N m' \<Longrightarrow> N (if b then m else m')"
  by simp

lemma N_whn: "N m \<Longrightarrow> N (whn b m)"
  by (simp add: whn_def N_ret)

lemma N_option: "N m \<Longrightarrow> (\<And>v. N (f v)) \<Longrightarrow> N (case x of None \<Rightarrow> m | Some v \<Rightarrow> f v)"
  by (cases x) simp_all

lemma N_prod: "(\<And>a b. N (f a b)) \<Longrightarrow> N (case x of (a, b) \<Rightarrow> f a b)"
  by (cases x) simp

lemma N_label: "N m \<Longrightarrow> (\<And>p l. N (h p l)) \<Longrightarrow> N (at_label m h)"
  unfolding N_def [of "at_label m h"] wp_at_label
  by (intro allI, rule wp_mono [OF N_wp [OF _ neu_refl]]) (auto intro: N_wp)

lemma N_sysc: "(\<And>w r w'. f w = Sys (r, w') \<Longrightarrow> nstep w w') \<Longrightarrow> N (sysc f)"
  by (auto simp: N_def wp_def sysc_def neu_def split: sysres.splits)

lemma N_nonnull: "N (nonnull p)"
  by (simp add: nonnull_def N_ret N_stuck split: option.split)

lemma N_self_rd: "N (self_rd m g)"
  by (auto simp: N_def wp_def self_rd_def neu_refl split: option.splits)

lemma N_need_gil: "N need_gil"
  by (simp add: N_def wp_def need_gil_def neu_refl)

lemma N_gil: "N (sysc (x_gil E))"
  by (rule N_sysc) (rule n_gil)

lemmas N_struct = N_gil N_ret N_err N_stuck N_rd N_bnd N_sq N_if N_whn N_option N_prod N_label N_nonnull N_self_rd N_need_gil

lemma N_ld: "N (ld8 E p)" "N (ld32 E p)"
  unfolding ld8_def ld32_def by (intro N_bnd N_nonnull N_sysc, erule n_ld8 n_ld32)+

lemma N_prims: "N unblock_threads" "N (block_threads E)" "N (gilstate_ensure E)" "N (gilstate_release g)"
  "N (set_err c x)" "N (set_pyerr e)"
  unfolding unblock_threads_def block_threads_def gilstate_ensure_def gilstate_release_def set_err_def set_pyerr_def
  by (intro N_struct N_upd; simp)+

lemma N_capi: "N (capi E f v)"
  unfolding capi_def by (intro N_struct N_prims N_sysc) (rule n_py)

lemma N_chk: "N m \<Longrightarrow> N (chk l m)"
  unfolding chk_def by (intro N_struct)

lemmas N_calls = N_struct N_prims N_capi N_chk

section \<open>The run-time functions\<close>

lemma N_occurred: "N pyerr_occurred"
  unfolding pyerr_occurred_def by (intro N_calls)

lemma N_builtin: "N (pyx_GetBuiltinName E name)"
  unfolding pyx_GetBuiltinName_def by (auto intro!: N_calls split: option.splits)

lemma N_global: "N (pyx_GetModuleGlobalName E name)"
  unfolding pyx_GetModuleGlobalName_def by (intro N_calls N_builtin)

lemma N_xcall: "N (bnd (sysc (x_call E f args)) (\<lambda>(r, e). case e of
    None \<Rightarrow> ret r | Some x \<Rightarrow> sq (set_pyerr x) (ret None)))"
  by (intro N_calls N_sysc) (rule n_call)

lemma N_call_slot: "N (call_slot E f args)"
  unfolding call_slot_def by (auto intro: N_capi N_xcall split: pyobj.split)

lemma N_call: "N (pyx_PyObject_Call E f args)"
  unfolding pyx_PyObject_Call_def pyx_call_checked_def by (intro N_calls N_call_slot N_occurred)

lemma N_call_one: "N (pyx_PyObject_CallOneArg E f x)"
  unfolding pyx_PyObject_CallOneArg_def by (intro N_calls N_call)

lemma N_call_args: "N (call_args E f args)"
  unfolding call_args_def pyx_PyObject_CallNoArg_def
  by (auto intro!: N_calls N_call N_call_one split: list.split)

lemma N_raise_instance: "N (raise_instance E c v)"
proof -
  have t: "N (case v of None \<Rightarrow> capi E ''PyTuple_New'' [] | Some (PyTuple xs) \<Rightarrow> ret (Some xs)
      | Some x \<Rightarrow> capi E ''PyTuple_Pack'' [x])"
    by (auto intro: N_capi N_ret split: option.split pyobj.split)
  show ?thesis unfolding raise_instance_def by (rule N_bnd [OF t]) (intro N_calls N_call)
qed

lemma N_Raise: "N (pyx_Raise E t v)"
proof -
  have "N (bnd (raise_instance E c x) (\<lambda>i. case i of None \<Rightarrow> ret () | Some o1 \<Rightarrow> set_err c o1))" for c x
    by (intro N_calls N_raise_instance)
  then show ?thesis unfolding pyx_Raise_def Let_def
    by (auto intro: N_prims split: pyobj.split option.split)
qed

lemma N_traceback_here: "N (traceback_here E c l)"
  unfolding traceback_here_def by (intro N_calls N_upd) simp

lemma N_AddTraceback: "N (pyx_AddTraceback E fn l file)"
proof -
  have al: "N (cache_alloc E c)" for c
    unfolding cache_alloc_def by (auto intro!: N_ret N_sysc n_malloc)
  have ins: "N (sq (upd (\<lambda>s. s\<lparr>cocache := g (cocache s)\<rparr>)) (traceback_here E c l))" for g c
    by (intro N_sq N_upd N_traceback_here) simp
  have new: "N (bnd (pyx_CreateCodeObject E fn l file) (\<lambda>r. case r of None \<Rightarrow> ret ()
      | Some code \<Rightarrow> bnd (cache_alloc E c0) (\<lambda>mem.
          sq (upd (\<lambda>s. s\<lparr>cocache := pyx_insert_code_object mem l code (cocache s)\<rparr>)) (traceback_here E code l))))" for c0
    unfolding pyx_CreateCodeObject_def by (intro N_bnd [OF N_capi] N_option N_ret N_bnd [OF al] ins)
  show ?thesis unfolding pyx_AddTraceback_def
    by (rule N_bnd [OF N_rd], rule N_option [OF new N_traceback_here])
qed

lemma N_exit: "N m \<Longrightarrow> N (exit_err E fn v m)"
  unfolding exit_err_def by (intro N_struct N_AddTraceback)

lemma N_raise_const: "N (raise_const E l c args)"
  unfolding raise_const_def by (intro N_calls N_call N_Raise)

lemma N_raise_global: "N (raise_global E l name args)"
  unfolding raise_global_def by (intro N_calls N_global N_call_args N_Raise)

section \<open>The parts of the lock that only look\<close>

lemma N_clock: "N (get_current_time_ms E)"
  unfolding get_current_time_ms_def by (intro N_struct N_sysc) (rule n_clock)

lemma N_flags: "N (is_destroyed E m)" "N (is_unlocked E m)"
  unfolding is_destroyed_def is_unlocked_def by (intro N_struct N_ld)+

lemma N_get_value: "N (get_value_f E m)"
  unfolding get_value_f_def
  by (intro N_exit N_struct N_flags N_raise_global N_raise_const N_sysc) (rule n_getvalue)

lemma N_get_pid: "N (get_pid_f E m)"
  unfolding get_pid_f_def by (intro N_exit N_struct N_get_value N_ld)

lemma N_get_destroyed: "N (get_destroyed_f E m)"
  unfolding get_destroyed_f_def by (intro N_struct N_flags)

lemma N_check_destroyed: "N (lock_check_destroyed E m)"
  unfolding lock_check_destroyed_def by (intro N_struct N_flags N_raise_global)

lemma N_spin_loop: "N (spin_loop E m from_t i)"
proof (induction "nat (0x2001 - i)" arbitrary: i rule: less_induct)
  case less
  have r: "N (if 0x2000 < i then ret () else spin_loop E m from_t (i + 1))"
    using less.hyps [of "i + 1"] by (simp add: N_ret)
  have d: "N (spin_destroyed E)"
    unfolding spin_destroyed_def by (intro N_struct N_prims N_raise_global)
  show ?case unfolding spin_loop.simps [of E m from_t i]
    by (intro N_bnd [OF N_clock] N_bnd [OF N_flags(1)] N_bnd [OF N_flags(2)] N_if N_ret d r)
qed

lemma N_spin_phase: "N (spin_phase E m from_t)"
  unfolding spin_phase_def by (intro N_struct N_prims N_spin_loop)

lemma N_timed_fail: "N (lock_timed_fail E t)"
  unfolding lock_timed_fail_def by (intro N_calls N_raise_global N_call_one N_Raise)

lemma N_keeps: "N m \<Longrightarrow> m c = Ret r c' \<Longrightarrow> neu c c'"
  by (auto simp: N_def wp_def dest!: spec [of _ c])

end

end
