(* ===== verification/Permits.thy ===== *)
theory Permits
  imports Neutral
begin

text \<open>
  Which permits of the semaphore an operation takes or gives back, whatever
  the environment does: the locale \<open>permit_law\<close> says what each call of the
  operating system does to a relation \<open>step h d w w'\<close> (between the worlds \<open>w\<close>
  and \<open>w'\<close> this thread took \<open>d\<close> permits more of the semaphore behind \<open>h\<close> than it
  gave back), and carries it through the statements of \<open>lock\<close> and \<open>unlock\<close>; what
  is neutral takes none.
\<close>

locale permit_law =
  fixes E :: "'w env"
    and step :: "nat \<Rightarrow> int \<Rightarrow> 'w \<Rightarrow> 'w \<Rightarrow> bool"
  assumes st_refl: "step h 0 w w"
    and st_trans: "step h d w w1 \<Longrightarrow> step h d' w1 w2 \<Longrightarrow> step h (d + d') w w2"
    and st_wait: "x_sem_wait E h w = Sys (r, w') \<Longrightarrow> step h (if r = - 1 then 0 else 1) w w'"
    and st_timed: "x_sem_timedwait E h ts tn w = Sys (r, w') \<Longrightarrow> step h (if r = - 1 then 0 else 1) w w'"
    and st_post: "x_sem_post E h w = Sys (r, w') \<Longrightarrow> step h (if r = 0 then - 1 else 0) w w'"
    and st_getvalue: "x_sem_getvalue E h' w = Sys (v, w') \<Longrightarrow> step h 0 w w'"
    and st_ld8: "x_ld8 E a w = Sys (c, w') \<Longrightarrow> step h 0 w w'"
    and st_st8: "x_st8 E a c w = Sys (u, w') \<Longrightarrow> step h 0 w w'"
    and st_st32: "x_st32 E a i w = Sys (u, w') \<Longrightarrow> step h 0 w w'"
    and st_clock: "x_clock_gettime E w = Sys (t, w') \<Longrightarrow> step h 0 w w'"
    and st_ld32: "x_ld32 E a w = Sys (i, w') \<Longrightarrow> step h 0 w w'"
    and st_getpid: "x_getpid E w = Sys (p, w') \<Longrightarrow> step h 0 w w'"
    and st_malloc: "x_malloc E n w = Sys (b, w') \<Longrightarrow> step h 0 w w'"
    and st_gil: "x_gil E w = Sys (u, w') \<Longrightarrow> step h 0 w w'"
    and st_py: "x_py E f w = Sys (e, w') \<Longrightarrow> step h 0 w w'"
    and st_call: "x_call E y args w = Sys (o1, w') \<Longrightarrow> step h 0 w w'"

sublocale permit_law \<subseteq> neutral_law E "\<lambda>w w'. \<forall>h. step h 0 w w'"
proof unfold_locales
  fix w w1 w2 assume "\<forall>h. step h 0 w w1" "\<forall>h. step h 0 w1 w2"
  then show "\<forall>h. step h 0 w w2" using st_trans [of _ 0 w w1 0 w2] by simp
qed (simp add: st_refl | blast intro: st_getvalue st_ld8 st_ld32 st_clock st_malloc st_gil st_py st_call)+

context permit_law
begin

text \<open>Between \<open>s\<close> and \<open>t\<close>, \<open>d\<close> permits of the semaphore of object \<open>n\<close> were taken.\<close>

definition took :: "nat \<Rightarrow> int \<Rightarrow> 'w cst \<Rightarrow> 'w cst \<Rightarrow> bool" where
  "took n d s t = (objs t = objs s \<and> (\<forall>o1 h. objs s n = Some o1 \<and> semaphore o1 = Some h \<longrightarrow> step h d (wld s) (wld t)))"

definition A :: "nat \<Rightarrow> ('a \<Rightarrow> int) \<Rightarrow> int \<Rightarrow> ('w, 'a) cprog \<Rightarrow> bool" where
  "A n D G m = (\<forall>s. wp m (\<lambda>a t. took n (D a) s t) (\<lambda>_ _ t. took n G s t) (\<lambda>_. True) s)"

lemma took_refl: "took n 0 s s"
  by (simp add: took_def st_refl)

lemma took_trans: "took n d s t \<Longrightarrow> took n d' t u \<Longrightarrow> took n (d + d') s u"
  by (auto simp: took_def intro: st_trans)

lemma A_N: "N m \<Longrightarrow> A n (\<lambda>_. 0) 0 m"
  unfolding A_def N_def by (intro allI, erule allE, erule wp_mono) (auto simp: neu_def took_def)

lemma A_bnd: "A n D0 G m \<Longrightarrow> (\<And>a. A n (\<lambda>b. D b - D0 a) (G - D0 a) (f a)) \<Longrightarrow> A n D G (bnd m f)"
  unfolding A_def
proof (intro allI)
  fix s assume m: "\<forall>s. wp m (\<lambda>a t. took n (D0 a) s t) (\<lambda>_ _ t. took n G s t) (\<lambda>_. True) s"
    and f: "\<And>a. \<forall>s. wp (f a) (\<lambda>b t. took n (D b - D0 a) s t) (\<lambda>_ _ t. took n (G - D0 a) s t) (\<lambda>_. True) s"
  have "wp (f a) (\<lambda>b t. took n (D b) s t) (\<lambda>_ _ t. took n G s t) (\<lambda>_. True) t" if "took n (D0 a) s t" for a t
    by (rule wp_mono [OF f [of a, THEN spec, of t]]) (use took_trans [OF that] in force)+
  then show "wp (bnd m f) (\<lambda>b t. took n (D b) s t) (\<lambda>_ _ t. took n G s t) (\<lambda>_. True) s"
    unfolding wp_bnd by (intro wp_mono [OF m [THEN spec, of s]]) auto
qed

lemma A_bndN: "N m \<Longrightarrow> (\<And>a. A n D 0 (f a)) \<Longrightarrow> A n D 0 (bnd m f)"
  by (rule A_bnd [where ?D0.0 = "\<lambda>_. 0", OF A_N]) simp_all

lemma A_sqN: "N m \<Longrightarrow> A n D 0 m' \<Longrightarrow> A n D 0 (sq m m')"
  unfolding sq_def by (rule A_bndN)

lemma A_ret: "D a = 0 \<Longrightarrow> A n D G (ret a)"
  by (simp add: A_def wp_ret took_refl)

lemma A_err: "A n D 0 (pyx_err p l)"
  by (simp add: A_def wp_pyx_err took_refl)

lemma A_stuck: "A n D G (stuck u)"
  by (simp add: A_def wp_stuck)

lemma A_if: "A n D G m \<Longrightarrow> A n D G m' \<Longrightarrow> A n D G (if b then m else m')"
  by simp

lemma A_option: "A n D G m \<Longrightarrow> (\<And>v. A n D G (f v)) \<Longrightarrow> A n D G (case x of None \<Rightarrow> m | Some v \<Rightarrow> f v)"
  by (cases x) simp_all

lemma A_label: "A n D 0 m \<Longrightarrow> (\<And>p l. A n D 0 (h p l)) \<Longrightarrow> A n D 0 (at_label m h)"
  unfolding A_def
proof (intro allI)
  fix s assume m: "\<forall>s. wp m (\<lambda>a t. took n (D a) s t) (\<lambda>_ _ t. took n 0 s t) (\<lambda>_. True) s"
    and h: "\<And>p l. \<forall>s. wp (h p l) (\<lambda>a t. took n (D a) s t) (\<lambda>_ _ t. took n 0 s t) (\<lambda>_. True) s"
  have "wp (h p l) (\<lambda>a t. took n (D a) s t) (\<lambda>_ _ t. took n 0 s t) (\<lambda>_. True) t" if "took n 0 s t" for p l t
    by (rule wp_mono [OF h [of p l, THEN spec, of t]]) (use took_trans [OF that] in force)+
  then show "wp (at_label m h) (\<lambda>a t. took n (D a) s t) (\<lambda>_ _ t. took n 0 s t) (\<lambda>_. True) s"
    unfolding wp_at_label by (intro wp_mono [OF m [THEN spec, of s]]) auto
qed

lemma A_prod: "(\<And>a b. A n D G (f a b)) \<Longrightarrow> A n D G (case x of (a, b) \<Rightarrow> f a b)"
  by (cases x) simp

lemma A_bndA: "A n (\<lambda>_. 0) 0 m \<Longrightarrow> (\<And>a. A n D 0 (f a)) \<Longrightarrow> A n D 0 (bnd m f)"
  by (rule A_bnd [where ?D0.0 = "\<lambda>_. 0"]) simp_all

lemma A_sqA: "A n (\<lambda>_. 0) 0 m \<Longrightarrow> A n D 0 m' \<Longrightarrow> A n D 0 (sq m m')"
  unfolding sq_def by (rule A_bndA)

lemma A_store: "A n (\<lambda>_. 0) 0 (st8 E p v)" "A n (\<lambda>_. 0) 0 (st32 E p i)"
  by (auto simp: A_def wp_def st8_def st32_def nonnull_def sysc_def took_def run_defs
      split: option.splits sysres.splits dest: st_st8 st_st32)

lemma A_exit: "A n D 0 m \<Longrightarrow> D v = 0 \<Longrightarrow> A n D 0 (exit_err E fn v m)"
  unfolding exit_err_def by (rule A_label, assumption, rule A_sqN [OF N_AddTraceback], rule A_ret)

lemma A_raise_const: "A n D 0 (raise_const E l c args)"
  unfolding raise_const_def by (intro A_bndN [OF N_chk [OF N_call]] A_sqN [OF N_Raise] A_err)

section \<open>The lock\<close>

text \<open>A call on the semaphore of \<open>self\<close> that takes \<open>d r\<close> permits when it returns \<open>r\<close>.\<close>

lemma A_sem:
  assumes "\<And>h w r w'. f h w = Sys (r, w') \<Longrightarrow> step h (d r) w w'"
    and "\<And>r. A n (\<lambda>b. D b - d r) (- d r) (m r)"
  shows "A n D 0 (bnd (self_rd n semaphore) (\<lambda>sm. bnd (nonnull sm) (\<lambda>h. bnd (sysc (f h)) m)))"
proof -
  have w: "wp (bnd (sysc (f h)) m) (\<lambda>a t. took n (D a) s t) (\<lambda>_ _ t. took n 0 s t) (\<lambda>_. True) s"
    if "\<And>o1. objs s n = Some o1 \<Longrightarrow> semaphore o1 = Some h" for h s
  proof (cases "f h (wld s)")
    case (Sys x)
    obtain r w' where x: "x = (r, w')" by (cases x)
    let ?t = "s\<lparr>wld := w'\<rparr>"
    have t: "took n (d r) s ?t"
      using assms(1) [of h "wld s" r w'] Sys x that by (auto simp: took_def)
    have "wp (m r) (\<lambda>a u. took n (D a) s u) (\<lambda>_ _ u. took n 0 s u) (\<lambda>_. True) ?t"
      using assms(2) [of r] unfolding A_def
      by (rule_tac wp_mono [OF spec [where x = ?t]], assumption) (use took_trans [OF t] in force)+
    then show ?thesis using Sys x by (simp add: wp_def bnd_def sysc_def)
  qed (simp_all add: wp_def bnd_def sysc_def)
  show ?thesis
    unfolding A_def
  proof (intro allI)
    fix s
    show "wp (bnd (self_rd n semaphore) (\<lambda>sm. bnd (nonnull sm) (\<lambda>h. bnd (sysc (f h)) m)))
      (\<lambda>a t. took n (D a) s t) (\<lambda>_ _ t. took n 0 s t) (\<lambda>_. True) s"
      using w [of s] by (auto simp: wp_def self_rd_def nonnull_def bnd_def [of "self_rd n semaphore"]
          bnd_def [of "ret x" for x] stuck_def bnd_def [of "stuck u" for u] split: option.split)
  qed
qed

lemma A_no_goto: "A n D 0 m \<Longrightarrow> (\<And>s p l t. m s \<noteq> Goto p l t) \<Longrightarrow> A n D G m"
  unfolding A_def wp_def by (elim all_forward) (auto split: out.splits)

text \<open>A wait that did not fail took one permit.\<close>

abbreviation taken :: "c_int \<Rightarrow> int" where
  "taken r \<equiv> if r = - 1 then 0 else 1"

lemma A_mark: "A n (\<lambda>_. 0) 0 (mark_locked E n)"
  unfolding mark_locked_def by (intro A_bndN [OF N_self_rd] A_bndN [OF N_rd] A_store)

lemma A_wait:
  assumes "\<And>h w r w'. f h w = Sys (r, w') \<Longrightarrow> step h (taken r) w w'" and "A n taken 0 m"
  shows "A n taken 0 (bnd (self_rd n semaphore) (\<lambda>sm. bnd (nonnull sm) (\<lambda>h. bnd (sysc (f h)) (\<lambda>retval.
     sq (block_threads E) (if retval \<noteq> - 1 then sq (mark_locked E n) (ret retval) else m)))))"
proof (rule A_sem [OF assms(1)], assumption)
  fix r :: c_int
  show "A n (\<lambda>b. taken b - taken r) (- taken r)
      (sq (block_threads E) (if r \<noteq> - 1 then sq (mark_locked E n) (ret r) else m))"
  proof (cases "r = - 1")
    case True
    then show ?thesis using A_sqN [OF N_prims(2) assms(2)] by simp
  next
    case False
    have "A n (\<lambda>b. taken b - 1) 0 (sq (block_threads E) (sq (mark_locked E n) (ret r)))"
      by (intro A_sqN [OF N_prims(2)] A_sqA [OF A_mark] A_ret) (use False in simp)
    moreover have "sq (block_threads E) (sq (mark_locked E n) (ret r)) s \<noteq> Goto p l t" for s p l t
      by (auto simp: mark_locked_def block_threads_def run_defs sysc_def st8_def self_rd_def
          nonnull_def split: out.splits option.splits sysres.splits if_splits)
    ultimately show ?thesis using False by (simp add: A_no_goto)
  qed
qed

lemma A_lock: "A n taken 0 (lock_f E n oa)"
proof -
  have f: "A n taken 0 (lock_timed_fail E t)" for t
    unfolding lock_timed_fail_def raise_global_def
    by (intro A_bndN [OF N_rd] A_if A_bndN [OF N_chk [OF N_global]] A_bndN [OF N_chk [OF N_call_args]]
        A_bndN [OF N_chk [OF N_capi]] A_bndN [OF N_chk [OF N_call_one]] A_sqN [OF N_Raise] A_err)
  have w: "A n taken 0 (lock_wait E n)"
    unfolding lock_wait_def by (rule A_sqN [OF N_prims(1)], rule A_wait [OF st_wait A_raise_const])
  have c: "N (sysc (x_clock_gettime E))"
    by (rule N_sysc) (rule n_clock)
  have tm: "A n taken 0 (lock_timed E n t)" for t
    unfolding lock_timed_def
    by (rule A_bndN [OF c]) (intro A_prod A_if A_raise_const A_sqN [OF N_prims(1)] A_wait [OF st_timed f])
  have p: "A n (\<lambda>_. 0) 0 (sysc (x_getpid E))"
    by (auto simp: A_def wp_def sysc_def took_def split: sysres.splits dest: st_getpid)
  have pid: "A n (\<lambda>_. 0) 0 (whn b (lock_set_pid E n))" for b
    unfolding whn_def lock_set_pid_def by (intro A_if A_bndA [OF p] A_bndN [OF N_self_rd] A_store A_ret) simp
  have fin: "A n (\<lambda>b. taken b - taken r) (0 - taken r) (sq (whn (r = 0) (lock_set_pid E n)) (ret r))" for r
    by (rule A_no_goto [of _ _ "sq (whn (r = 0) (lock_set_pid E n)) (ret r)"], rule A_sqA [OF pid], rule A_ret)
      (auto simp: run_defs lock_set_pid_def sysc_def self_rd_def st32_def nonnull_def
        split: out.splits option.splits sysres.splits if_splits)
  show ?thesis unfolding lock_f_def Let_def
    by (rule A_exit, rule A_sqN [OF N_check_destroyed], rule A_bndN [OF N_clock],
        rule A_sqN [OF N_whn [OF N_spin_phase]], rule A_bnd [OF A_if [OF w tm] fin]) simp
qed

lemma A_unlock: "A n (\<lambda>r. if r = 0 then - 1 else 0) 0 (unlock_f E n)"
proof -
  have p: "A n (\<lambda>b. (if b = 0 then - 1 else 0) - (if r = 0 then - 1 else 0)) (- (if r = 0 then - 1 else 0))
      (if r \<noteq> 0 then raise_const E 400 c a else ret r)" for r :: c_int and c a
    by (cases "r = 0") (simp_all add: A_ret A_raise_const)
  have d: "N (bnd (is_destroyed E n) (\<lambda>b. whn b (raise_global E 391 x [])))" for x
    by (intro N_struct N_flags N_raise_global)
  have m: "A n (\<lambda>_. 0) 0 (bnd (self_rd n spin_lock_char) (\<lambda>p. bnd (rd v_UNLOCKED) (\<lambda>v. st8 E p v)))"
    by (intro A_bndN [OF N_self_rd] A_bndN [OF N_rd] A_store)
  show ?thesis unfolding unlock_f_def
    by (rule A_exit, rule A_sqN [OF d], rule A_sqA [OF m], rule A_bndN [OF N_get_value])
      (auto intro!: A_err A_ret A_sem [OF st_post p])
qed

lemma lock_took: "lock_f E n oa c = Ret r c' \<Longrightarrow> objs c n = Some o1 \<Longrightarrow> semaphore o1 = Some h \<Longrightarrow>
    step h (taken r) (wld c) (wld c')"
  using A_lock [of n oa] by (auto simp: A_def wp_def took_def dest!: spec [of _ c])

lemma unlock_gave: "unlock_f E n c = Ret r c' \<Longrightarrow> objs c n = Some o1 \<Longrightarrow> semaphore o1 = Some h \<Longrightarrow>
    step h (if r = 0 then - 1 else 0) (wld c) (wld c')"
  using A_unlock [of n] by (auto simp: A_def wp_def took_def dest!: spec [of _ c])

lemma query_took: "N m \<Longrightarrow> m c = Ret r c' \<Longrightarrow> step h 0 (wld c) (wld c') \<and> objs c' = objs c"
  using N_keeps [of m c r c'] by (simp add: neu_def)

lemma A_objs: "A n D 0 m \<Longrightarrow> m c = Ret r c' \<Longrightarrow> objs c' = objs c"
  by (auto simp: A_def wp_def took_def dest!: spec [of _ c])

lemma lock_keeps_objs: "lock_f E n oa c = Ret r c' \<Longrightarrow> objs c' = objs c"
  by (rule A_objs [OF A_lock])

lemma unlock_keeps_objs: "unlock_f E n c = Ret r c' \<Longrightarrow> objs c' = objs c"
  by (rule A_objs [OF A_unlock])

end

section \<open>Counting the permits of this thread\<close>

text \<open>
  The permits that a thread holds, as a quantity \<open>held\<close> of the world that only
  its own waits and posts change, in the worlds that satisfy \<open>I\<close>.
\<close>

definition tracks :: "('w \<Rightarrow> bool) \<Rightarrow> ('w \<Rightarrow> nat \<Rightarrow> int) \<Rightarrow> nat \<Rightarrow> int \<Rightarrow> 'w \<Rightarrow> 'w \<Rightarrow> bool" where
  "tracks I held h d w w' = (I w \<longrightarrow> I w' \<and> held w' h = held w h + d)"

end
