(* ===== verification/Effects.thy ===== *)
theory Effects
  imports Neutral
begin

text \<open>
  What \<open>lock\<close> and \<open>unlock\<close> do to the shared lock, call by call: the permits they
  take and give back, what they write to the byte and to the pid, and in which
  order.  The locale \<open>effect_law\<close> has a history of these effects, which every
  call of the system either extends or keeps; the effects of the two operations
  are then exact lists, for every environment and every interference.
\<close>

section \<open>Effects\<close>

text \<open>A permit taken or given back, a value written to the byte, the pid the system
  gave, a value written to the pid.\<close>

datatype eff = Take | Give | Mark c_char | Me c_int | Pid c_int

definition wait_eff :: "c_int \<Rightarrow> eff list" where
  "wait_eff r = (if r = - 1 then [] else [Take])"

definition post_eff :: "c_int \<Rightarrow> eff list" where
  "post_eff r = (if r = 0 then [Give] else [])"

locale effect_law =
  fixes E :: "'w env"
    and hist :: "nat \<Rightarrow> nat \<Rightarrow> eff list \<Rightarrow> 'w \<Rightarrow> bool"
  assumes h_wait: "hist h a L w \<Longrightarrow> x_sem_wait E h w = Sys (r, w') \<Longrightarrow> hist h a (L @ wait_eff r) w'"
    and h_timed: "hist h a L w \<Longrightarrow> x_sem_timedwait E h ts tn w = Sys (r, w') \<Longrightarrow> hist h a (L @ wait_eff r) w'"
    and h_post: "hist h a L w \<Longrightarrow> x_sem_post E h w = Sys (r, w') \<Longrightarrow> hist h a (L @ post_eff r) w'"
    and h_st8: "hist h a L w \<Longrightarrow> x_st8 E a c w = Sys (u, w') \<Longrightarrow> hist h a (L @ [Mark c]) w'"
    and h_st32: "hist h a L w \<Longrightarrow> x_st32 E (a + 1) i w = Sys (u, w') \<Longrightarrow> hist h a (L @ [Pid i]) w'"
    and h_getpid: "hist h a L w \<Longrightarrow> x_getpid E w = Sys (i, w') \<Longrightarrow> hist h a (L @ [Me i]) w'"
    and h_getvalue: "hist h a L w \<Longrightarrow> x_sem_getvalue E h' w = Sys (v, w') \<Longrightarrow> hist h a L w'"
    and h_ld8: "hist h a L w \<Longrightarrow> x_ld8 E a' w = Sys (c, w') \<Longrightarrow> hist h a L w'"
    and h_ld32: "hist h a L w \<Longrightarrow> x_ld32 E a' w = Sys (i, w') \<Longrightarrow> hist h a L w'"
    and h_clock: "hist h a L w \<Longrightarrow> x_clock_gettime E w = Sys (t, w') \<Longrightarrow> hist h a L w'"
    and h_malloc: "hist h a L w \<Longrightarrow> x_malloc E n w = Sys (b, w') \<Longrightarrow> hist h a L w'"
    and h_gil: "hist h a L w \<Longrightarrow> x_gil E w = Sys (u, w') \<Longrightarrow> hist h a L w'"
    and h_py: "hist h a L w \<Longrightarrow> x_py E f w = Sys (e, w') \<Longrightarrow> hist h a L w'"
    and h_call: "hist h a L w \<Longrightarrow> x_call E y args w = Sys (o1, w') \<Longrightarrow> hist h a L w'"

sublocale effect_law \<subseteq> neutral_law E "\<lambda>w w'. \<forall>h a L. hist h a L w \<longrightarrow> hist h a L w'"
  by unfold_locales (simp | blast intro: h_getvalue h_ld8 h_ld32 h_clock h_malloc h_gil h_py h_call)+

section \<open>Assertions about the history\<close>

text \<open>Object \<open>n\<close> is connected to the semaphore behind \<open>h\<close> and to the page at \<open>a\<close>, and the
  module's constants are those of the source.\<close>

definition conn :: "nat \<Rightarrow> nat \<Rightarrow> nat \<Rightarrow> 'w cst \<Rightarrow> bool" where
  "conn n h a s = (\<exists>x. objs s n = Some x \<and> semaphore x = Some h \<and> spin_lock_char x = Some a
    \<and> spin_lock_pid x = Some (a + 1) \<and> v_LOCKED s = 0 \<and> v_UNLOCKED s = 1 \<and> v_DESTROYED s = 0x7F)"

text \<open>The effects of \<open>lock\<close> by its result: nothing on an error; otherwise the permit is
  taken first, then the byte is written, then, when the wait returned 0, the pid.\<close>

definition lock_effs :: "c_int \<Rightarrow> eff list set" where
  "lock_effs r = (if r = - 1 then {[]} else if r = 0 then {[Take, Mark 0, Me i, Pid i] | i. True} else {[Take, Mark 0]})"

text \<open>\<open>unlock\<close> writes the byte before it gives the permit back; on an error the byte may
  have been written.\<close>

definition unlock_effs :: "c_int \<Rightarrow> eff list set" where
  "unlock_effs r = (if r = 0 then {[Mark 1, Give]} else {[], [Mark 1]})"

text \<open>Histories that go on with \<open>e\<close>.\<close>

definition ext :: "eff list set \<Rightarrow> eff list \<Rightarrow> eff list set" where
  "ext S e = (\<lambda>x. x @ e) ` S"

lemma ext_simps [simp]: "ext {x} e = {x @ e}" "ext {} e = {}" "ext (insert x S) e = insert (x @ e) (ext S e)" "ext S [] = S"
  by (auto simp: ext_def)

context effect_law
begin

text \<open>Since the history was \<open>L\<close>, one of the lists of \<open>S\<close> has been added.\<close>

definition X :: "nat \<Rightarrow> nat \<Rightarrow> nat \<Rightarrow> eff list \<Rightarrow> eff list set \<Rightarrow> 'w cst \<Rightarrow> bool" where
  "X n h a L S s = (conn n h a s \<and> (\<exists>x\<in>S. hist h a (L @ x) (wld s)))"

definition H :: "nat \<Rightarrow> eff list set \<Rightarrow> ('a \<Rightarrow> eff list set) \<Rightarrow> eff list set \<Rightarrow> ('w, 'a) cprog \<Rightarrow> bool" where
  "H n S Q R m = (\<forall>h a L s. X n h a L S s \<longrightarrow>
    wp m (\<lambda>v t. X n h a L (Q v) t) (\<lambda>_ _ t. X n h a L R t) (\<lambda>_. True) s)"

lemma X_mono: "X n h a L S s \<Longrightarrow> S \<subseteq> T \<Longrightarrow> X n h a L T s"
  by (auto simp: X_def)

lemma H_bnd: "H n S Q0 R m \<Longrightarrow> (\<And>v. H n (Q0 v) Q R (f v)) \<Longrightarrow> H n S Q R (bnd m f)"
  unfolding H_def wp_bnd by (intro allI impI, rule wp_mono) blast+

lemma H_sq: "H n S (\<lambda>_. T) R m \<Longrightarrow> H n T Q R m' \<Longrightarrow> H n S Q R (sq m m')"
  unfolding sq_def by (rule H_bnd)

lemma H_ret: "S \<subseteq> Q v \<Longrightarrow> H n S Q R (ret v)"
  by (auto simp: H_def wp_ret intro: X_mono)

lemma H_err: "S \<subseteq> R \<Longrightarrow> H n S Q R (pyx_err p l)"
  by (auto simp: H_def wp_pyx_err intro: X_mono)

lemma H_if: "H n S Q R m \<Longrightarrow> H n S Q R m' \<Longrightarrow> H n S Q R (if b then m else m')"
  by simp

lemma H_label: "H n S Q R0 m \<Longrightarrow> (\<And>p l. H n R0 Q R (g p l)) \<Longrightarrow> H n S Q R (at_label m g)"
  unfolding H_def wp_at_label by (intro allI impI, rule wp_mono) blast+

lemma H_N: "N m \<Longrightarrow> S \<subseteq> R \<Longrightarrow> H n S (\<lambda>_. S) R m"
  unfolding H_def
proof (intro allI impI)
  fix h a L s assume m: "N m" and R: "S \<subseteq> R" and x: "X n h a L S s"
  have "X n h a L S t" if "neu s t" for t
    using x that by (auto simp: X_def conn_def neu_def)
  then show "wp m (\<lambda>v t. X n h a L S t) (\<lambda>_ _ t. X n h a L R t) (\<lambda>_. True) s"
    by (intro wp_mono [OF m [unfolded N_def, THEN spec, of s]]) (auto intro: X_mono [OF _ R])
qed

lemma H_seqN: "N m \<Longrightarrow> S \<subseteq> R \<Longrightarrow> H n S Q R m' \<Longrightarrow> H n S Q R (sq m m')"
  by (rule H_sq [OF H_N])

lemma H_bndN: "N m \<Longrightarrow> S \<subseteq> R \<Longrightarrow> (\<And>v. H n S Q R (f v)) \<Longrightarrow> H n S Q R (bnd m f)"
  by (rule H_bnd [OF H_N])

lemma H_exit: "H n S Q R m \<Longrightarrow> R \<subseteq> Q v \<Longrightarrow> H n S Q R (exit_err E fn v m)"
  unfolding exit_err_def by (rule H_label, assumption, rule H_seqN [OF N_AddTraceback order_refl], rule H_ret)

lemma H_no_goto: "H n S Q R m \<Longrightarrow> (\<And>s p l t. m s \<noteq> Goto p l t) \<Longrightarrow> H n S Q R' m"
  unfolding H_def wp_def by (elim all_forward imp_forward) (auto split: out.splits)

lemma H_no_ret: "H n S Q R m \<Longrightarrow> (\<And>s v t. m s \<noteq> Ret v t) \<Longrightarrow> H n S Q' R m"
  unfolding H_def wp_def by (elim all_forward imp_forward) (auto split: out.splits)

text \<open>A call that adds the list \<open>e r\<close> when it returns \<open>r\<close>; the semaphore, the byte and the
  pid are reached through the object.\<close>

lemma X_call:
  assumes "X n h a L S s" and "\<And>L. hist h a L (wld s) \<Longrightarrow> hist h a (L @ e) w'"
  shows "X n h a L (ext S e) (s\<lparr>wld := w'\<rparr>)"
  using assms by (fastforce simp: X_def conn_def ext_def simp flip: append_assoc)

lemma H_sem:
  assumes "\<And>h a L w r w'. hist h a L w \<Longrightarrow> f h w = Sys (r, w') \<Longrightarrow> hist h a (L @ e r) w'"
    and "\<And>r. H n (ext S (e r)) Q R (m r)"
  shows "H n S Q R (bnd (self_rd n semaphore) (\<lambda>sm. bnd (nonnull sm) (\<lambda>h. bnd (sysc (f h)) m)))"
  unfolding H_def
proof (intro allI impI)
  fix h a L s assume x: "X n h a L S s"
  then obtain y where y: "objs s n = Some y" "semaphore y = Some h" by (auto simp: X_def conn_def)
  show "wp (bnd (self_rd n semaphore) (\<lambda>sm. bnd (nonnull sm) (\<lambda>h. bnd (sysc (f h)) m)))
      (\<lambda>v t. X n h a L (Q v) t) (\<lambda>_ _ t. X n h a L R t) (\<lambda>_. True) s"
  proof (cases "f h (wld s)")
    case (Sys z)
    obtain r w' where z: "z = (r, w')" by (cases z)
    have "X n h a L (ext S (e r)) (s\<lparr>wld := w'\<rparr>)"
      by (rule X_call [OF x]) (rule assms(1) [OF _ Sys [unfolded z]])
    then show ?thesis using assms(2) [of r, unfolded H_def] Sys y z
      by (simp add: wp_def self_rd_def nonnull_def sysc_def bnd_def [of "self_rd n semaphore"] bnd_def [of "ret x" for x]
          bnd_def [of "sysc g" for g] ret_def)
  qed (simp_all add: wp_def self_rd_def nonnull_def sysc_def run_defs y)
qed

lemma H_sysc: "(\<And>h a L w r w'. hist h a L w \<Longrightarrow> f w = Sys (r, w') \<Longrightarrow> hist h a (L @ e r) w') \<Longrightarrow>
    H n S (\<lambda>r. ext S (e r)) R (sysc f)"
  unfolding H_def
  by (auto simp: wp_def sysc_def intro!: X_call split: sysres.splits)

lemma H_byte:
  assumes "\<And>s. v_LOCKED s = 0 \<Longrightarrow> v_UNLOCKED s = 1 \<Longrightarrow> g s = c"
  shows "H n S (\<lambda>_. ext S [Mark c]) R (bnd (self_rd n spin_lock_char) (\<lambda>p. bnd (rd g) (\<lambda>v. st8 E p v)))"
  unfolding H_def
proof (intro allI impI)
  fix h a L s assume x: "X n h a L S s"
  then obtain y where y: "objs s n = Some y" "spin_lock_char y = Some a" "g s = c"
    using assms by (auto simp: X_def conn_def)
  have "X n h a L (ext S [Mark c]) (s\<lparr>wld := w'\<rparr>)" if "x_st8 E a c (wld s) = Sys (u, w')" for u w'
    by (rule X_call [OF x]) (rule h_st8 [OF _ that])
  then show "wp (bnd (self_rd n spin_lock_char) (\<lambda>p. bnd (rd g) (\<lambda>v. st8 E p v)))
      (\<lambda>_ t. X n h a L (ext S [Mark c]) t) (\<lambda>_ _ t. X n h a L R t) (\<lambda>_. True) s"
    using y by (auto simp: wp_def self_rd_def st8_def nonnull_def sysc_def run_defs split: sysres.splits)
qed

lemma H_pid: "H n S (\<lambda>_. ext S [Pid i]) R (bnd (self_rd n spin_lock_pid) (\<lambda>p. st32 E p i))"
  unfolding H_def
proof (intro allI impI)
  fix h a L s assume x: "X n h a L S s"
  then obtain y where y: "objs s n = Some y" "spin_lock_pid y = Some (a + 1)" by (auto simp: X_def conn_def)
  have "X n h a L (ext S [Pid i]) (s\<lparr>wld := w'\<rparr>)" if "x_st32 E (a + 1) i (wld s) = Sys (u, w')" for u w'
    by (rule X_call [OF x]) (rule h_st32 [OF _ that])
  then show "wp (bnd (self_rd n spin_lock_pid) (\<lambda>p. st32 E p i))
      (\<lambda>_ t. X n h a L (ext S [Pid i]) t) (\<lambda>_ _ t. X n h a L R t) (\<lambda>_. True) s"
    using y by (auto simp: wp_def self_rd_def st32_def nonnull_def sysc_def run_defs split: sysres.splits)
qed

section \<open>lock and unlock\<close>

lemma H_wait_part:
  assumes "\<And>h a L w r w'. hist h a L w \<Longrightarrow> f h w = Sys (r, w') \<Longrightarrow> hist h a (L @ wait_eff r) w'" and "N m"
    and "\<And>s v t. m s \<noteq> Ret v t"
  shows "H n {[]} (\<lambda>r. if r = - 1 then {} else {[Take, Mark 0]}) {[]}
    (bnd (self_rd n semaphore) (\<lambda>sm. bnd (nonnull sm) (\<lambda>h. bnd (sysc (f h)) (\<lambda>retval.
     sq (block_threads E) (if retval \<noteq> - 1 then sq (mark_locked E n) (ret retval) else m)))))"
proof (rule H_sem [OF assms(1)], assumption, assumption)
  fix r :: c_int
  have b: "block_threads E s \<noteq> Goto p l t" for s p l t
    by (auto simp: block_threads_def sysc_def run_defs split: if_splits sysres.splits)
  show "H n (ext {[]} (wait_eff r)) (\<lambda>r. if r = - 1 then {} else {[Take, Mark 0]}) {[]}
      (sq (block_threads E) (if r \<noteq> - 1 then sq (mark_locked E n) (ret r) else m))"
  proof (cases "r = - 1")
    case True
    have "sq (block_threads E) m s \<noteq> Ret v t" for s v t
      using assms(3) by (simp add: run_defs split: out.split)
    then have "H n {[]} (\<lambda>r. if r = - 1 then {} else {[Take, Mark 0]}) {[]} (sq (block_threads E) m)"
      by (rule H_no_ret [OF H_N [OF N_sq [OF N_prims(2) assms(2)] order_refl]])
    then show ?thesis using True by (simp add: wait_eff_def)
  next
    case False
    have "H n {[Take]} (\<lambda>r. if r = - 1 then {} else {[Take, Mark 0]}) {[Take], [Take, Mark 0]}
        (sq (block_threads E) (sq (mark_locked E n) (ret r)))"
      unfolding mark_locked_def
      by (intro H_seqN [OF N_prims(2)] H_sq [OF H_byte [where c = 0]] H_ret) (use False in simp_all)
    moreover have "sq (block_threads E) (sq (mark_locked E n) (ret r)) s \<noteq> Goto p l t" for s p l t
      using b by (auto simp: mark_locked_def run_defs sysc_def st8_def self_rd_def
          nonnull_def split: out.splits option.splits sysres.splits if_splits)
    ultimately have "H n {[Take]} (\<lambda>r. if r = - 1 then {} else {[Take, Mark 0]}) {[]}
        (sq (block_threads E) (sq (mark_locked E n) (ret r)))"
      by (rule H_no_goto)
    then show ?thesis using False by (simp add: wait_eff_def)
  qed
qed

lemma raise_no_ret: "raise_const E l c args s \<noteq> Ret v t" "raise_global E l x args s \<noteq> Ret v t"
  by (simp_all add: raise_const_def raise_global_def run_defs split: out.split)

lemma timed_fail_no_ret: "lock_timed_fail E i s \<noteq> Ret v t"
  by (simp add: lock_timed_fail_def raise_no_ret run_defs split: out.split)

lemma H_lock: "H n {[]} lock_effs {[]} (lock_f E n oa)"
proof -
  let ?Q = "\<lambda>r. if r = - 1 then {} else {[Take, Mark 0]}"
  have w: "H n {[]} ?Q {[]} (lock_wait E n)"
    unfolding lock_wait_def
    by (intro H_seqN [OF N_prims(1) order_refl] H_wait_part [OF h_wait] N_raise_const raise_no_ret)
  have c: "N (sysc (x_clock_gettime E))"
    by (rule N_sysc) (blast intro: h_clock)
  have t: "H n {[]} ?Q {[]} (lock_timed E n i)" for i
  proof -
    have "H n {[]} ?Q {[]} (if r = - 1 then raise_const E 368 ExceptionT [PyStr ''clock_gettime'']
      else sq unblock_threads (bnd (self_rd n semaphore) (\<lambda>sm. bnd (nonnull sm) (\<lambda>h.
        bnd (sysc (x_sem_timedwait E h ts tn)) (\<lambda>retval. sq (block_threads E)
        (if retval \<noteq> - 1 then sq (mark_locked E n) (ret retval) else lock_timed_fail E i))))))" for r :: c_int and ts tn
      by (intro H_if H_no_ret [OF H_N [OF N_raise_const order_refl]] raise_no_ret H_seqN [OF N_prims(1) order_refl]
          H_wait_part [OF h_timed] N_timed_fail timed_fail_no_ret)
    then show ?thesis unfolding lock_timed_def
      by (intro H_bndN [OF c order_refl]) (simp split: prod.split)
  qed
  have pid: "H n {[Take, Mark 0]} (\<lambda>_. {[Take, Mark 0, Me i, Pid i] | i. True}) {} (lock_set_pid E n)"
  proof -
    have "H n {[Take, Mark 0]} (\<lambda>i. {[Take, Mark 0, Me i]}) {} (sysc (x_getpid E))"
      using H_sysc [OF h_getpid, where n = n and S = "{[Take, Mark 0]}" and R = "{}"] by simp
    moreover have "H n {[Take, Mark 0, Me i]} (\<lambda>_. {[Take, Mark 0, Me i, Pid i] | i. True}) {}
        (bnd (self_rd n spin_lock_pid) (\<lambda>p. st32 E p i))" for i
      using H_pid [of n "{[Take, Mark 0, Me i]}" i "{}"] unfolding H_def
      by (elim all_forward imp_forward) (auto elim!: wp_mono intro: X_mono)
    ultimately show ?thesis unfolding lock_set_pid_def by (rule H_bnd)
  qed
  have fin: "H n (?Q r) lock_effs {[]} (sq (whn (r = 0) (lock_set_pid E n)) (ret r))" for r
  proof (cases "r = - 1")
    case True
    then show ?thesis by (simp add: H_def X_def)
  next
    case False
    have "H n {[Take, Mark 0]} lock_effs {} (sq (whn (r = 0) (lock_set_pid E n)) (ret r))"
    proof (cases "r = 0")
      case True
      then show ?thesis unfolding whn_def
        by simp (rule H_sq [OF pid], rule H_ret, simp add: lock_effs_def)
    next
      case r: False
      then show ?thesis unfolding whn_def sq_def
        by simp (rule H_bnd [where ?Q0.0 = "\<lambda>_. {[Take, Mark 0]}"], rule H_ret, simp,
            rule H_ret, use False in \<open>simp add: lock_effs_def\<close>)
    qed
    then show ?thesis using False unfolding H_def
      by (simp, elim all_forward imp_forward) (auto elim!: wp_mono intro: X_mono)
  qed
  show ?thesis unfolding lock_f_def Let_def
    by (rule H_exit, rule H_seqN [OF N_check_destroyed order_refl], rule H_bndN [OF N_clock order_refl],
        rule H_seqN [OF N_whn [OF N_spin_phase] order_refl], rule H_bnd [OF H_if [OF w t] fin]) (simp add: lock_effs_def)
qed

lemma H_unlock: "H n {[]} unlock_effs {[], [Mark 1]} (unlock_f E n)"
proof -
  let ?R = "{[], [Mark 1]} :: eff list set"
  have d: "N (bnd (is_destroyed E n) (\<lambda>b. whn b (raise_global E 391 x [])))" for x
    by (intro N_struct N_flags N_raise_global)
  have p: "H n (ext {[Mark 1]} (post_eff r)) unlock_effs ?R
      (if r \<noteq> 0 then raise_const E 400 ExceptionT [PyStr ''sem_post''] else ret r)" for r
    by (cases "r = 0") (auto simp: post_eff_def unlock_effs_def intro!: H_ret H_no_ret [OF H_N [OF N_raise_const]] raise_no_ret)
  have v: "H n {[Mark 1]} unlock_effs ?R (if t = - 10 then pyx_err 0 397
      else if t = 0 then bnd (self_rd n semaphore) (\<lambda>sm. bnd (nonnull sm) (\<lambda>h.
        bnd (sysc (x_sem_post E h)) (\<lambda>retval.
        if retval \<noteq> 0 then raise_const E 400 ExceptionT [PyStr ''sem_post''] else ret retval)))
      else ret (- 1))" for t :: c_int
    by (intro H_if H_sem [OF h_post p] H_err H_ret) (auto simp: unlock_effs_def)
  have m: "H n {[]} (\<lambda>_. {[Mark 1]}) ?R (bnd (self_rd n spin_lock_char) (\<lambda>p. bnd (rd v_UNLOCKED) (\<lambda>v. st8 E p v)))"
    using H_byte [of v_UNLOCKED 1 n "{[]}" ?R] by simp
  show ?thesis unfolding unlock_f_def
    by (rule H_exit, rule H_seqN [OF d], simp, rule H_sq [OF m], rule H_bndN [OF N_get_value], simp, rule v)
      (simp add: unlock_effs_def)
qed

text \<open>The history after a call that returned.\<close>

lemma H_Ret: "H n {[]} Q R m \<Longrightarrow> m c = Ret r c' \<Longrightarrow> conn n h a c \<Longrightarrow> hist h a L (wld c) \<Longrightarrow>
    conn n h a c' \<and> (\<exists>x\<in>Q r. hist h a (L @ x) (wld c'))"
  unfolding H_def by (drule spec [of _ h], drule spec [of _ a], drule spec [of _ L], drule spec [of _ c])
    (simp add: X_def wp_def)

lemmas lock_hist = H_Ret [OF H_lock]
lemmas unlock_hist = H_Ret [OF H_unlock]

lemma neutral_hist: "N m \<Longrightarrow> m c = Ret r c' \<Longrightarrow> conn n h a c \<Longrightarrow> hist h a L (wld c) \<Longrightarrow>
    conn n h a c' \<and> hist h a L (wld c')"
  using H_Ret [OF H_N [OF _ order_refl], where m = m and n = n and h = h and a = a and L = L] by fastforce

end

end
