(* ===== verification/Returns.thy ===== *)
theory Returns
  imports Effects
begin

text \<open>
  Every call of the lock ends.  The locale \<open>live_law\<close> says that the calls of the
  system return, except that \<open>sem_wait\<close> may not, that an access to the pid may be
  undefined, and that only reading the clock counts.  The pid is an \<open>int\<close> at an odd
  address, one byte into a page, so C leaves its loads and stores undefined and the
  machine decides.  Then \<open>unlock\<close> and \<open>get_value\<close> return; \<open>lock\<close> with a
  timeout returns, \<open>lock\<close> without one returns or is the \<open>sem_wait\<close> that never
  does, and both, like \<open>get_pid_holding_lock\<close>, are undefined only where the machine
  does not make the access; the clock is read a bounded number of times; and where
  the store of the pid is never made, no \<open>lock\<close> succeeds.
\<close>

section \<open>Environments whose calls return\<close>

text \<open>The call \<open>f\<close> returns from every world of \<open>ok\<close>, into \<open>ok\<close>, and \<open>i\<close> is added to the count.\<close>

definition live :: "('w \<Rightarrow> bool) \<Rightarrow> ('w \<Rightarrow> nat) \<Rightarrow> nat \<Rightarrow> ('w \<Rightarrow> ('a \<times> 'w) sysres) \<Rightarrow> bool" where
  "live ok cnt i f = (\<forall>w. ok w \<longrightarrow> (\<exists>r w'. f w = Sys (r, w') \<and> ok w' \<and> cnt w' = cnt w + i))"

text \<open>The call may also end as \<open>b\<close> instead of returning.\<close>

definition live_or :: "('a \<times> 'w) sysres \<Rightarrow> ('w \<Rightarrow> bool) \<Rightarrow> ('w \<Rightarrow> nat) \<Rightarrow> ('w \<Rightarrow> ('a \<times> 'w) sysres) \<Rightarrow> bool" where
  "live_or b ok cnt f = (\<forall>w. ok w \<longrightarrow> f w = b \<or> (\<exists>r w'. f w = Sys (r, w') \<and> ok w' \<and> cnt w' = cnt w))"

text \<open>Some access to the unaligned pid of the page at \<open>a\<close> is not made.\<close>

definition traps :: "'w env \<Rightarrow> ('w \<Rightarrow> bool) \<Rightarrow> nat \<Rightarrow> bool" where
  "traps E ok a = (\<exists>w. ok w \<and> (x_ld32 E (a + 1) w = SysUndef \<or> (\<exists>i. x_st32 E (a + 1) i w = SysUndef)))"

text \<open>The handle \<open>h\<close> is open and the page at \<open>a\<close> is mapped in the worlds of \<open>ok\<close>.\<close>

locale live_law =
  fixes E :: "'w env"
    and ok :: "'w \<Rightarrow> bool"
    and cnt :: "'w \<Rightarrow> nat"
    and h a :: nat
  assumes l_wait: "live_or SysBlocks ok cnt (x_sem_wait E h)"
    and l_timed: "live ok cnt 0 (x_sem_timedwait E h ts tn)"
    and l_post: "live ok cnt 0 (x_sem_post E h)"
    and l_getvalue: "live ok cnt 0 (x_sem_getvalue E h)"
    and l_ld8: "live ok cnt 0 (x_ld8 E a)"
    and l_st8: "live ok cnt 0 (x_st8 E a v)"
    and l_ld32: "live_or SysUndef ok cnt (x_ld32 E (a + 1))"
    and l_st32: "live_or SysUndef ok cnt (x_st32 E (a + 1) i)"
    and l_clock: "live ok cnt 1 (x_clock_gettime E)"
    and l_getpid: "live ok cnt 0 (x_getpid E)"
    and l_malloc: "live ok cnt 0 (x_malloc E n)"
    and l_gil: "live ok cnt 0 (x_gil E)"
    and l_py: "live ok cnt 0 (x_py E f)"
    and l_call: "live ok cnt 0 (x_call E y args)"
begin

text \<open>The total triple: started with the interpreter lock as \<open>g\<close> says, the statement returns with it
  as \<open>g'\<close> says or goes to the error label with it as \<open>e\<close> says, and reads the clock at most
  \<open>j\<close> times; it stops without either only as \<open>U\<close> allows.\<close>

definition W :: "nat \<Rightarrow> 'w cst \<Rightarrow> bool" where
  "W n s = (conn n h a s \<and> ok (wld s))"

definition L :: "(ub \<Rightarrow> bool) \<Rightarrow> nat \<Rightarrow> bool \<Rightarrow> bool \<Rightarrow> bool \<Rightarrow> nat \<Rightarrow> ('w, 'a) cprog \<Rightarrow> bool" where
  "L U n g g' e j m = (\<forall>s. W n s \<and> gil s = g \<longrightarrow>
    wp m (\<lambda>_ t. W n t \<and> gil t = g' \<and> cnt (wld t) \<le> cnt (wld s) + j)
      (\<lambda>_ _ t. W n t \<and> gil t = e \<and> cnt (wld t) \<le> cnt (wld s) + j) U s)"

lemma L_more: "L U n g g' e i m \<Longrightarrow> i \<le> j \<Longrightarrow> L U n g g' e j m"
  unfolding L_def by (elim all_forward imp_forward, assumption) (erule wp_mono; force)

lemma L_bnd_add: "L U n g g1 e i m \<Longrightarrow> (\<And>v. L U n g1 g' e j (f v)) \<Longrightarrow> L U n g g' e (i + j) (bnd m f)"
  unfolding L_def wp_bnd by (elim all_forward imp_forward, assumption) (erule wp_mono; fastforce elim!: wp_mono)

lemma L_bnd: "L U n g g1 e 0 m \<Longrightarrow> (\<And>v. L U n g1 g' e j (f v)) \<Longrightarrow> L U n g g' e j (bnd m f)"
  using L_bnd_add [of U n g g1 e 0 m g' j f] by simp

lemma L_bnd_first: "L U n g g1 e i m \<Longrightarrow> (\<And>v. L U n g1 g' e 0 (f v)) \<Longrightarrow> L U n g g' e i (bnd m f)"
  using L_bnd_add [of U n g g1 e i m g' 0 f] by simp

lemma L_sq: "L U n g g1 e 0 m \<Longrightarrow> L U n g1 g' e j m' \<Longrightarrow> L U n g g' e j (sq m m')"
  unfolding sq_def by (rule L_bnd)

lemma L_ret: "L U n g g e j (ret v)"
  by (simp add: L_def wp_ret)

lemma L_err: "L U n g g' g j (pyx_err p l)"
  by (simp add: L_def wp_pyx_err)

lemma L_rd: "L U n g g e j (rd f)"
  by (simp add: L_def wp_rd)

lemma L_rd_gil: "L U n g g' e j (k g) \<Longrightarrow> L U n g g' e j (bnd (rd gil) k)"
  by (simp add: L_def wp_bnd wp_rd)

lemma L_upd: "(\<And>s. objs (f s) = objs s \<and> wld (f s) = wld s \<and> v_LOCKED (f s) = v_LOCKED s
    \<and> v_UNLOCKED (f s) = v_UNLOCKED s \<and> v_DESTROYED (f s) = v_DESTROYED s \<and> gil (f s) = (if b then g' else gil s)) \<Longrightarrow>
    b \<or> g = g' \<Longrightarrow> L U n g g' e j (upd f)"
  by (auto simp: L_def wp_upd W_def conn_def)

lemma L_if: "L U n g g' e j m \<Longrightarrow> L U n g g' e j m' \<Longrightarrow> L U n g g' e j (if b then m else m')"
  by simp

lemma L_whn: "L U n g g e j m \<Longrightarrow> L U n g g e j (whn b m)"
  by (simp add: whn_def L_ret)

lemma L_option: "L U n g g' e j m \<Longrightarrow> (\<And>v. L U n g g' e j (f v)) \<Longrightarrow> L U n g g' e j (case x of None \<Rightarrow> m | Some v \<Rightarrow> f v)"
  by (cases x) simp_all

lemma L_prod: "(\<And>b c. L U n g g' e j (f b c)) \<Longrightarrow> L U n g g' e j (case x of (b, c) \<Rightarrow> f b c)"
  by (cases x) simp

lemma L_label: "L U n g g' e0 j m \<Longrightarrow> (\<And>p l. L U n e0 g' e 0 (k p l)) \<Longrightarrow> L U n g g' e j (at_label m k)"
  unfolding L_def wp_at_label by (elim all_forward imp_forward, assumption) (erule wp_mono; fastforce elim!: wp_mono)

lemma L_sysc: "live ok cnt i f \<Longrightarrow> L U n g g e i (sysc f)"
  unfolding L_def
proof (intro allI impI)
  fix s assume f: "live ok cnt i f" and s: "W n s \<and> gil s = g"
  then obtain r w' where "f (wld s) = Sys (r, w')" "ok w'" "cnt w' = cnt (wld s) + i"
    by (auto simp: live_def W_def)
  then show "wp (sysc f) (\<lambda>_ t. W n t \<and> gil t = g \<and> cnt (wld t) \<le> cnt (wld s) + i)
      (\<lambda>_ _ t. W n t \<and> gil t = e \<and> cnt (wld t) \<le> cnt (wld s) + i) U s"
    using s by (simp add: wp_def sysc_def W_def conn_def)
qed

lemma L_sysc_or:
  assumes "live_or b ok cnt f" and "\<And>w. ok w \<Longrightarrow> f w = b \<Longrightarrow> b = SysBlocks \<and> U Blocks \<or> b = SysUndef \<and> U Undefined"
  shows "L U n g g e 0 (sysc f)"
  unfolding L_def
proof (intro allI impI)
  fix s assume s: "W n s \<and> gil s = g"
  then have "f (wld s) = b \<or> (\<exists>r w'. f (wld s) = Sys (r, w') \<and> ok w' \<and> cnt w' = cnt (wld s))"
    using assms(1) by (simp add: live_or_def W_def)
  then show "wp (sysc f) (\<lambda>_ t. W n t \<and> gil t = g \<and> cnt (wld t) \<le> cnt (wld s) + 0)
      (\<lambda>_ _ t. W n t \<and> gil t = e \<and> cnt (wld t) \<le> cnt (wld s) + 0) U s"
    using s assms(2) [of "wld s"] by (auto simp: wp_def sysc_def W_def conn_def)
qed

lemma L_need_gil: "L U n True True e j need_gil"
  by (simp add: L_def wp_def need_gil_def)

text \<open>Access through the object.\<close>

lemma L_sem: "L U n g g' e j (m h) \<Longrightarrow> L U n g g' e j (bnd (self_rd n semaphore) (\<lambda>sm. bnd (nonnull sm) m))"
  by (auto simp: L_def wp_def run_defs self_rd_def nonnull_def W_def conn_def split: option.splits)

lemma L_byte: "L U n g g' e j (m (Some a)) \<Longrightarrow> L U n g g' e j (bnd (self_rd n spin_lock_char) m)"
  by (auto simp: L_def wp_def run_defs self_rd_def W_def conn_def split: option.splits)

lemma L_pid: "L U n g g' e j (m (Some (a + 1))) \<Longrightarrow> L U n g g' e j (bnd (self_rd n spin_lock_pid) m)"
  by (auto simp: L_def wp_def run_defs self_rd_def W_def conn_def split: option.splits)

lemma L_mem: "L U n g g e 0 (ld8 E (Some a))" "L U n g g e 0 (st8 E (Some a) v)"
  using L_sysc [OF l_ld8] L_sysc [OF l_st8]
  by (simp_all add: ld8_def st8_def nonnull_def bnd_def [abs_def] ret_def)

lemma L_pid_mem:
  assumes "traps E ok a \<longrightarrow> U Undefined"
  shows "L U n g g e 0 (ld32 E (Some (a + 1)))" "L U n g g e 0 (st32 E (Some (a + 1)) i)"
  using L_sysc_or [OF l_ld32, of U] L_sysc_or [OF l_st32, of i U] assms
  by (force simp: traps_def ld32_def st32_def nonnull_def bnd_def [abs_def] ret_def)+

text \<open>A call may end the run only as \<open>U\<close> says.\<close>

lemma L_wait: "U Blocks \<Longrightarrow> L U n g g e 0 (sysc (x_sem_wait E h))"
  by (rule L_sysc_or [OF l_wait]) simp

section \<open>The run-time functions return\<close>

lemmas L_struct = L_bnd [where g = True and ?g1.0 = True] L_sq [where g = True and ?g1.0 = True] L_ret L_err L_rd L_whn L_if
  L_option L_prod L_need_gil

lemma L_set: "L U n True True e j (set_err c x)" "L U n True True e j (set_pyerr y)"
  unfolding set_err_def set_pyerr_def by (intro L_sq [OF L_need_gil] L_upd [where b = False]; simp)+

lemma L_capi: "L U n True True e j (capi E f v)"
  unfolding capi_def by (intro L_sq [OF L_need_gil] L_bnd [OF L_sysc [OF l_py]] L_option L_ret L_sq [OF L_set(2)])

lemma L_chk: "L U n True True True j m \<Longrightarrow> L U n True True True j (chk l m)"
  unfolding chk_def using L_bnd_add [of U n True True True j m True 0 "\<lambda>t. case t of None \<Rightarrow> pyx_err 0 l | Some v \<Rightarrow> ret v"]
  by (simp add: L_option L_ret L_err)

lemmas L_calls = L_struct L_set L_capi L_chk

lemma L_occurred: "L U n True True e j pyerr_occurred"
  unfolding pyerr_occurred_def by (intro L_calls)

lemma L_builtin: "L U n True True e j (pyx_GetBuiltinName E name)"
  unfolding pyx_GetBuiltinName_def by (auto intro!: L_calls split: option.splits)

lemma L_global: "L U n True True e j (pyx_GetModuleGlobalName E name)"
  unfolding pyx_GetModuleGlobalName_def by (intro L_calls L_builtin)

lemma L_xcall: "L U n True True e j (bnd (sysc (x_call E f args)) (\<lambda>(r, x). case x of
    None \<Rightarrow> ret r | Some y \<Rightarrow> sq (set_pyerr y) (ret None)))"
  by (intro L_calls L_sysc [OF l_call])

lemma L_call_slot: "L U n True True e j (call_slot E f args)"
  unfolding call_slot_def by (auto intro: L_capi L_xcall split: pyobj.split)

lemma L_call: "L U n True True e j (pyx_PyObject_Call E f args)"
  unfolding pyx_PyObject_Call_def pyx_call_checked_def by (intro L_calls L_call_slot L_occurred)

lemma L_call_one: "L U n True True e j (pyx_PyObject_CallOneArg E f x)"
  unfolding pyx_PyObject_CallOneArg_def by (intro L_calls L_call)

lemma L_call_args: "L U n True True e j (call_args E f args)"
  unfolding call_args_def pyx_PyObject_CallNoArg_def
  by (auto intro!: L_calls L_call L_call_one split: list.split)

lemma L_raise_instance: "L U n True True e j (raise_instance E c v)"
proof -
  have t: "L U n True True e 0 (case v of None \<Rightarrow> capi E ''PyTuple_New'' [] | Some (PyTuple xs) \<Rightarrow> ret (Some xs)
      | Some x \<Rightarrow> capi E ''PyTuple_Pack'' [x])"
    by (auto intro: L_capi L_ret split: option.split pyobj.split)
  show ?thesis unfolding raise_instance_def by (rule L_bnd [OF t]) (intro L_calls L_call)
qed

lemma L_Raise: "L U n True True e j (pyx_Raise E t v)"
proof -
  have "L U n True True e j (bnd (raise_instance E c x) (\<lambda>i. case i of None \<Rightarrow> ret () | Some o1 \<Rightarrow> set_err c o1))" for c x
    by (intro L_calls L_raise_instance)
  then show ?thesis unfolding pyx_Raise_def Let_def
    by (auto intro: L_set split: pyobj.split option.split)
qed

lemma L_traceback_here: "L U n True True e j (traceback_here E c l)"
  unfolding traceback_here_def by (intro L_calls L_upd [where b = False]; simp)

lemma L_AddTraceback: "L U n True True e j (pyx_AddTraceback E fn l file)"
proof -
  have al: "L U n True True e 0 (cache_alloc E c)" for c
    unfolding cache_alloc_def by (simp add: L_ret L_sysc [OF l_malloc])
  have ins: "L U n True True e j (sq (upd (\<lambda>s. s\<lparr>cocache := g (cocache s)\<rparr>)) (traceback_here E c l))" for g c
    by (intro L_sq [OF L_upd [where b = False] L_traceback_here]; simp)
  have new: "L U n True True e j (bnd (pyx_CreateCodeObject E fn l file) (\<lambda>r. case r of None \<Rightarrow> ret ()
      | Some code \<Rightarrow> bnd (cache_alloc E c0) (\<lambda>mem.
          sq (upd (\<lambda>s. s\<lparr>cocache := pyx_insert_code_object mem l code (cocache s)\<rparr>)) (traceback_here E code l))))" for c0
    unfolding pyx_CreateCodeObject_def by (intro L_bnd [OF L_capi] L_option L_ret L_bnd [OF al] ins)
  show ?thesis unfolding pyx_AddTraceback_def
    by (rule L_bnd [OF L_rd], rule L_option [OF new L_traceback_here])
qed

lemma L_exit: "L U n True True True j m \<Longrightarrow> L U n True True e j (exit_err E fn v m)"
  unfolding exit_err_def by (erule L_label) (intro L_sq [OF L_AddTraceback] L_ret)

lemma L_raise_const: "L U n True g' True j (raise_const E l c args)"
  unfolding raise_const_def by (intro L_bnd [OF L_chk [OF L_call]] L_sq [OF L_Raise] L_err)

lemma L_raise_global: "L U n True g' True j (raise_global E l name args)"
  unfolding raise_global_def
  by (intro L_bnd [OF L_chk [OF L_global]] L_bnd [OF L_chk [OF L_call_args]] L_sq [OF L_Raise] L_err)

section \<open>The operations return\<close>

lemma L_now: "L U n g g' e j (bnd (get_current_time_ms E) f)" if "\<And>v. L U n g g' e i (f v)" and "i + 1 \<le> j"
proof -
  have "L U n g g e 1 (get_current_time_ms E)"
    unfolding get_current_time_ms_def by (intro L_bnd_first [OF L_sysc [OF l_clock]] L_prod L_ret)
  from L_bnd_add [OF this that(1)] show ?thesis by (rule L_more) (use that(2) in simp)
qed

lemma L_flags: "L U n g g e 0 (is_destroyed E n)" "L U n g g e 0 (is_unlocked E n)"
  unfolding is_destroyed_def is_unlocked_def by (intro L_byte L_bnd [OF L_mem(1)] L_bnd [OF L_rd] L_ret)+

lemma L_get_value: "L U n True True e j (get_value_f E n)"
proof -
  have v: "L U n True True True j (case t of (result, val) \<Rightarrow>
      if result = - 1 then raise_const E 313 ExceptionT [PyStr ''sem_getvalue''] else ret val)" for t :: "c_int \<times> c_int"
    by (intro L_prod L_if L_raise_const L_ret)
  show ?thesis unfolding get_value_f_def
    by (intro L_exit L_sq [OF L_bnd [OF L_flags(1) L_whn [OF L_raise_global]]] L_sem L_bnd [OF L_sysc [OF l_getvalue] v])
qed

lemma L_get_pid: "L U n True True e j (get_pid_f E n)" if "traps E ok a \<longrightarrow> U Undefined"
  unfolding get_pid_f_def
  by (intro L_exit L_bnd [OF L_get_value] L_if L_err L_ret L_pid L_more [OF L_pid_mem(1) [where U = U, OF that]]) simp_all

lemma L_get_destroyed: "L U n g g e j (get_destroyed_f E n)"
  unfolding get_destroyed_f_def by (intro L_bnd [OF L_flags(1)] L_ret)

lemma L_unlock: "L U n True True e j (unlock_f E n)"
proof -
  have p: "L U n True True True j (if r \<noteq> 0 then raise_const E 400 ExceptionT [PyStr ''sem_post''] else ret r)" for r
    by (intro L_if L_raise_const L_ret)
  have m: "L U n True True True 0 (bnd (self_rd n spin_lock_char) (\<lambda>q. bnd (rd v_UNLOCKED) (\<lambda>v. st8 E q v)))"
    by (intro L_byte L_bnd [OF L_rd] L_mem)
  show ?thesis unfolding unlock_f_def
    by (intro L_exit L_sq [OF L_bnd [OF L_flags(1) L_whn [OF L_raise_global]]] L_sq [OF m]
        L_bnd [OF L_get_value] L_if L_err L_ret L_sem L_bnd [OF L_sysc [OF l_post] p])
qed

text \<open>The interpreter lock given up and taken again.\<close>

lemma L_unblock: "L U n True False e j unblock_threads"
  unfolding unblock_threads_def by (intro L_sq [OF L_need_gil] L_upd [where b = True]) simp_all

lemma L_block: "L U n False True e j (block_threads E)"
  unfolding block_threads_def
  by (intro L_rd_gil) (simp, intro L_sq [OF L_sysc [OF l_gil]] L_upd [where b = True]; simp)

lemma L_spin_destroyed: "L U n False g' False j (spin_destroyed E)"
proof -
  have b: "L U n True g' False j (at_label (raise_global E 347 ''SemaphoreDestroyedException'' [PyStr lock_destroyed_msg])
      (\<lambda>f l. sq (gilstate_release False) (pyx_err f l)))"
    unfolding gilstate_release_def
    by (rule L_label [OF L_raise_global], rule L_sq [OF L_sq [OF L_need_gil L_upd [where b = True and g' = False]] L_err]) simp_all
  have r: "bnd (ret v) f = f v" for v and f :: "'b \<Rightarrow> ('w, 'c) cprog" by (rule ext) simp
  show ?thesis unfolding spin_destroyed_def gilstate_ensure_def bnd_assoc
    by (rule L_rd_gil, simp add: sq_def bnd_assoc)
      (rule L_bnd [OF L_sysc [OF l_gil]], rule L_bnd [OF L_upd [where b = True and g' = True]], simp_all add: r b [unfolded sq_def])
qed

lemma L_spin_loop: "L U n False False False (0x2002 - nat i) (spin_loop E n from_t i)" if "0 \<le> i" and "i \<le> 0x2001"
  using that
proof (induction "nat (0x2001 - i)" arbitrary: i rule: less_induct)
  case less
  have rest: "L U n False False False (0x2001 - nat i) (if 0x2000 < i then ret () else spin_loop E n from_t (i + 1))"
  proof (cases "0x2000 < i")
    case False
    then have "nat (i + 1) = nat i + 1" using less.prems by simp
    then show ?thesis using less.hyps [of "i + 1"] less.prems False by simp
  qed (simp add: L_ret)
  show ?case unfolding spin_loop.simps [of E n from_t i]
    by (rule L_now [where i = "0x2001 - nat i"], rule L_if [OF L_ret], rule L_bnd [OF L_flags(1)],
        rule L_if [OF L_spin_destroyed], rule L_bnd [OF L_flags(2)], rule L_if [OF L_ret rest])
      (use less.prems in \<open>simp add: nat_le_iff\<close>)
qed

lemma L_spin_phase: "L U n True True True 0x2002 (spin_phase E n from_t)"
proof -
  have s: "L U n False False True 0x2002 (at_label (spin_loop E n from_t 0) (\<lambda>f l. sq (block_threads E) (pyx_err f l)))"
    using L_spin_loop [of 0 U n from_t] by (intro L_label [where ?e0.0 = False] L_sq [OF L_block] L_err) simp
  show ?thesis unfolding spin_phase_def
    by (intro L_sq [OF L_unblock]) (unfold sq_def, intro L_bnd_first [OF s [unfolded sq_def]] L_block)
qed

section \<open>lock\<close>

lemma L_mark: "L U n True True e 0 (mark_locked E n)"
  unfolding mark_locked_def by (intro L_byte L_bnd [OF L_rd] L_mem)

lemma L_lock_wait: "U Blocks \<Longrightarrow> L U n True True True 0 (lock_wait E n)"
  unfolding lock_wait_def
  by (intro L_sq [OF L_unblock] L_sem L_bnd [OF L_wait] L_sq [OF L_block] L_if L_sq [OF L_mark] L_ret L_raise_const)

lemma L_timed_fail: "L U n True True True 0 (lock_timed_fail E t)"
  unfolding lock_timed_fail_def
  by (intro L_calls L_raise_global L_bnd [OF L_chk [OF L_capi]] L_bnd [OF L_chk [OF L_call_one]] L_sq [OF L_Raise])

lemma L_lock_timed: "L U n True True True 1 (lock_timed E n t)"
proof -
  have w: "L U n True True True 0 (if x = - 1 then raise_const E 368 ExceptionT [PyStr ''clock_gettime'']
      else sq unblock_threads (bnd (self_rd n semaphore) (\<lambda>sm. bnd (nonnull sm) (\<lambda>h.
        bnd (sysc (x_sem_timedwait E h (sec + scast t) nsec)) (\<lambda>retval. sq (block_threads E)
          (if retval \<noteq> - 1 then sq (mark_locked E n) (ret retval) else lock_timed_fail E t))))))" for x sec nsec
    by (intro L_if L_raise_const L_sq [OF L_unblock] L_sem L_bnd [OF L_sysc [OF l_timed]] L_sq [OF L_block] L_sq [OF L_mark]
        L_ret L_timed_fail)
  show ?thesis unfolding lock_timed_def
    by (intro L_bnd_first [OF L_sysc [OF l_clock]] L_prod w)
qed

lemma L_set_pid: "L U n True True e 0 (lock_set_pid E n)" if "traps E ok a \<longrightarrow> U Undefined"
  unfolding lock_set_pid_def by (intro L_bnd [OF L_sysc [OF l_getpid]] L_pid L_pid_mem(2) [where U = U, OF that])

lemma L_waits: "lock_timeout oa = - 1 \<longrightarrow> U Blocks \<Longrightarrow>
    L U n True True True 1 (if lock_timeout oa = - 1 then lock_wait E n else lock_timed E n (lock_timeout oa))"
  by (auto simp del: One_nat_def intro: L_more [OF L_lock_wait] L_lock_timed)

lemma L_check: "L U n True True True 0 (lock_check_destroyed E n)"
  unfolding lock_check_destroyed_def by (intro L_bnd [OF L_flags(1)] L_whn L_raise_global)

text \<open>Three readings of the clock besides those of the loop: at the start, in the loop's last
  round, and for the deadline.\<close>

lemma L_lock:
  assumes "lock_timeout oa = - 1 \<longrightarrow> U Blocks" and "traps E ok a \<longrightarrow> U Undefined"
  shows "L U n True True e 0x2004 (lock_f E n oa)"
proof -
  have w: "L U n True True True 1 (bnd (if lock_timeout oa = - 1 then lock_wait E n else lock_timed E n (lock_timeout oa))
      (\<lambda>r. sq (whn (r = 0) (lock_set_pid E n)) (ret r)))"
    by (intro L_bnd_first [OF L_waits] L_sq [OF L_whn [OF L_set_pid]] L_ret assms)
  have s: "L U n True True True 0x2003 (sq (whn (lock_spin oa \<noteq> 0) (spin_phase E n from_t)) m)"
    if "L U n True True True 1 m" for m :: "('w, c_int) cprog" and from_t
    using L_bnd_add [OF L_whn [OF L_spin_phase] that] by (simp add: sq_def)
  show ?thesis unfolding lock_f_def Let_def
    by (intro L_exit L_sq [OF L_check] L_now [where i = "0x2003"] s w) simp
qed

text \<open>A function that handles its errors returns, or stops as \<open>U\<close> says.\<close>

lemma L_run:
  assumes "\<And>e. L U n True True e j m" and "conn n h a c" and "ok (wld c)" and "gil c"
  shows "case m c of Ret r t \<Rightarrow> cnt (wld t) \<le> cnt (wld c) + j | Goto p l t \<Rightarrow> False | Stuck u \<Rightarrow> U u"
proof -
  have "W n c \<and> gil c = True" using assms(2-4) by (simp add: W_def)
  then show ?thesis using assms(1) [of True] assms(1) [of False] unfolding L_def wp_def
    by (elim allE [of _ c]) (auto split: out.splits)
qed

lemma lock_ends:
  assumes "conn n h a c" and "ok (wld c)" and "gil c"
  shows "case lock_f E n oa c of Ret r t \<Rightarrow> cnt (wld t) \<le> cnt (wld c) + 0x2004
    | Goto p l t \<Rightarrow> False | Stuck u \<Rightarrow> u = Blocks \<and> lock_timeout oa = - 1 \<or> u = Undefined \<and> traps E ok a"
  by (rule L_run [OF L_lock assms]) simp_all

lemma get_pid_ends:
  assumes "conn n h a c" and "ok (wld c)" and "gil c"
  shows "case get_pid_f E n c of Ret r t \<Rightarrow> True | Goto p l t \<Rightarrow> False | Stuck u \<Rightarrow> u = Undefined \<and> traps E ok a"
  using L_run [OF L_get_pid assms, of "\<lambda>u. u = Undefined \<and> traps E ok a" 0] by (simp split: out.splits)

lemma never_stuck: "case m c of Ret r t \<Rightarrow> P r t | Goto p l t \<Rightarrow> False | Stuck u \<Rightarrow> False \<Longrightarrow> \<exists>r t. m c = Ret r t"
  by (cases "m c") simp_all

lemma others_end:
  assumes "conn n h a c" and "ok (wld c)" and "gil c"
  shows "\<exists>r t. unlock_f E n c = Ret r t" and "\<exists>r t. get_value_f E n c = Ret r t"
  by (rule never_stuck, rule L_run [OF _ assms], rule L_unlock L_get_value)+

section \<open>Where the pid cannot be stored\<close>

text \<open>From a connected object with the interpreter lock, the statement does not return 0.\<close>

definition N :: "nat \<Rightarrow> ('w, c_int) cprog \<Rightarrow> bool" where
  "N n m = (\<forall>s. W n s \<and> gil s \<longrightarrow> wp m (\<lambda>r t. r \<noteq> 0) (\<lambda>_ _ _. True) (\<lambda>_. True) s)"

lemma N_bnd: "L (\<lambda>_. True) n True True True j m \<Longrightarrow> (\<And>v. N n (f v)) \<Longrightarrow> N n (bnd m f)"
  unfolding L_def N_def wp_bnd by (elim all_forward imp_forward, blast) (erule wp_mono; blast)

lemma N_sq: "L (\<lambda>_. True) n True True True j m \<Longrightarrow> N n m' \<Longrightarrow> N n (sq m m')"
  unfolding sq_def by (rule N_bnd)

lemma N_exit: "N n m \<Longrightarrow> v \<noteq> 0 \<Longrightarrow> N n (exit_err E fn v m)"
  unfolding N_def exit_err_def wp_at_label
  by (elim all_forward imp_forward, assumption) (erule wp_mono; auto simp: wp_def sq_def bnd_def ret_def split: out.splits)

lemma N_set_pid:
  assumes "\<And>w i. ok w \<Longrightarrow> x_st32 E (a + 1) i w = SysUndef"
  shows "N n (sq (lock_set_pid E n) m)"
proof -
  have "N n (bnd (bnd (self_rd n spin_lock_pid) (\<lambda>q. st32 E q pid)) f)" for pid and f :: "unit \<Rightarrow> ('w, c_int) cprog"
    using assms by (auto simp: N_def W_def conn_def wp_def bnd_def self_rd_def st32_def nonnull_def ret_def sysc_def
      split: option.splits)
  then show ?thesis
    unfolding lock_set_pid_def sq_def bnd_assoc by (intro N_bnd [OF L_sysc [OF l_getpid]])
qed

lemma never_locked:
  assumes "conn n h a c" and "ok (wld c)" and "gil c" and "\<And>w i. ok w \<Longrightarrow> x_st32 E (a + 1) i w = SysUndef"
  shows "lock_f E n oa c \<noteq> Ret 0 t"
proof -
  have w: "N n (bnd (if lock_timeout oa = - 1 then lock_wait E n else lock_timed E n (lock_timeout oa))
      (\<lambda>r. sq (whn (r = 0) (lock_set_pid E n)) (ret r)))"
  proof (rule N_bnd [OF L_waits])
    show "N n (sq (whn (r = 0) (lock_set_pid E n)) (ret r))" for r
      using N_set_pid [OF assms(4)] by (cases "r = 0") (simp_all add: whn_def N_def wp_ret sq_def wp_bnd)
  qed simp
  have now: "L (\<lambda>_. True) n True True True 1 (get_current_time_ms E)"
    unfolding get_current_time_ms_def by (intro L_bnd_first [OF L_sysc [OF l_clock]] L_prod L_ret)
  have "N n (lock_f E n oa)" unfolding lock_f_def Let_def
    by (intro N_exit N_sq [OF L_check] N_bnd [OF now] N_sq [OF L_whn [OF L_spin_phase]] w) simp
  then show ?thesis using assms(1-3) by (auto simp: N_def W_def wp_def split: out.splits)
qed

end

end
