(* ===== verification/Kernel.thy ===== *)
theory Kernel
  imports DestroySpec Permits Returns
begin

text \<open>
  A concrete operating system: named semaphores, named shared memory with one
  lock page each, descriptors and mappings of one process, a clock, and a
  schedule of what other processes do between its calls.  It is an instance
  \<open>kE\<close> of the interface \<open>env\<close>, the interpretation of \<open>quiet_os\<close>, and the ground
  on which the witnesses evaluate.
\<close>

unbundle bit_operations_syntax

datatype act = APost nat | ATake nat | AByte nat c_char | APid nat c_int
  | AUnlinkSem string | AUnlinkShm string | ANewSem string nat nat | ANewShm string nat

record kern =
  k_sem :: "nat \<Rightarrow> nat"
  k_semname :: "string \<Rightarrow> nat option"
  k_hsem :: "nat \<Rightarrow> nat option"
  k_shmname :: "string \<Rightarrow> nat option"
  k_fd :: "c_int \<Rightarrow> nat option"
  k_amap :: "nat \<Rightarrow> nat option"
  k_byte :: "nat \<Rightarrow> c_char"
  k_pid :: "nat \<Rightarrow> c_int"
  k_errno :: c_int
  k_ms :: nat
  k_next :: nat
  k_me :: c_int
  k_sched :: "act list list"

text \<open>A move of another process.\<close>

fun k_act :: "act \<Rightarrow> kern \<Rightarrow> kern" where
  "k_act (APost k) w = w\<lparr>k_sem := (k_sem w)(k := k_sem w k + 1)\<rparr>"
| "k_act (ATake k) w = w\<lparr>k_sem := (k_sem w)(k := k_sem w k - 1)\<rparr>"
| "k_act (AByte g v) w = w\<lparr>k_byte := (k_byte w)(g := v)\<rparr>"
| "k_act (APid g v) w = w\<lparr>k_pid := (k_pid w)(g := v)\<rparr>"
| "k_act (AUnlinkSem n) w = w\<lparr>k_semname := (k_semname w)(n := None)\<rparr>"
| "k_act (AUnlinkShm n) w = w\<lparr>k_shmname := (k_shmname w)(n := None)\<rparr>"
| "k_act (ANewSem n k v) w = w\<lparr>k_semname := (k_semname w)(n := Some k), k_sem := (k_sem w)(k := v)\<rparr>"
| "k_act (ANewShm n g) w = w\<lparr>k_shmname := (k_shmname w)(n := Some g)\<rparr>"

text \<open>Every call of the process lets the next batch of the schedule happen first.\<close>

definition k_tick :: "kern \<Rightarrow> kern" where
  "k_tick w = (case k_sched w of [] \<Rightarrow> w | as # r \<Rightarrow> fold k_act as (w\<lparr>k_sched := r\<rparr>))"

lemma k_tick_quiet [simp]: "k_sched w = [] \<Longrightarrow> k_tick w = w"
  by (simp add: k_tick_def)

definition EEXIST :: c_int where "EEXIST = 17"
definition EINVAL :: c_int where "EINVAL = 22"
definition EBADF :: c_int where "EBADF = 9"
definition EOVERFLOW :: c_int where "EOVERFLOW = 75"

definition k_sem_open :: "string \<Rightarrow> c_int \<Rightarrow> c_int \<Rightarrow> c_int \<Rightarrow> kern \<Rightarrow> (ptr \<times> kern) sysres" where
  "k_sem_open nm flags mode val w0 =
    (let w = k_tick w0; h = k_next w; create = (flags AND O_CREAT \<noteq> 0); excl = (flags AND O_EXCL \<noteq> 0) in
     case k_semname w nm of
       Some k \<Rightarrow> if create \<and> excl then Sys (None, w\<lparr>k_errno := EEXIST\<rparr>)
         else Sys (Some h, w\<lparr>k_hsem := (k_hsem w)(h := Some k), k_next := h + 1\<rparr>)
     | None \<Rightarrow> if \<not> create then Sys (None, w\<lparr>k_errno := ENOENT\<rparr>)
         else if unat val > sem_value_max then Sys (None, w\<lparr>k_errno := EINVAL\<rparr>)
         else Sys (Some h, w\<lparr>k_hsem := (k_hsem w)(h := Some h), k_semname := (k_semname w)(nm := Some h),
           k_sem := (k_sem w)(h := unat val), k_next := h + 1\<rparr>))"

definition k_sem_close :: "nat \<Rightarrow> kern \<Rightarrow> (c_int \<times> kern) sysres" where
  "k_sem_close h w0 = (let w = k_tick w0 in case k_hsem w h of
      None \<Rightarrow> SysUndef | Some k \<Rightarrow> Sys (0, w\<lparr>k_hsem := (k_hsem w)(h := None)\<rparr>))"

definition k_sem_unlink :: "string \<Rightarrow> kern \<Rightarrow> (c_int \<times> kern) sysres" where
  "k_sem_unlink nm w0 = (let w = k_tick w0 in case k_semname w nm of
      None \<Rightarrow> Sys (- 1, w\<lparr>k_errno := ENOENT\<rparr>) | Some k \<Rightarrow> Sys (0, w\<lparr>k_semname := (k_semname w)(nm := None)\<rparr>))"

text \<open>A wait that finds the count zero lets the rest of the schedule happen; when
  nothing more will happen, \<open>sem_wait\<close> never returns and \<open>sem_timedwait\<close> times out.\<close>

fun k_wait :: "(kern \<Rightarrow> (c_int \<times> kern) sysres) \<Rightarrow> nat \<Rightarrow> act list list \<Rightarrow> kern \<Rightarrow> (c_int \<times> kern) sysres" where
  "k_wait give_up k s w =
    (if 0 < k_sem w k then Sys (0, w\<lparr>k_sem := (k_sem w)(k := k_sem w k - 1)\<rparr>)
     else (case s of
         [] \<Rightarrow> give_up w
       | as # r \<Rightarrow> k_wait give_up k r (fold k_act as (w\<lparr>k_sched := r\<rparr>))))"

declare k_wait.simps [simp del]

lemma k_act_sched [simp]: "k_sched (k_act a w) = k_sched w"
  by (cases a) simp_all

lemma k_acts_sched [simp]: "k_sched (fold k_act as w) = k_sched w"
  by (induction as arbitrary: w) simp_all

definition k_sem_wait :: "nat \<Rightarrow> kern \<Rightarrow> (c_int \<times> kern) sysres" where
  "k_sem_wait h w0 = (let w = k_tick w0 in case k_hsem w h of
      None \<Rightarrow> SysUndef | Some k \<Rightarrow> k_wait (\<lambda>_. SysBlocks) k (k_sched w) w)"

definition k_sem_timedwait :: "nat \<Rightarrow> c_long \<Rightarrow> c_long \<Rightarrow> kern \<Rightarrow> (c_int \<times> kern) sysres" where
  "k_sem_timedwait h sec nsec w0 = (let w = k_tick w0 in case k_hsem w h of
      None \<Rightarrow> SysUndef | Some k \<Rightarrow> k_wait (\<lambda>w. Sys (- 1, w\<lparr>k_errno := ETIMEDOUT\<rparr>)) k (k_sched w) w)"

definition k_sem_post :: "nat \<Rightarrow> kern \<Rightarrow> (c_int \<times> kern) sysres" where
  "k_sem_post h w0 = (let w = k_tick w0 in case k_hsem w h of
      None \<Rightarrow> SysUndef
    | Some k \<Rightarrow> if k_sem w k < sem_value_max then Sys (0, w\<lparr>k_sem := (k_sem w)(k := k_sem w k + 1)\<rparr>)
        else Sys (- 1, w\<lparr>k_errno := EOVERFLOW\<rparr>))"

definition k_sem_getvalue :: "nat \<Rightarrow> kern \<Rightarrow> ((c_int \<times> c_int) \<times> kern) sysres" where
  "k_sem_getvalue h w0 = (let w = k_tick w0 in case k_hsem w h of
      None \<Rightarrow> SysUndef
    | Some k \<Rightarrow> Sys ((0, of_nat (min (k_sem w k) sem_value_max)), w))"

text \<open>The lowest free descriptor, from \<open>n\<close> on, of \<open>i\<close> candidates.\<close>

primrec k_free_fd :: "(c_int \<Rightarrow> nat option) \<Rightarrow> nat \<Rightarrow> nat \<Rightarrow> c_int option" where
  "k_free_fd f 0 n = None"
| "k_free_fd f (Suc i) n = (if f (of_nat n) = None then Some (of_nat n) else k_free_fd f i (n + 1))"

definition EMFILE :: c_int where "EMFILE = 24"

definition k_shm_open :: "string \<Rightarrow> c_int \<Rightarrow> c_int \<Rightarrow> kern \<Rightarrow> (c_int \<times> kern) sysres" where
  "k_shm_open nm flags mode w0 =
    (let w = k_tick w0; n = k_next w in
     case k_shmname w nm of
       Some g \<Rightarrow> (case k_free_fd (k_fd w) open_max 3 of
           None \<Rightarrow> Sys (- 1, w\<lparr>k_errno := EMFILE\<rparr>)
         | Some fd \<Rightarrow> Sys (fd, w\<lparr>k_fd := (k_fd w)(fd := Some g)\<rparr>))
     | None \<Rightarrow> if flags AND O_CREAT = 0 then Sys (- 1, w\<lparr>k_errno := ENOENT\<rparr>)
         else (case k_free_fd (k_fd w) open_max 3 of
           None \<Rightarrow> Sys (- 1, w\<lparr>k_errno := EMFILE\<rparr>)
         | Some fd \<Rightarrow> Sys (fd, w\<lparr>k_fd := (k_fd w)(fd := Some n), k_shmname := (k_shmname w)(nm := Some n),
             k_byte := (k_byte w)(n := 0), k_pid := (k_pid w)(n := 0), k_next := n + 1\<rparr>)))"

definition k_shm_unlink :: "string \<Rightarrow> kern \<Rightarrow> (c_int \<times> kern) sysres" where
  "k_shm_unlink nm w0 = (let w = k_tick w0 in case k_shmname w nm of
      None \<Rightarrow> Sys (- 1, w\<lparr>k_errno := ENOENT\<rparr>) | Some k \<Rightarrow> Sys (0, w\<lparr>k_shmname := (k_shmname w)(nm := None)\<rparr>))"

text \<open>A call on a descriptor: \<open>f\<close> when it is open.\<close>

definition k_on_fd :: "c_int \<Rightarrow> (kern \<Rightarrow> kern) \<Rightarrow> kern \<Rightarrow> (c_int \<times> kern) sysres" where
  "k_on_fd fd f w0 = (let w = k_tick w0 in case k_fd w fd of
      None \<Rightarrow> Sys (- 1, w\<lparr>k_errno := EBADF\<rparr>) | Some g \<Rightarrow> Sys (0, f w))"

definition k_mmap :: "c_int \<Rightarrow> c_int \<Rightarrow> kern \<Rightarrow> (ptr \<times> kern) sysres" where
  "k_mmap len fd w0 = (let w = k_tick w0; n = k_next w; a = 4096 * (n + 1) in case k_fd w fd of
      None \<Rightarrow> Sys (None, w\<lparr>k_errno := EBADF\<rparr>)
    | Some g \<Rightarrow> Sys (Some a, w\<lparr>k_amap := (k_amap w)(a := Some g), k_next := n + 1\<rparr>))"

definition k_clock :: "kern \<Rightarrow> ((c_int \<times> c_long \<times> c_long) \<times> kern) sysres" where
  "k_clock w0 = (let w = k_tick w0; ms = k_ms w in
    Sys ((0, of_nat (ms div 1000), of_nat (ms mod 1000 * 1000000)), w\<lparr>k_ms := ms + 1\<rparr>))"

definition k_ld8 :: "nat \<Rightarrow> kern \<Rightarrow> (c_char \<times> kern) sysres" where
  "k_ld8 a w0 = (let w = k_tick w0 in case k_amap w a of None \<Rightarrow> SysUndef | Some g \<Rightarrow> Sys (k_byte w g, w))"

definition k_st8 :: "nat \<Rightarrow> c_char \<Rightarrow> kern \<Rightarrow> (unit \<times> kern) sysres" where
  "k_st8 a v w0 = (let w = k_tick w0 in case k_amap w a of
      None \<Rightarrow> SysUndef | Some g \<Rightarrow> Sys ((), w\<lparr>k_byte := (k_byte w)(g := v)\<rparr>))"

definition k_ld32 :: "nat \<Rightarrow> kern \<Rightarrow> (c_int \<times> kern) sysres" where
  "k_ld32 a w0 = (let w = k_tick w0 in case k_amap w (a - 1) of None \<Rightarrow> SysUndef | Some g \<Rightarrow> Sys (k_pid w g, w))"

definition k_st32 :: "nat \<Rightarrow> c_int \<Rightarrow> kern \<Rightarrow> (unit \<times> kern) sysres" where
  "k_st32 a v w0 = (let w = k_tick w0 in case k_amap w (a - 1) of
      None \<Rightarrow> SysUndef | Some g \<Rightarrow> Sys ((), w\<lparr>k_pid := (k_pid w)(g := v)\<rparr>))"

definition kE :: "kern env" where
  "kE = \<lparr>x_sem_open = k_sem_open, x_sem_close = k_sem_close, x_sem_unlink = k_sem_unlink,
    x_sem_wait = k_sem_wait, x_sem_timedwait = k_sem_timedwait, x_sem_post = k_sem_post,
    x_sem_getvalue = k_sem_getvalue, x_shm_open = k_shm_open, x_shm_unlink = k_shm_unlink,
    x_fchmod = (\<lambda>fd mode. k_on_fd fd id), x_ftruncate = (\<lambda>fd n. k_on_fd fd id), x_mmap = k_mmap,
    x_close = (\<lambda>fd. k_on_fd fd (\<lambda>w. w\<lparr>k_fd := (k_fd w)(fd := None)\<rparr>)),
    x_getpagesize = (\<lambda>w. Sys (4096, w)), x_getpid = (\<lambda>w. Sys (k_me w, w)), x_clock_gettime = k_clock,
    x_errno = k_errno, x_strerror = (\<lambda>e. ''error''), x_ld8 = k_ld8, x_st8 = k_st8, x_ld32 = k_ld32,
    x_st32 = k_st32, x_malloc = (\<lambda>n w. Sys (True, w)), x_gil = (\<lambda>w. Sys ((), k_tick w)),
    x_py = (\<lambda>f w. Sys (None, w)), x_call = (\<lambda>f args w. Sys ((Some PyNone, None), w))\<rparr>"

lemmas kE_simps = kE_def env.simps

definition k_view :: "kern \<Rightarrow> osview" where
  "k_view w = \<lparr>v_hsem = k_hsem w, v_sem = k_sem w, v_amap = k_amap w, v_byte = k_byte w, v_pid = k_pid w,
    v_semname = k_semname w, v_shmname = k_shmname w, v_fd = k_fd w\<rparr>"

text \<open>Nothing interferes: the schedule is empty, and the process is number 42.\<close>

definition k_quiet :: "kern \<Rightarrow> bool" where
  "k_quiet w = (k_sched w = [] \<and> k_me w = 42)"

interpretation k: quiet_os kE k_quiet k_view 42
proof
  fix w h k ts tn
  assume "k_quiet w" "v_hsem (k_view w) h = Some k" "v_sem (k_view w) k = 0"
  then show "x_sem_wait kE h w = SysBlocks"
    and "\<exists>w' w''. x_sem_timedwait kE h ts tn w = Sys (- 1, w') \<and> x_gil kE w' = Sys ((), w'') \<and> k_quiet w''
        \<and> k_view w'' = k_view w \<and> x_errno kE w'' = ETIMEDOUT"
    by (simp_all add: kE_def k_sem_wait_def k_sem_timedwait_def k_quiet_def k_view_def k_wait.simps)
qed (simp_all add: gives_def k_quiet_def k_view_def kE_def k_ld8_def k_st8_def k_ld32_def k_st32_def
    k_sem_wait_def k_sem_timedwait_def k_wait.simps k_sem_post_def k_sem_getvalue_def k_clock_def Let_def)

section \<open>Names\<close>

text \<open>What the allocation counter is above: handles, semaphores, segments and
  mappings in use.\<close>

definition below :: "nat \<Rightarrow> (nat \<Rightarrow> nat option) \<Rightarrow> (string \<Rightarrow> nat option) \<Rightarrow> (string \<Rightarrow> nat option) \<Rightarrow>
    (c_int \<Rightarrow> nat option) \<Rightarrow> (nat \<Rightarrow> nat option) \<Rightarrow> bool" where
  "below n hs sn mn fs am = ((\<forall>h k. hs h = Some k \<longrightarrow> h < n \<and> k < n) \<and> (\<forall>nm k. sn nm = Some k \<longrightarrow> k < n)
    \<and> (\<forall>nm g. mn nm = Some g \<longrightarrow> g < n) \<and> (\<forall>fd g. fs fd = Some g \<longrightarrow> g < n)
    \<and> (\<forall>a g. am a = Some g \<longrightarrow> g < n \<and> a < 4096 * (n + 1)))"

lemma belowI:
  "below n hs sn mn fs am \<Longrightarrow> below (n + 1) hs sn mn fs am"
  "below n hs sn mn fs am \<Longrightarrow> h < n \<Longrightarrow> k < n \<Longrightarrow> below n (hs(h := Some k)) sn mn fs am"
  "below n hs sn mn fs am \<Longrightarrow> k < n \<Longrightarrow> below n hs (sn(nm := Some k)) mn fs am"
  "below n hs sn mn fs am \<Longrightarrow> k < n \<Longrightarrow> below n hs sn (mn(nm := Some k)) fs am"
  "below n hs sn mn fs am \<Longrightarrow> k < n \<Longrightarrow> below n hs sn mn (fs(fd := Some k)) am"
  "below n hs sn mn fs am \<Longrightarrow> k < n \<Longrightarrow> a < 4096 * (n + 1) \<Longrightarrow> below n hs sn mn fs (am(a := Some k))"
  "below n hs sn mn fs am \<Longrightarrow> below n (hs(h := None)) sn mn fs am"
  "below n hs sn mn fs am \<Longrightarrow> below n hs (sn(nm := None)) mn fs am"
  "below n hs sn mn fs am \<Longrightarrow> below n hs sn (mn(nm := None)) fs am"
  "below n hs sn mn fs am \<Longrightarrow> below n hs sn mn (fs(fd := None)) am"
  by (fastforce simp: below_def)+

lemma belowD:
  assumes "below n hs sn mn fs am"
  shows "hs h = Some k \<Longrightarrow> h < n" "hs h = Some k \<Longrightarrow> k < n" "sn nm = Some k \<Longrightarrow> k < n" "mn nm = Some g \<Longrightarrow> g < n"
    "fs fd = Some g \<Longrightarrow> g < n" "am a = Some g \<Longrightarrow> g < n" "hs n = None" "am (4096 * (n + 1)) = None"
    "hs h \<noteq> Some n" "sn nm \<noteq> Some n" "mn nm \<noteq> Some n" "am a \<noteq> Some n"
proof -
  show "hs n = None"
  proof (cases "hs n")
    case (Some k)
    then show ?thesis using assms by (auto simp: below_def)
  qed
  show "am (4096 * (n + 1)) = None"
  proof (cases "am (4096 * (n + 1))")
    case (Some k)
    then show ?thesis using assms by (fastforce simp: below_def)
  qed
qed (use assms in \<open>force simp: below_def\<close>)+

definition k_sane :: "kern \<Rightarrow> bool" where
  "k_sane w = (k_quiet w \<and> below (k_next w) (k_hsem w) (k_semname w) (k_shmname w) (k_fd w) (k_amap w))"

lemma k_free_fd_sound: "k_free_fd f i n = Some fd \<Longrightarrow> f fd = None \<and> (\<exists>m. n \<le> m \<and> m < n + i \<and> fd = of_nat m)"
proof (induction i arbitrary: n)
  case (Suc i)
  show ?case
  proof (cases "f (of_nat n) = None")
    case True
    then show ?thesis using Suc.prems by auto
  next
    case False
    have "k_free_fd f i (n + 1) = Some fd" using Suc.prems False by (auto split: if_splits)
    then have "f fd = None \<and> (\<exists>m. n + 1 \<le> m \<and> m < n + 1 + i \<and> fd = of_nat m)" by (rule Suc.IH)
    then show ?thesis by (elim conjE exE, intro conjI exI) auto
  qed
qed simp

lemma k_free_fd_none: "k_free_fd f i n = None \<Longrightarrow> n \<le> m \<Longrightarrow> m < n + i \<Longrightarrow> f (of_nat m) \<noteq> None"
proof (induction i arbitrary: n)
  case (Suc i)
  then show ?case by (cases "m = n") (auto split: if_splits)
qed simp

lemma k_free_fd_room:
  assumes "fd_room (k_view w) 1"
  obtains fd where "k_free_fd (k_fd w) open_max 3 = Some fd" "k_fd w fd = None" "fd \<noteq> - 1"
proof (cases "k_free_fd (k_fd w) open_max 3")
  case None
  let ?S = "(of_nat :: nat \<Rightarrow> c_int) ` {3..<3 + open_max}"
  have i: "inj_on (of_nat :: nat \<Rightarrow> c_int) {3..<3 + open_max}"
  proof (rule inj_onI)
    fix x y :: nat assume "x \<in> {3..<3 + open_max}" "y \<in> {3..<3 + open_max}" "of_nat x = (of_nat y :: c_int)"
    then show "x = y" by (simp add: open_max_def word_of_nat_eq_iff take_bit_nat_eq_self)
  qed
  have "?S \<subseteq> {fd. k_fd w fd \<noteq> None}" using k_free_fd_none [OF None] by auto
  then have "card ?S \<le> card {fd. k_fd w fd \<noteq> None}" by (rule card_mono [rotated]) simp
  then show ?thesis using assms i by (simp add: card_image fd_room_def k_view_def)
next
  case (Some fd)
  then obtain m where m: "k_fd w fd = None" "m < 3 + open_max" "fd = of_nat m"
    using k_free_fd_sound [OF Some] by auto
  have "sint fd = int m" using m(2,3) by (simp add: open_max_def signed_of_nat signed_take_bit_int_eq_self)
  then have "fd \<noteq> - 1" by auto
  then show ?thesis using that Some m(1) by blast
qed

interpretation kf: quiet_fs kE k_sane k_view 42
proof
  fix w h k ts tn
  assume "k_sane w" "v_hsem (k_view w) h = Some k" "v_sem (k_view w) k = 0"
  then show "x_sem_wait kE h w = SysBlocks"
    and "\<exists>w' w''. x_sem_timedwait kE h ts tn w = Sys (- 1, w') \<and> x_gil kE w' = Sys ((), w'') \<and> k_sane w''
        \<and> k_view w'' = k_view w \<and> x_errno kE w'' = ETIMEDOUT"
    by (simp_all add: kE_def k_sem_wait_def k_sem_timedwait_def k_sane_def k_quiet_def k_view_def k_wait.simps)
next
  fix w nm k mode val
  assume w: "k_sane w" "posix_name nm" "v_semname (k_view w) nm = Some k"
  note b = w(1) [unfolded k_sane_def, THEN conjunct2]
  have n: "k_semname w nm = Some k" "k < k_next w" using w(3) belowD(3) [OF b] by (simp_all add: k_view_def)
  show "\<exists>h. (v_hsem (k_view w) h = None \<or> v_hsem (k_view w) h = Some k) \<and>
        gives k_sane k_view (x_sem_open kE nm O_RDWR mode val) w (Some h) ((k_view w)\<lparr>v_hsem := (v_hsem (k_view w))(h := Some k)\<rparr>)"
    using w(1) n belowD(7) [OF b] belowI(2) [OF belowI(1) [OF b], of "k_next w" k]
    by (intro exI [of _ "k_next w"]) (simp add: gives_def kE_def k_sem_open_def k_sane_def k_quiet_def k_view_def posix_consts Let_def)
  show "gives k_sane k_view (x_sem_open kE nm (O_CREAT OR O_EXCL) mode val) w None (k_view w)"
    using w(1) n by (simp add: gives_def kE_def k_sem_open_def k_sane_def k_quiet_def k_view_def posix_consts Let_def)
next
  fix w nm mode val
  assume w: "k_sane w" "v_semname (k_view w) nm = None"
  note b = w(1) [unfolded k_sane_def, THEN conjunct2]
  show "gives k_sane k_view (x_sem_open kE nm O_RDWR mode val) w None (k_view w)"
    using w by (simp add: gives_def kE_def k_sem_open_def k_sane_def k_quiet_def k_view_def posix_consts Let_def)
  show "\<exists>h k. v_hsem (k_view w) h = None \<and> (\<forall>h'. v_hsem (k_view w) h' \<noteq> Some k) \<and> (\<forall>nm'. v_semname (k_view w) nm' \<noteq> Some k) \<and>
        gives k_sane k_view (x_sem_open kE nm (O_CREAT OR O_EXCL) mode val) w (Some h)
          ((k_view w)\<lparr>v_hsem := (v_hsem (k_view w))(h := Some k), v_semname := (v_semname (k_view w))(nm := Some k),
            v_sem := (v_sem (k_view w))(k := unat val)\<rparr>)" if "unat val \<le> sem_value_max"
    using w that belowD(7,9,10) [OF b] belowI(3) [OF belowI(2) [OF belowI(1) [OF b], of "k_next w" "k_next w"], of "k_next w" nm]
    by (intro exI [of _ "k_next w"]) (simp add: gives_def kE_def k_sem_open_def k_sane_def k_quiet_def k_view_def posix_consts Let_def)
next
  fix w nm perm
  assume w: "k_sane w" "v_shmname (k_view w) nm = None"
  then show "\<exists>w'. x_shm_open kE nm O_RDWR perm w = Sys (- 1, w') \<and> k_sane w' \<and> k_view w' = k_view w \<and> x_errno kE w' = ENOENT"
    by (simp add: kE_def k_shm_open_def k_sane_def k_quiet_def k_view_def posix_consts Let_def)
  note b = w(1) [unfolded k_sane_def, THEN conjunct2]
  assume "fd_room (k_view w) 1"
  then obtain fd where fd: "k_free_fd (k_fd w) open_max 3 = Some fd" "k_fd w fd = None" "fd \<noteq> - 1" by (rule k_free_fd_room)
  show "\<exists>fd g. fd \<noteq> - 1 \<and> v_fd (k_view w) fd = None \<and> (\<forall>a. v_amap (k_view w) a \<noteq> Some g) \<and>
        (\<forall>nm'. v_shmname (k_view w) nm' \<noteq> Some g) \<and>
        gives k_sane k_view (x_shm_open kE nm (O_RDWR OR O_CREAT) perm) w fd
          ((k_view w)\<lparr>v_fd := (v_fd (k_view w))(fd := Some g), v_shmname := (v_shmname (k_view w))(nm := Some g),
            v_byte := (v_byte (k_view w))(g := 0), v_pid := (v_pid (k_view w))(g := 0)\<rparr>)"
    using w fd belowD(11,12) [OF b] belowI(5) [OF belowI(4) [OF belowI(1) [OF b], of "k_next w" nm], of "k_next w" fd]
    by (intro exI [of _ fd] exI [of _ "k_next w"])
      (simp add: gives_def kE_def k_shm_open_def k_sane_def k_quiet_def k_view_def posix_consts Let_def)
next
  fix w nm g flags perm
  assume w: "k_sane w" "fd_room (k_view w) 1" "v_shmname (k_view w) nm = Some g"
  note b = w(1) [unfolded k_sane_def, THEN conjunct2]
  obtain fd where fd: "k_free_fd (k_fd w) open_max 3 = Some fd" "k_fd w fd = None" "fd \<noteq> - 1"
    using w(2) by (rule k_free_fd_room)
  show "\<exists>fd. fd \<noteq> - 1 \<and> v_fd (k_view w) fd = None \<and>
        gives k_sane k_view (x_shm_open kE nm flags perm) w fd ((k_view w)\<lparr>v_fd := (v_fd (k_view w))(fd := Some g)\<rparr>)"
    using w fd belowI(5) [OF b, of g fd] belowD(4) [OF b, of nm g]
    by (intro exI [of _ fd])
      (simp add: gives_def kE_def k_shm_open_def k_sane_def k_quiet_def k_view_def Let_def)
next
  fix w fd g sz
  assume w: "k_sane w" "v_fd (k_view w) fd = Some g"
  note b = w(1) [unfolded k_sane_def, THEN conjunct2]
  have g: "k_fd w fd = Some g" "g < k_next w" using w(2) belowD(5) [OF b] by (simp_all add: k_view_def)
  show "\<exists>a. v_amap (k_view w) a = None \<and>
        gives k_sane k_view (x_mmap kE sz fd) w (Some a) ((k_view w)\<lparr>v_amap := (v_amap (k_view w))(a := Some g)\<rparr>)"
    using w(1) g belowD(8) [OF b] belowI(6) [OF belowI(1) [OF b], of g "4096 * (k_next w + 1)"]
    by (intro exI [of _ "4096 * (k_next w + 1)"]) (simp add: gives_def kE_def k_mmap_def k_sane_def k_quiet_def k_view_def Let_def)
qed (auto simp: gives_def k_sane_def k_quiet_def k_view_def kE_def k_ld8_def k_st8_def k_ld32_def k_st32_def
    k_sem_wait_def k_sem_timedwait_def k_wait.simps k_sem_post_def k_sem_getvalue_def k_clock_def Let_def
    k_on_fd_def k_sem_close_def k_sem_unlink_def k_shm_unlink_def belowI belowD split: option.splits)

text \<open>The counts the kernel reports are never negative.\<close>

lemma kE_getvalue_nonneg: "getvalue_nonneg kE"
proof -
  have "0 \<le> sint (of_nat (min n sem_value_max) :: c_int)" for n
    by (simp add: sem_value_max_def signed_of_nat signed_take_bit_int_eq_self min_def)
  then show ?thesis
    by (auto simp: getvalue_nonneg_def kE_def k_sem_getvalue_def Let_def split: option.splits)
qed

section \<open>Liveness\<close>

text \<open>The handle is open and the page mapped.\<close>

definition k_open :: "nat \<Rightarrow> nat \<Rightarrow> kern \<Rightarrow> bool" where
  "k_open h a w = (k_hsem w h \<noteq> None \<and> k_amap w a \<noteq> None)"

lemma k_acts_maps [simp]: "k_hsem (fold k_act as w) = k_hsem w" "k_amap (fold k_act as w) = k_amap w"
  "k_ms (fold k_act as w) = k_ms w"
proof -
  have "k_hsem (k_act x v) = k_hsem v \<and> k_amap (k_act x v) = k_amap v \<and> k_ms (k_act x v) = k_ms v" for x v
    by (cases x) simp_all
  then show "k_hsem (fold k_act as w) = k_hsem w" "k_amap (fold k_act as w) = k_amap w" "k_ms (fold k_act as w) = k_ms w"
    by (induction as arbitrary: w) simp_all
qed

lemma k_tick_maps [simp]: "k_hsem (k_tick w) = k_hsem w" "k_amap (k_tick w) = k_amap w" "k_ms (k_tick w) = k_ms w"
  by (simp_all add: k_tick_def split: list.split)

lemma k_wait_open:
  assumes "k_open h a w" and "\<And>v. k_open h a v \<Longrightarrow> k_ms v = k_ms w \<Longrightarrow> Q (give_up v)"
    and "\<And>r v. k_open h a v \<Longrightarrow> k_ms v = k_ms w \<Longrightarrow> Q (Sys (r, v))"
  shows "Q (k_wait give_up k s w)"
  using assms
proof (induction s arbitrary: w)
  case Nil
  then show ?case by (simp add: k_wait.simps k_open_def)
next
  case (Cons as s)
  have "Q (k_wait give_up k s (fold k_act as (w\<lparr>k_sched := s\<rparr>)))"
    by (rule Cons.IH) (use Cons.prems in \<open>simp_all add: k_open_def\<close>)
  then show ?case using Cons.prems by (simp add: k_wait.simps [of _ _ "as # s"] k_open_def)
qed

lemma k_waits_open:
  assumes "k_open h a w0" and "\<And>v. k_open h a v \<Longrightarrow> k_ms v = k_ms w0 \<Longrightarrow> Q (give_up v)"
    and "\<And>r v. k_open h a v \<Longrightarrow> k_ms v = k_ms w0 \<Longrightarrow> Q (Sys (r, v))"
  shows "Q (let w = k_tick w0 in case k_hsem w h of None \<Rightarrow> SysUndef | Some k \<Rightarrow> k_wait give_up k (k_sched w) w)"
proof -
  have "k_open h a (k_tick w0)" using assms(1) by (simp add: k_open_def)
  note o = this
  then obtain k where "k_hsem (k_tick w0) h = Some k" by (auto simp: k_open_def)
  moreover have "Q (k_wait give_up k (k_sched (k_tick w0)) (k_tick w0))"
    by (rule k_wait_open [of h a]) (use o assms(2,3) in simp_all)
  ultimately show ?thesis by (simp add: Let_def)
qed

lemma k_live: "live_or SysBlocks (k_open h a) k_ms (k_sem_wait h)" "live (k_open h a) k_ms 0 (k_sem_timedwait h ts tn)"
proof -
  show "live_or SysBlocks (k_open h a) k_ms (k_sem_wait h)"
    unfolding k_sem_wait_def live_or_def by (intro allI impI, rule k_waits_open) auto
  show "live (k_open h a) k_ms 0 (k_sem_timedwait h ts tn)"
    unfolding k_sem_timedwait_def live_def by (intro allI impI, rule k_waits_open) (auto simp: k_open_def)
qed

lemmas k_live_defs = live_def live_or_def kE_def k_open_def k_sem_post_def k_sem_getvalue_def k_ld8_def k_st8_def
  k_ld32_def k_st32_def k_clock_def Let_def

interpretation kl: live_law kE "k_open h a" k_ms h a for h a
  by unfold_locales (simp add: kE_simps k_live, simp add: kE_simps k_live, auto simp: k_live_defs)

lemma k_not_traps: "\<not> traps kE (k_open h a) a"
  by (auto simp: traps_def k_live_defs)

text \<open>The same on a machine that does not make unaligned stores of an \<open>int\<close>.\<close>

definition kE_strict :: "kern env" where
  "kE_strict = kE\<lparr>x_st32 := \<lambda>_ _ _. SysUndef\<rparr>"

interpretation kls: live_law kE_strict "k_open h a" k_ms h a for h a
  by unfold_locales (simp add: kE_strict_def kE_simps k_live, simp add: kE_strict_def kE_simps k_live,
    auto simp: kE_strict_def k_live_defs)

section \<open>Permits\<close>

text \<open>
  The permits out of a semaphore that was created with one, when the other
  processes of the schedule do not touch its count: they may still write the
  shared byte and pid, and unlink and create names.
\<close>

fun k_benign_act :: "act \<Rightarrow> bool" where
  "k_benign_act (APost k) = False"
| "k_benign_act (ATake k) = False"
| "k_benign_act (ANewSem n k v) = False"
| "k_benign_act _ = True"

definition k_benign :: "kern \<Rightarrow> bool" where
  "k_benign w = (\<forall>as \<in> set (k_sched w). \<forall>a \<in> set as. k_benign_act a)"

definition k_held :: "kern \<Rightarrow> nat \<Rightarrow> int" where
  "k_held w h = (case k_hsem w h of Some k \<Rightarrow> 1 - int (k_sem w k) | None \<Rightarrow> 0)"

lemma k_act_benign: "k_benign_act a \<Longrightarrow> k_sem (k_act a w) = k_sem w \<and> k_hsem (k_act a w) = k_hsem w"
  by (cases a) simp_all

lemma k_acts_benign: "\<forall>a \<in> set as. k_benign_act a \<Longrightarrow>
    k_sem (fold k_act as w) = k_sem w \<and> k_hsem (fold k_act as w) = k_hsem w"
  by (induction as arbitrary: w) (simp_all add: k_act_benign)

lemma k_tick_benign: "k_benign w \<Longrightarrow> k_sem (k_tick w) = k_sem w \<and> k_hsem (k_tick w) = k_hsem w \<and> k_benign (k_tick w)"
  by (cases "k_sched w") (auto simp: k_tick_def k_benign_def k_acts_benign)

lemmas k_tick_benigns [simp] = k_tick_benign [THEN conjunct1] k_tick_benign [THEN conjunct2, THEN conjunct1]
  k_tick_benign [THEN conjunct2, THEN conjunct2]

lemma k_benign_upd [simp]: "k_benign (w\<lparr>k_sem := a\<rparr>) = k_benign w" "k_benign (w\<lparr>k_byte := b\<rparr>) = k_benign w"
  "k_benign (w\<lparr>k_pid := p\<rparr>) = k_benign w" "k_benign (w\<lparr>k_errno := e\<rparr>) = k_benign w"
  "k_benign (w\<lparr>k_ms := m\<rparr>) = k_benign w"
  by (simp_all add: k_benign_def)

lemma k_wait_benign:
  assumes "k_wait give_up k s w = Sys (r, w')" and "k_sched w = s" and "k_benign w" and "k_hsem w h = Some k"
    and "\<And>v r v'. give_up v = Sys (r, v') \<Longrightarrow>
      r = - 1 \<and> k_sem v' = k_sem v \<and> k_hsem v' = k_hsem v \<and> k_sched v' = k_sched v"
  shows "k_benign w' \<and> k_held w' h = k_held w h + (if r = - 1 then 0 else 1)"
  using assms(1-4)
proof (induction s arbitrary: w)
  case Nil
  then show ?case using assms(5) [of w r w']
    by (auto simp: k_wait.simps [of _ _ "[]"] k_benign_def k_held_def split: if_splits)
next
  case (Cons as s)
  let ?w = "fold k_act as (w\<lparr>k_sched := s\<rparr>)"
  have a: "\<forall>a \<in> set as. k_benign_act a" "k_benign (w\<lparr>k_sched := s\<rparr>)"
    using Cons.prems(2,3) by (auto simp: k_benign_def)
  have w: "k_sem ?w = k_sem w" "k_hsem ?w = k_hsem w" "k_sched ?w = s" "k_benign ?w"
    using k_acts_benign [OF a(1), of "w\<lparr>k_sched := s\<rparr>"] a(2) by (simp_all add: k_benign_def)
  show ?case
  proof (cases "0 < k_sem w k")
    case True
    then show ?thesis using Cons.prems
      by (auto simp: k_wait.simps [of _ _ "as # s"] k_benign_def k_held_def)
  next
    case False
    then have "k_wait give_up k s ?w = Sys (r, w')"
      using Cons.prems(1) by (simp add: k_wait.simps [of _ _ "as # s"])
    then show ?thesis using Cons.IH [of ?w] Cons.prems(4) w by (simp add: k_held_def)
  qed
qed

lemma k_waits_track:
  assumes "\<And>v r v'. give_up v = Sys (r, v') \<Longrightarrow>
      r = - 1 \<and> k_sem v' = k_sem v \<and> k_hsem v' = k_hsem v \<and> k_sched v' = k_sched v"
    and "(let w = k_tick w0 in case k_hsem w h of None \<Rightarrow> SysUndef
      | Some k \<Rightarrow> k_wait give_up k (k_sched w) w) = Sys (r, w')"
  shows "tracks k_benign k_held h (if r = - 1 then 0 else 1) w0 w'"
proof (unfold tracks_def, intro impI)
  assume b: "k_benign w0"
  obtain k where k: "k_hsem (k_tick w0) h = Some k" "k_wait give_up k (k_sched (k_tick w0)) (k_tick w0) = Sys (r, w')"
    using assms(2) by (auto simp: Let_def split: option.splits)
  have "k_held (k_tick w0) h = k_held w0 h" using b by (simp add: k_held_def split: option.split)
  then show "k_benign w' \<and> k_held w' h = k_held w0 h + (if r = - 1 then 0 else 1)"
    using k_wait_benign [OF k(2) refl _ k(1) assms(1)] b by simp
qed

interpretation kp: permit_law kE "tracks k_benign k_held"
proof
  fix h w r w' ts tn
  show "x_sem_wait kE h w = Sys (r, w') \<Longrightarrow> tracks k_benign k_held h (if r = - 1 then 0 else 1) w w'"
    by (rule k_waits_track [where give_up = "\<lambda>_. SysBlocks"]) (simp_all add: kE_def k_sem_wait_def)
  show "x_sem_timedwait kE h ts tn w = Sys (r, w') \<Longrightarrow> tracks k_benign k_held h (if r = - 1 then 0 else 1) w w'"
    by (rule k_waits_track [where give_up = "\<lambda>w. Sys (- 1, w\<lparr>k_errno := ETIMEDOUT\<rparr>)"])
      (auto simp: kE_def k_sem_timedwait_def)
qed (auto simp: tracks_def kE_def k_sem_post_def k_sem_getvalue_def k_ld8_def k_st8_def
    k_st32_def k_ld32_def k_clock_def Let_def k_held_def split: option.splits if_splits)

end
