(* ===== verification/Demo.thy ===== *)
theory Demo
  imports Kernel
begin

text \<open>
  A concrete process on the concrete operating system: one lock, connected to
  semaphore 5 through handle 3 and to segment 2 through the mapping at 4096,
  with the module initialised.  The properties are instantiated on it.
\<close>

definition k_demo :: kern where
  "k_demo = \<lparr>k_sem = (\<lambda>_. 0)(5 := 1), k_semname = (\<lambda>_. None)(''/a'' := Some 5),
    k_hsem = (\<lambda>_. None)(3 := Some 5), k_shmname = (\<lambda>_. None)(''/a'' := Some 2),
    k_fd = (\<lambda>_. None)(4 := Some 2), k_amap = (\<lambda>_. None)(4096 := Some 2), k_byte = (\<lambda>_. 0)(2 := 1),
    k_pid = (\<lambda>_. 0), k_errno = 0, k_ms = 100000, k_next = 10, k_me = 42, k_sched = []\<rparr>"

definition lock_demo :: hlock where
  "lock_demo = \<lparr>semaphore = Some 3, cleaned_up = 0, spin_lock_char = Some 4096, spin_lock_pid = Some 4097,
    shm_fd = 4, sem_loc = Some 0\<rparr>"

definition dict_demo :: "string \<Rightarrow> pyobj option" where
  "dict_demo = map_of [(''SemaphoreDestroyedException'', PyCls SemaphoreDestroyed),
    (''NoSuchSemaphoreException'', PyCls NoSuchSemaphore), (''SemaphoreExistsException'', PyCls SemaphoreExists),
    (''CONNECT_OR_CREATE'', PyInt 0), (''CONNECT_TO_EXISTING'', PyInt 1), (''CREATE_NEW_OVERWRITE'', PyInt 2),
    (''CREATE_NEW_EXCLUSIVE'', PyInt 3), (''HybridLock'', PyCls HybridLockT)]"

definition p_on :: "kern \<Rightarrow> kern cst" where
  "p_on w = \<lparr>wld = w, objs = (\<lambda>_. None)(0 := Some lock_demo), nobj = 1, cmem = (\<lambda>_. None)(0 := Some (3, ''/a'')),
    nmem = 1, curexc = None, gil = True, mdict = dict_demo,
    bdict = (\<lambda>_. None)(''TimeoutError'' := Some (PyCls TimeoutErrorT)),
    v_LOCKED = 0, v_UNLOCKED = 1, v_DESTROYED = 0x7F, v_k = 1, cocache = empty_cache\<rparr>"

text \<open>Free, taken by process 7, destroyed.\<close>

definition p_demo :: "kern cst" where
  "p_demo = p_on k_demo"

definition p_taken :: "kern cst" where
  "p_taken = p_on (k_demo\<lparr>k_sem := \<lambda>_. 0, k_byte := \<lambda>_. 0, k_pid := \<lambda>_. 7\<rparr>)"

definition p_dead :: "kern cst" where
  "p_dead = p_on (k_demo\<lparr>k_byte := \<lambda>_. 0x7F\<rparr>)"

lemmas demo_defs = p_demo_def p_taken_def p_dead_def p_on_def k_demo_def lock_demo_def

lemma demo_std: "std_module (p_on w)"
  by (simp add: std_module_def p_on_def dict_demo_def)

lemma demo_lock: "lock_at p_demo (k_view (wld p_demo)) 0 5 2" "lock_at p_taken (k_view (wld p_taken)) 0 5 2"
  "lock_at p_dead (k_view (wld p_dead)) 0 5 2"
  by (simp_all add: lock_at_def demo_defs k_view_def)

lemma demo_quiet: "k_quiet (wld p_demo)" "k_quiet (wld p_taken)" "k_quiet (wld p_dead)"
  by (simp_all add: k_quiet_def demo_defs)

lemma demo_ok: "pyok p_demo" "pyok p_taken" "pyok p_dead" "gil p_demo" "gil p_taken" "gil p_dead"
  "curexc p_demo = None" "curexc p_taken = None" "curexc p_dead = None"
  by (simp_all add: pyok_def demo_defs)

lemma demo_std_all: "std_module p_demo" "std_module p_taken" "std_module p_dead"
  by (simp_all add: p_demo_def p_taken_def p_dead_def demo_std)

lemma demo_view:
  "v_byte (k_view (wld p_demo)) 2 = 1" "v_byte (k_view (wld p_taken)) 2 = 0" "v_byte (k_view (wld p_dead)) 2 = 0x7F"
  "v_sem (k_view (wld p_demo)) 5 = 1" "v_sem (k_view (wld p_taken)) 5 = 0"
  "v_pid (k_view (wld p_taken)) 2 = 7"
  by (simp_all add: demo_defs k_view_def)

lemma demo_sane: "k_sane (wld p_demo)" "k_sane (wld p_taken)" "k_sane (wld p_dead)"
  by (auto simp: k_sane_def k_quiet_def below_def demo_defs split: if_splits)

lemma demo_heap: "heap_ok p_demo" "heap_ok p_taken" "heap_ok p_dead"
  by (simp_all add: heap_ok_def demo_defs)

lemma demo_owns: "owns p_demo (k_view (wld p_demo)) 0 ''/a'' 5 2" "owns p_taken (k_view (wld p_taken)) 0 ''/a'' 5 2"
  by (simp_all add: owns_def demo_defs k_view_def)

lemma demo_names: "posix_name ''/a''" "posix_name ''/b''"
  "v_semname (k_view (wld p_demo)) ''/a'' = Some 5" "v_shmname (k_view (wld p_demo)) ''/a'' = Some 2"
  "v_semname (k_view (wld p_demo)) ''/b'' = None" "v_shmname (k_view (wld p_demo)) ''/b'' = None"
  by (simp_all add: posix_name_def demo_defs k_view_def)

lemma demo_room: "fd_room (k_view (wld p_demo)) 4" "fd_room (k_view (wld p_demo)) 2"
proof -
  have "{fd. v_fd (k_view (wld p_demo)) fd \<noteq> None} = {4}" by (auto simp: demo_defs k_view_def)
  then show "fd_room (k_view (wld p_demo)) 4" "fd_room (k_view (wld p_demo)) 2" by (simp_all add: fd_room_def open_max_def)
qed

text \<open>The arguments of the constructor calls: the count 1, the default permissions.\<close>

lemma demo_init: "unat (1 :: c_int) \<le> sem_value_max" "Suc 0 \<le> sem_value_max" "to_char 1 \<noteq> 0x7F"
  by (simp_all add: sem_value_max_def to_char_def)

lemmas demo = demo_lock demo_quiet demo_ok demo_std_all demo_view k.quiet_os_axioms kf.quiet_fs_axioms
  demo_sane demo_heap demo_owns demo_names demo_room demo_init

text \<open>The name denotes a new lock, semaphore 8 and segment 7, which another process made; the object
  is still connected to the old one, which that process destroyed.\<close>

definition p_stale :: "kern cst" where
  "p_stale = p_on (k_demo\<lparr>k_semname := (\<lambda>_. None)(''/a'' := Some 8), k_shmname := (\<lambda>_. None)(''/a'' := Some 7),
    k_byte := (\<lambda>_. 0)(2 := 0x7F, 7 := 1), k_sem := (\<lambda>_. 0)(8 := 1)\<rparr>)"

lemma demo_stale: "std_module p_stale" "k_sane (wld p_stale)" "owns p_stale (k_view (wld p_stale)) 0 ''/a'' 5 2"
  "gil p_stale" "v_shmname (k_view (wld p_stale)) ''/a'' = Some 7" "v_byte (k_view (wld p_stale)) 7 = 1"
  "v_sem (k_view (wld p_stale)) 8 = 1"
proof -
  show "std_module p_stale" by (simp add: p_stale_def demo_std)
qed (auto simp: k_sane_def k_quiet_def below_def owns_def p_stale_def p_on_def k_demo_def lock_demo_def k_view_def
    split: if_splits)

end
