(* ===== verification/ModInit.thy ===== *)
theory ModInit
  imports DestroySpec
begin

text \<open>
  The initialisation of the extension module: the C globals that hold Python
  objects, the string table, the cached tuples, the extension type with its
  pickling stubs, the classes of the module body, and the two slots of the
  multi-phase initialisation, \<open>__pyx_pymod_create\<close> and \<open>__pyx_pymod_exec\<close>.
\<close>

section \<open>State\<close>

text \<open>Attributes of the extension type and of \<open>object\<close>: a method of the type with
  its \<open>__name__\<close>, an attribute of \<open>object\<close>, the capsule of the vtable.\<close>

datatype tyattr = TMethod string | TObject string | TCapsule

text \<open>
  The process while the module is initialised: the state \<open>base\<close> of the rest of
  the development, whose \<open>mdict\<close> is the dictionary \<open>__pyx_d\<close>, the pointer
  \<open>__pyx_m\<close> (None: NULL), whether \<open>__pyx_d\<close> is set, the interpreter the module
  was first loaded into, the C globals that hold objects (strings, numbers,
  tuples, built-ins) by their C names, the dictionary of the type, whether the
  type is ready, the entries of its C vtable, \<open>__pyx_ptype\<close>, \<open>sys.modules\<close>, and
  the dictionaries of the module objects made so far.
\<close>

record 'w ist =
  base :: "'w cst"
  py_m :: "nat option"
  py_d :: bool
  main_id :: int
  cg :: "string \<Rightarrow> pyobj option"
  tdict :: "string \<Rightarrow> tyattr option"
  vtable :: "string list"
  ptype :: bool
  sysmods :: "string \<Rightarrow> nat option"
  moddicts :: "nat \<Rightarrow> string \<Rightarrow> pyobj option"
  nmod :: nat

type_synonym ('w, 'a) iprog = "('w ist, 'a) prog"

text \<open>A statement of the rest of the development, run on \<open>base\<close>.\<close>

definition lft :: "('w, 'a) cprog \<Rightarrow> ('w, 'a) iprog" where
  "lft m s = (case m (base s) of Ret v b \<Rightarrow> Ret v (s\<lparr>base := b\<rparr>)
    | Goto p l b \<Rightarrow> Goto p l (s\<lparr>base := b\<rparr>) | Stuck u \<Rightarrow> Stuck u)"

text \<open>A C global that holds an object: using it while it is NULL is undefined.\<close>

definition glob :: "string \<Rightarrow> ('w, pyobj) iprog" where
  "glob k = bnd (rd (\<lambda>s. cg s k)) (\<lambda>v. case v of Some x \<Rightarrow> ret x | None \<Rightarrow> stuck Undefined)"

definition set_glob :: "string \<Rightarrow> pyobj \<Rightarrow> ('w, unit) iprog" where
  "set_glob k v = upd (\<lambda>s. s\<lparr>cg := (cg s)(k := Some v)\<rparr>)"

text \<open>A C-API call that may fail, with \<open>__PYX_ERR(f, l, ...)\<close> when it does.\<close>

definition icall :: "'w env \<Rightarrow> nat \<Rightarrow> int \<Rightarrow> string \<Rightarrow> 'a \<Rightarrow> ('w, 'a) iprog" where
  "icall E f l fn v = bnd (lft (capi E fn v)) (\<lambda>t. case t of None \<Rightarrow> pyx_err f l | Some x \<Rightarrow> ret x)"

text \<open>\<open>if (f() < 0) __PYX_ERR(0, l, ...)\<close>.\<close>

definition neg_err :: "int \<Rightarrow> ('w, c_int) iprog \<Rightarrow> ('w, unit) iprog" where
  "neg_err l m = bnd m (\<lambda>r. whn (sint r < 0) (pyx_err 0 l))"

section \<open>Strings, numbers, tuples\<close>

text \<open>\<open>__Pyx_StringTabEntry\<close> without its encoding, which is NULL in every entry.\<close>

datatype strent = StrEnt (se_name: string) (se_text: string) (se_unicode: bool) (se_str: bool) (se_intern: bool)

definition string_tab :: "strent list" where
  "string_tab = [
    StrEnt ''n_s_CONNECT_OR_CREATE'' ''CONNECT_OR_CREATE'' False True True,
    StrEnt ''n_s_CONNECT_TO_EXISTING'' ''CONNECT_TO_EXISTING'' False True True,
    StrEnt ''n_s_CREATE_NEW_EXCLUSIVE'' ''CREATE_NEW_EXCLUSIVE'' False True True,
    StrEnt ''n_s_CREATE_NEW_OVERWRITE'' ''CREATE_NEW_OVERWRITE'' False True True,
    StrEnt ''kp_u_Error_allocating_memory'' ''Error allocating memory'' True False False,
    StrEnt ''kp_u_Error_copying_memory'' ''Error copying memory'' True False False,
    StrEnt ''kp_u_Error_occurred_calling'' ''Error occurred calling '' True False False,
    StrEnt ''n_s_HybridLock'' ''HybridLock'' False True True,
    StrEnt ''kp_u_HybridLock_has_already_been_dest'' ''HybridLock has already been destroyed'' True False False,
    StrEnt ''n_s_NoSuchSemaphoreException'' ''NoSuchSemaphoreException'' False True True,
    StrEnt ''n_s_STUFF'' ''STUFF'' False True True,
    StrEnt ''n_s_SemaphoreDestroyedException'' ''SemaphoreDestroyedException'' False True True,
    StrEnt ''n_s_SemaphoreExistsException'' ''SemaphoreExistsException'' False True True,
    StrEnt ''kp_u_Semaphore_at_s_already_destroyed'' (''Semaphore at %s already destroyed: shouldn'' @ [CHR 0x27] @ ''t get here!'') True False False,
    StrEnt ''n_s_SystemError'' ''SystemError'' False True True,
    StrEnt ''n_s_TimeoutError'' ''TimeoutError'' False True True,
    StrEnt ''n_s_TypeError'' ''TypeError'' False True True,
    StrEnt ''kp_u_Unknown_mode_s'' ''Unknown mode: %s'' True False False,
    StrEnt ''kp_u__4'' '': '' True False False,
    StrEnt ''n_s_cline_in_traceback'' ''cline_in_traceback'' False True True,
    StrEnt ''n_u_clock_gettime'' ''clock_gettime'' True False True,
    StrEnt ''n_u_close'' ''close'' True False True,
    StrEnt ''n_s_doc'' ''__doc__'' False True True,
    StrEnt ''n_s_exception_occurred'' ''__exception_occurred'' False True True,
    StrEnt ''n_u_fchmod'' ''fchmod'' True False True,
    StrEnt ''n_u_ftruncate'' ''ftruncate'' True False True,
    StrEnt ''n_s_getstate'' ''__getstate__'' False True True,
    StrEnt ''n_u_hi'' ''hi'' True False True,
    StrEnt ''n_s_init_mmap'' ''init_mmap'' False True True,
    StrEnt ''n_s_initial_value'' ''initial_value'' False True True,
    StrEnt ''kp_u_lock_called_on_destroyed_HybridL'' ''lock called on destroyed HybridLock!'' True False False,
    StrEnt ''n_s_main'' ''__main__'' False True True,
    StrEnt ''n_s_metaclass'' ''__metaclass__'' False True True,
    StrEnt ''n_u_mmap'' ''mmap'' True False True,
    StrEnt ''n_s_mode'' ''mode'' False True True,
    StrEnt ''n_s_module'' ''__module__'' False True True,
    StrEnt ''n_s_name'' ''__name__'' False True True,
    StrEnt ''kp_s_no_default___reduce___due_to_non'' ''no default __reduce__ due to non-trivial __cinit__'' False True False,
    StrEnt ''n_s_permissions'' ''permissions'' False True True,
    StrEnt ''n_s_prepare'' ''__prepare__'' False True True,
    StrEnt ''n_s_pyx_vtable'' ''__pyx_vtable__'' False True True,
    StrEnt ''n_s_qualname'' ''__qualname__'' False True True,
    StrEnt ''n_s_reduce'' ''__reduce__'' False True True,
    StrEnt ''n_s_reduce_cython'' ''__reduce_cython__'' False True True,
    StrEnt ''n_s_reduce_ex'' ''__reduce_ex__'' False True True,
    StrEnt ''n_u_sem_close'' ''sem_close'' True False True,
    StrEnt ''n_u_sem_getvalue'' ''sem_getvalue'' True False True,
    StrEnt ''n_s_sem_loc'' ''sem_loc'' False True True,
    StrEnt ''n_u_sem_post'' ''sem_post'' True False True,
    StrEnt ''kp_u_sem_timedwait_d'' ''sem_timedwait: %d'' True False False,
    StrEnt ''n_u_sem_unlink'' ''sem_unlink'' True False True,
    StrEnt ''n_u_sem_wait'' ''sem_wait'' True False True,
    StrEnt ''n_s_set_value'' ''set_value'' False True True,
    StrEnt ''n_s_setstate'' ''__setstate__'' False True True,
    StrEnt ''n_s_setstate_cython'' ''__setstate_cython__'' False True True,
    StrEnt ''n_u_shm_open'' ''shm_open'' True False True,
    StrEnt ''n_u_shm_unlink'' ''shm_unlink'' True False True,
    StrEnt ''n_s_spin'' ''spin'' False True True,
    StrEnt ''n_s_test'' ''__test__'' False True True,
    StrEnt ''n_s_timeout'' ''timeout'' False True True]"

definition str_object :: "strent \<Rightarrow> pyobj" where
  "str_object t = (if se_unicode t \<or> se_str t then PyStr (se_text t) else PyBytes (se_text t))"

definition str_maker :: "strent \<Rightarrow> string" where
  "str_maker t = (if se_unicode t \<or> se_str t
    then (if se_intern t then ''PyUnicode_InternFromString'' else ''PyUnicode_FromStringAndSize'')
    else ''PyBytes_FromStringAndSize'')"

text \<open>\<open>__Pyx_InitStrings\<close>: each string is made, stored and hashed.\<close>

primrec init_strings :: "'w env \<Rightarrow> strent list \<Rightarrow> ('w, c_int) iprog" where
  "init_strings E [] = ret 0"
| "init_strings E (t # ts) =
    bnd (lft (capi E (str_maker t) (str_object t))) (\<lambda>r. case r of
      None \<Rightarrow> sq (upd (\<lambda>s. s\<lparr>cg := (cg s)(se_name t := None)\<rparr>)) (ret (- 1))
    | Some v \<Rightarrow> sq (set_glob (se_name t) v)
        (bnd (lft (capi E ''PyObject_Hash'' ())) (\<lambda>h. case h of
          None \<Rightarrow> ret (- 1)
        | Some _ \<Rightarrow> init_strings E ts)))"

definition init_int :: "'w env \<Rightarrow> string \<Rightarrow> int \<Rightarrow> ('w, unit) iprog" where
  "init_int E k v = bnd (icall E 0 1 ''PyInt_FromLong'' (PyInt v)) (set_glob k)"

definition init_globals :: "'w env \<Rightarrow> ('w, c_int) iprog" where
  "init_globals E = at_label
    (sq (neg_err 1 (init_strings E string_tab))
    (sq (init_int E ''int_0'' 0)
    (sq (init_int E ''int_1'' 1)
    (sq (init_int E ''int_2'' 2)
    (sq (init_int E ''int_3'' 3)
    (ret 0))))))
    (\<lambda>_ _. ret (- 1))"

definition init_builtin :: "'w env \<Rightarrow> nat \<Rightarrow> int \<Rightarrow> string \<Rightarrow> string \<Rightarrow> ('w, unit) iprog" where
  "init_builtin E f l k nm = bnd (glob nm) (\<lambda>n. case n of
      PyStr x \<Rightarrow> bnd (lft (pyx_GetBuiltinName E x)) (\<lambda>r. case r of
          None \<Rightarrow> pyx_err f l | Some v \<Rightarrow> set_glob k v)
    | _ \<Rightarrow> stuck Undefined)"

definition init_builtins :: "'w env \<Rightarrow> ('w, c_int) iprog" where
  "init_builtins E = at_label
    (sq (init_builtin E 0 196 ''builtin_SystemError'' ''n_s_SystemError'')
    (sq (init_builtin E 1 2 ''builtin_TypeError'' ''n_s_TypeError'')
    (ret 0)))
    (\<lambda>_ _. ret (- 1))"

primrec init_tuples :: "'w env \<Rightarrow> (string \<times> string \<times> nat \<times> int) list \<Rightarrow> ('w, unit) iprog" where
  "init_tuples E [] = ret ()"
| "init_tuples E (t # ts) = (case t of (k, nm, f, l) \<Rightarrow>
    bnd (glob nm) (\<lambda>x.
    bnd (icall E f l ''PyTuple_Pack'' (PyTuple [x])) (\<lambda>v.
    sq (set_glob k v) (init_tuples E ts))))"

definition cached_tuples :: "(string \<times> string \<times> nat \<times> int) list" where
  "cached_tuples = [
    (''tuple__2'', ''kp_u_Error_allocating_memory'', 0, 76),
    (''tuple__3'', ''kp_u_Error_copying_memory'', 0, 79),
    (''tuple__5'', ''n_u_shm_open'', 0, 196),
    (''tuple__6'', ''n_u_ftruncate'', 0, 200),
    (''tuple__7'', ''n_u_mmap'', 0, 212),
    (''tuple__8'', ''n_u_close'', 0, 243),
    (''tuple__9'', ''n_u_sem_close'', 0, 246),
    (''tuple__10'', ''n_u_shm_unlink'', 0, 266),
    (''tuple__11'', ''n_u_sem_unlink'', 0, 275),
    (''tuple__12'', ''n_u_sem_getvalue'', 0, 313),
    (''tuple__13'', ''n_u_sem_wait'', 0, 365),
    (''tuple__14'', ''n_u_clock_gettime'', 0, 368),
    (''tuple__15'', ''n_u_sem_post'', 0, 400),
    (''tuple__16'', ''kp_s_no_default___reduce___due_to_non'', 1, 2),
    (''tuple__17'', ''kp_s_no_default___reduce___due_to_non'', 1, 4)]"

definition init_constants :: "'w env \<Rightarrow> ('w, c_int) iprog" where
  "init_constants E = at_label (sq (init_tuples E cached_tuples) (ret 0)) (\<lambda>_ _. ret (- 1))"

section \<open>The extension type\<close>

text \<open>A string object as a name.\<close>

definition gname :: "string \<Rightarrow> ('w, string) iprog" where
  "gname k = bnd (glob k) (\<lambda>v. case v of PyStr x \<Rightarrow> ret x | _ \<Rightarrow> stuck Undefined)"

text \<open>\<open>_PyType_Lookup\<close> on \<open>object\<close> (whose attributes are the names in \<open>OA\<close>, which
  depend on the version of the interpreter) and on the extension type.\<close>

definition obj_lookup :: "(string \<Rightarrow> bool) \<Rightarrow> string \<Rightarrow> ('w, tyattr option) iprog" where
  "obj_lookup OA k = bnd (gname k) (\<lambda>n. ret (if OA n then Some (TObject n) else None))"

definition ty_lookup :: "(string \<Rightarrow> bool) \<Rightarrow> string \<Rightarrow> ('w, tyattr option) iprog" where
  "ty_lookup OA k = bnd (gname k) (\<lambda>n. bnd (rd (\<lambda>s. tdict s n)) (\<lambda>v.
    ret (case v of Some a \<Rightarrow> Some a | None \<Rightarrow> if OA n then Some (TObject n) else None)))"

definition err_clear :: "('w, unit) iprog" where
  "err_clear = lft (err_restore None)"

text \<open>\<open>__Pyx_PyObject_GetAttrStr(type_obj, name)\<close>, and the variant that clears the
  AttributeError.\<close>

definition ty_getattr :: "'w env \<Rightarrow> (string \<Rightarrow> bool) \<Rightarrow> string \<Rightarrow> ('w, tyattr option) iprog" where
  "ty_getattr E OA k = bnd (lft (capi E ''type_getattro'' ())) (\<lambda>r. case r of
      None \<Rightarrow> ret None
    | Some _ \<Rightarrow> bnd (ty_lookup OA k) (\<lambda>v. case v of
          Some a \<Rightarrow> ret (Some a)
        | None \<Rightarrow> bnd (gname k) (\<lambda>n. sq (lft (set_err AttributeErrorT (PyStr n))) (ret None))))"

definition GetAttrStr_ClearAttributeError :: "('w, unit) iprog" where
  "GetAttrStr_ClearAttributeError = bnd (rd (\<lambda>s. curexc (base s))) (\<lambda>e.
    whn (pyx_ExceptionMatches e (PyCls AttributeErrorT)) err_clear)"

definition ty_getattr_noerror :: "'w env \<Rightarrow> (string \<Rightarrow> bool) \<Rightarrow> string \<Rightarrow> ('w, tyattr option) iprog" where
  "ty_getattr_noerror E OA k = bnd (ty_getattr E OA k) (\<lambda>r.
    sq (whn (r = None) GetAttrStr_ClearAttributeError) (ret r))"

text \<open>\<open>__Pyx_setup_reduce_is_named\<close>: every error counts as a different name.\<close>

definition setup_reduce_is_named :: "'w env \<Rightarrow> tyattr \<Rightarrow> string \<Rightarrow> ('w, bool) iprog" where
  "setup_reduce_is_named E meth k = bnd (gname k) (\<lambda>n. bnd
    (bnd (lft (capi E ''PyObject_GetAttr'' ())) (\<lambda>r. case (r, meth) of
        (None, _) \<Rightarrow> ret None
      | (Some _, TMethod m) \<Rightarrow> lft (capi E ''PyObject_RichCompareBool'' (m = n))
      | (Some _, TObject m) \<Rightarrow> lft (capi E ''PyObject_RichCompareBool'' (m = n))
      | (Some _, TCapsule) \<Rightarrow> sq (lft (set_err AttributeErrorT (PyStr ''__name__''))) (ret None)))
    (\<lambda>b. case b of Some x \<Rightarrow> ret x | None \<Rightarrow> sq err_clear (ret False)))"

text \<open>One pair of names in \<open>__Pyx_setup_reduce\<close>: the stub \<open>kc\<close> is stored under the
  name \<open>k\<close> and removed under its own; \<open>must\<close> says that a missing stub is an error.\<close>

definition setup_reduce_move :: "'w env \<Rightarrow> (string \<Rightarrow> bool) \<Rightarrow> string \<Rightarrow> string \<Rightarrow> bool \<Rightarrow> ('w, unit) iprog" where
  "setup_reduce_move E OA k kc must = bnd (ty_getattr_noerror E OA kc) (\<lambda>r. case r of
      Some a \<Rightarrow>
        bnd (icall E 0 0 ''PyDict_SetItem'' ()) (\<lambda>_.
        bnd (gname k) (\<lambda>n. sq (upd (\<lambda>s. s\<lparr>tdict := (tdict s)(n := Some a)\<rparr>))
        (bnd (icall E 0 0 ''PyDict_DelItem'' ()) (\<lambda>_.
         bnd (gname kc) (\<lambda>m. upd (\<lambda>s. s\<lparr>tdict := (tdict s)(m := None)\<rparr>))))))
    | None \<Rightarrow> bnd (lft pyerr_occurred) (\<lambda>b. whn (must \<or> b) (pyx_err 0 0)))"

definition orbad :: "('w, 'a option) iprog \<Rightarrow> ('w, 'a) iprog" where
  "orbad m = bnd m (\<lambda>r. case r of None \<Rightarrow> pyx_err 0 0 | Some a \<Rightarrow> ret a)"

definition setup_reduce_setstate :: "'w env \<Rightarrow> (string \<Rightarrow> bool) \<Rightarrow> ('w, unit) iprog" where
  "setup_reduce_setstate E OA =
    bnd (ty_getattr E OA ''n_s_setstate'') (\<lambda>st.
    sq (whn (st = None) err_clear)
    (bnd (case st of None \<Rightarrow> ret True | Some a \<Rightarrow> setup_reduce_is_named E a ''n_s_setstate_cython'') (\<lambda>b.
     whn b (setup_reduce_move E OA ''n_s_setstate'' ''n_s_setstate_cython'' (st = None)))))"

text \<open>\<open>__Pyx_setup_reduce\<close>; \<open>__PYX_BAD\<close> is its error label.\<close>

definition setup_reduce_bad :: "('w, c_int) iprog" where
  "setup_reduce_bad = bnd (lft pyerr_occurred) (\<lambda>b.
    sq (whn (\<not> b) (lft (set_err RuntimeErrorT (PyStr ''Unable to initialize pickling for HybridLock.HybridLock''))))
    (ret (- 1)))"

definition setup_reduce :: "'w env \<Rightarrow> (string \<Rightarrow> bool) \<Rightarrow> ('w, c_int) iprog" where
  "setup_reduce E OA = at_label
    (bnd (ty_lookup OA ''n_s_getstate'') (\<lambda>gs. if gs \<noteq> None then ret 0 else
     bnd (orbad (obj_lookup OA ''n_s_reduce_ex'')) (\<lambda>object_reduce_ex.
     bnd (orbad (ty_getattr E OA ''n_s_reduce_ex'')) (\<lambda>reduce_ex.
     if reduce_ex \<noteq> object_reduce_ex then ret 0 else
     bnd (orbad (obj_lookup OA ''n_s_reduce'')) (\<lambda>object_reduce.
     bnd (orbad (ty_getattr E OA ''n_s_reduce'')) (\<lambda>reduce.
     bnd (if reduce = object_reduce then ret True else setup_reduce_is_named E reduce ''n_s_reduce_cython'') (\<lambda>b.
     if \<not> b then ret 0 else
     sq (setup_reduce_move E OA ''n_s_reduce'' ''n_s_reduce_cython'' (reduce = object_reduce))
     (sq (setup_reduce_setstate E OA) (ret 0)))))))))
    (\<lambda>_ _. setup_reduce_bad)"

definition set_vtable :: "'w env \<Rightarrow> ('w, c_int) iprog" where
  "set_vtable E = at_label
    (bnd (icall E 0 0 ''PyCapsule_New'' ()) (\<lambda>_.
     bnd (gname ''n_s_pyx_vtable'') (\<lambda>n.
     bnd (icall E 0 0 ''PyDict_SetItem'' ()) (\<lambda>_.
     sq (upd (\<lambda>s. s\<lparr>tdict := (tdict s)(n := Some TCapsule)\<rparr>)) (ret 0)))))
    (\<lambda>_ _. ret (- 1))"

text \<open>\<open>PyType_Ready\<close> fills the dictionary of the type from its method table.\<close>

definition type_methods :: "'w env \<Rightarrow> string \<Rightarrow> tyattr option" where
  "type_methods E = map_of (map (\<lambda>(n, _). (n, TMethod n)) (hl_methods E))"

definition hl_vtable :: "string list" where
  "hl_vtable = [''destroy'', ''get_destroyed'', ''get_value'', ''lock'', ''unlock'', ''get_pid_holding_lock'']"

definition type_init :: "'w env \<Rightarrow> (string \<Rightarrow> bool) \<Rightarrow> ('w, c_int) iprog" where
  "type_init E OA = at_label
    (sq (upd (\<lambda>s. s\<lparr>vtable := hl_vtable\<rparr>))
    (bnd (icall E 0 52 ''PyType_Ready'' ()) (\<lambda>_.
     sq (upd (\<lambda>s. s\<lparr>tdict := type_methods E\<rparr>))
     (sq (neg_err 52 (set_vtable E))
     (bnd (icall E 0 52 ''PyObject_SetAttr'' ()) (\<lambda>_.
      bnd (gname ''n_s_HybridLock'') (\<lambda>n.
      sq (upd (\<lambda>s. s\<lparr>base := (base s)\<lparr>mdict := (mdict (base s))(n := Some (PyCls HybridLockT))\<rparr>\<rparr>))
      (sq (neg_err 52 (setup_reduce E OA))
      (sq (upd (\<lambda>s. s\<lparr>ptype := True\<rparr>))
      (ret 0))))))))))
    (\<lambda>_ _. ret (- 1))"

section \<open>Classes of the module body\<close>

text \<open>
  \<open>__Pyx_CalculateMetaclass\<close>, on the types of the bases; None is the conflict.
  Metaclasses may have any number of bases, so the types are not those of the
  model: \<open>sub\<close> is \<open>PyType_IsSubtype\<close> and \<open>type\<close> is \<open>PyType_Type\<close>.
\<close>

fun calc_metaclass :: "('c \<Rightarrow> 'c \<Rightarrow> bool) \<Rightarrow> 'c \<Rightarrow> 'c option \<Rightarrow> 'c list \<Rightarrow> 'c option" where
  "calc_metaclass sub type m [] = Some (case m of None \<Rightarrow> type | Some t \<Rightarrow> t)"
| "calc_metaclass sub type None (t # ts) = calc_metaclass sub type (Some t) ts"
| "calc_metaclass sub type (Some m) (t # ts) =
    (if sub m t then calc_metaclass sub type (Some m) ts
     else if sub t m then calc_metaclass sub type (Some t) ts
     else None)"

definition CalculateMetaclass :: "cls option \<Rightarrow> cls list \<Rightarrow> ('w, cls option) iprog" where
  "CalculateMetaclass m ts = (case calc_metaclass (\<lambda>a b. b \<in> set (tp_mro a)) TypeT m ts of
      Some t \<Rightarrow> ret (Some t)
    | None \<Rightarrow> sq (lft (set_err TypeErrorT (PyStr ''metaclass conflict: the metaclass of a derived class must be a (non-strict) subclass of the metaclasses of all its bases'')))
        (ret None))"

text \<open>\<open>PyObject_SetItem(ns, name, value)\<close> on a namespace.\<close>

definition ns_set :: "'w env \<Rightarrow> string \<Rightarrow> pyobj \<Rightarrow> (string \<Rightarrow> pyobj option) \<Rightarrow> ('w, string \<Rightarrow> pyobj option) iprog" where
  "ns_set E k v ns = bnd (icall E 0 0 ''PyObject_SetItem'' ()) (\<lambda>_. bnd (gname k) (\<lambda>n. ret (ns(n := Some v))))"

text \<open>\<open>__Pyx_Py3MetaclassPrepare\<close> without keywords: \<open>type.__prepare__\<close> gives an
  empty dictionary, and so does a metaclass without the method.\<close>

definition metaclass_prepare :: "'w env \<Rightarrow> cls option \<Rightarrow> pyobj \<Rightarrow> pyobj \<Rightarrow> pyobj option \<Rightarrow>
    ('w, (string \<Rightarrow> pyobj option) option) iprog" where
  "metaclass_prepare E metaclass qualname modname doc = at_label
    (bnd (case metaclass of
        None \<Rightarrow> icall E 0 0 ''PyDict_New'' Map.empty
      | Some _ \<Rightarrow> bnd (lft (capi E ''PyObject_GetAttr'' ())) (\<lambda>prep. case prep of
            Some _ \<Rightarrow> bnd (icall E 0 0 ''PyTuple_Pack'' ()) (\<lambda>_. icall E 0 0 ''PyObject_Call'' Map.empty)
          | None \<Rightarrow> bnd (rd (\<lambda>s. curexc (base s))) (\<lambda>e.
              if (case e of Some x \<Rightarrow> api_given_matches (e_type x) (PyCls AttributeErrorT) | None \<Rightarrow> False)
              then sq err_clear (icall E 0 0 ''PyDict_New'' Map.empty) else pyx_err 0 0))) (\<lambda>ns.
     bnd (ns_set E ''n_s_module'' modname ns) (\<lambda>ns.
     bnd (ns_set E ''n_s_qualname'' qualname ns) (\<lambda>ns.
     bnd (case doc of None \<Rightarrow> ret ns | Some d \<Rightarrow> ns_set E ''n_s_doc'' d ns) (\<lambda>ns.
     ret (Some ns))))))
    (\<lambda>_ _. ret None)"

text \<open>\<open>__Pyx_Py3ClassCreate\<close> as it is called here, with a metaclass that has been
  computed and is \<open>type\<close>: the result is the new class.\<close>

definition class_create :: "'w env \<Rightarrow> string \<Rightarrow> cls \<Rightarrow> ('w, pyobj option) iprog" where
  "class_create E name b = bnd (lft (capi E ''PyTuple_Pack'' ())) (\<lambda>margs. case margs of
      None \<Rightarrow> ret None
    | Some _ \<Rightarrow> lft (capi E ''PyObject_Call'' (PyCls (Derived name b))))"

text \<open>\<open>PyDict_SetItem(__pyx_d, name, v)\<close>.\<close>

definition set_module_global :: "'w env \<Rightarrow> int \<Rightarrow> string \<Rightarrow> pyobj \<Rightarrow> ('w, unit) iprog" where
  "set_module_global E l k v = bnd (gname k) (\<lambda>n. bnd (icall E 0 l ''PyDict_SetItem'' ()) (\<lambda>_.
    upd (\<lambda>s. s\<lparr>base := (base s)\<lparr>mdict := (mdict (base s))(n := Some v)\<rparr>\<rparr>)))"

definition orerr :: "int \<Rightarrow> ('w, 'a option) iprog \<Rightarrow> ('w, 'a) iprog" where
  "orerr l m = bnd m (\<lambda>r. case r of None \<Rightarrow> pyx_err 0 l | Some a \<Rightarrow> ret a)"

text \<open>\<open>class name(Exception): pass\<close> at line \<open>l\<close>.\<close>

definition exec_class :: "'w env \<Rightarrow> int \<Rightarrow> string \<Rightarrow> ('w, unit) iprog" where
  "exec_class E l k =
    bnd (icall E 0 l ''PyTuple_New'' ()) (\<lambda>_.
    bnd (orerr l (CalculateMetaclass None [py_type (PyCls ExceptionT)])) (\<lambda>mc.
    bnd (glob k) (\<lambda>qualname. bnd (glob ''n_s_HybridLock'') (\<lambda>modname.
    bnd (orerr l (metaclass_prepare E (Some mc) qualname modname None)) (\<lambda>ns.
    bnd (gname k) (\<lambda>name.
    bnd (orerr l (class_create E name ExceptionT)) (\<lambda>c.
    set_module_global E l k c)))))))"

section \<open>The module\<close>

text \<open>The versions are compared by their first and third characters, in buffers of
  four bytes.\<close>

definition check_binary_version :: "'w env \<Rightarrow> string \<Rightarrow> string \<Rightarrow> ('w, c_int) iprog" where
  "check_binary_version E ct rt =
    (let at = (\<lambda>v i. (take 3 v @ replicate 4 (CHR 0x00)) ! i) in
     if at ct 0 \<noteq> at rt 0 \<or> at ct 2 \<noteq> at rt 2
     then bnd (lft (capi E ''PyErr_WarnEx'' ())) (\<lambda>r. ret (if r = None then - 1 else 0))
     else ret 0)"

text \<open>\<open>__Pyx_check_single_interpreter\<close>; \<open>I\<close> is the id of the interpreter, or the
  exception of \<open>PyInterpreterState_GetID\<close>, which returns \<open>-1\<close> then.\<close>

definition check_single_interpreter :: "('w \<Rightarrow> int + pyerr) \<Rightarrow> ('w, c_int) iprog" where
  "check_single_interpreter I =
    bnd (rd (\<lambda>s. I (wld (base s)))) (\<lambda>i.
    bnd (case i of Inl n \<Rightarrow> ret n | Inr e \<Rightarrow> sq (lft (set_pyerr e)) (ret (- 1))) (\<lambda>current.
    bnd (rd main_id) (\<lambda>m.
    if m = - 1 then sq (upd (\<lambda>s. s\<lparr>main_id := current\<rparr>)) (ret (if current = - 1 then - 1 else 0))
    else if m \<noteq> current then
      sq (lft (set_err ImportErrorT (PyStr ''Interpreter change detected - this module can only be loaded into one interpreter per process.'')))
      (ret (- 1))
    else ret 0)))"

text \<open>\<open>PyObject_GetAttrString(spec, name)\<close> on an object with the attributes \<open>sp\<close>.\<close>

definition spec_attr :: "'w env \<Rightarrow> (string \<Rightarrow> pyobj option) \<Rightarrow> string \<Rightarrow> ('w, pyobj option) iprog" where
  "spec_attr E sp n = bnd (lft (capi E ''PyObject_GetAttrString'' ())) (\<lambda>r. case (r, sp n) of
      (None, _) \<Rightarrow> ret None
    | (Some _, Some v) \<Rightarrow> ret (Some v)
    | (Some _, None) \<Rightarrow> sq (lft (set_err AttributeErrorT (PyStr n))) (ret None))"

definition copy_spec_to_module :: "'w env \<Rightarrow> (string \<Rightarrow> pyobj option) \<Rightarrow> nat \<Rightarrow> string \<Rightarrow> string \<Rightarrow> bool \<Rightarrow>
    ('w, c_int) iprog" where
  "copy_spec_to_module E sp m from_name to_name allow_none =
    bnd (spec_attr E sp from_name) (\<lambda>value. case value of
      Some v \<Rightarrow>
        if allow_none \<or> v \<noteq> PyNone then
          bnd (lft (capi E ''PyDict_SetItemString'' ())) (\<lambda>r. case r of
            None \<Rightarrow> ret (- 1)
          | Some _ \<Rightarrow> sq (upd (\<lambda>s. s\<lparr>moddicts := (moddicts s)(m := (moddicts s m)(to_name := Some v))\<rparr>)) (ret 0))
        else ret 0
    | None \<Rightarrow> bnd (rd (\<lambda>s. curexc (base s))) (\<lambda>e.
        if (case e of Some x \<Rightarrow> api_given_matches (e_type x) (PyCls AttributeErrorT) | None \<Rightarrow> False)
        then sq err_clear (ret 0) else ret (- 1)))"

text \<open>\<open>PyModule_NewObject\<close>: a module object with the dictionary of a new module.\<close>

definition new_module :: "'w env \<Rightarrow> pyobj \<Rightarrow> ('w, nat) iprog" where
  "new_module E nm = bnd (icall E 0 0 ''PyModule_NewObject'' ()) (\<lambda>_ s.
    Ret (nmod s) (s\<lparr>nmod := nmod s + 1, moddicts := (moddicts s)(nmod s := (\<lambda>_. None)(
      ''__name__'' := Some nm, ''__doc__'' := Some PyNone, ''__package__'' := Some PyNone,
      ''__loader__'' := Some PyNone, ''__spec__'' := Some PyNone))\<rparr>))"

definition pymod_create :: "'w env \<Rightarrow> ('w \<Rightarrow> int + pyerr) \<Rightarrow> (string \<Rightarrow> pyobj option) \<Rightarrow> ('w, nat option) iprog" where
  "pymod_create E I sp =
    bnd (check_single_interpreter I) (\<lambda>r. if r \<noteq> 0 then ret None else
    bnd (rd py_m) (\<lambda>pm. if pm \<noteq> None then ret pm else
    at_label
      (bnd (orbad (spec_attr E sp ''name'')) (\<lambda>modname.
       bnd (new_module E modname) (\<lambda>m.
       bnd (icall E 0 0 ''PyModule_GetDict'' ()) (\<lambda>_.
       sq (neg_err 0 (copy_spec_to_module E sp m ''loader'' ''__loader__'' True))
       (sq (neg_err 0 (copy_spec_to_module E sp m ''origin'' ''__file__'' True))
       (sq (neg_err 0 (copy_spec_to_module E sp m ''parent'' ''__package__'' True))
       (sq (neg_err 0 (copy_spec_to_module E sp m ''submodule_search_locations'' ''__path__'' False))
       (ret (Some m)))))))))
      (\<lambda>_ _. ret None)))"

text \<open>The phases of \<open>__pyx_pymod_exec\<close>: the empty constants and the module
  pointers, the constants, the body.\<close>

definition exec_setup :: "'w env \<Rightarrow> string \<Rightarrow> string \<Rightarrow> nat \<Rightarrow> ('w, unit) iprog" where
  "exec_setup E ct rt m =
    sq (neg_err 1 (check_binary_version E ct rt))
    (bnd (icall E 0 1 ''PyTuple_New'' (PyTuple [])) (\<lambda>v. sq (set_glob ''empty_tuple'' v)
    (bnd (icall E 0 1 ''PyBytes_FromStringAndSize'' (PyBytes [])) (\<lambda>v. sq (set_glob ''empty_bytes'' v)
    (bnd (icall E 0 1 ''PyUnicode_FromStringAndSize'' (PyStr [])) (\<lambda>v. sq (set_glob ''empty_unicode'' v)
    (sq (upd (\<lambda>s. s\<lparr>py_m := Some m\<rparr>))
    (bnd (icall E 0 1 ''PyModule_GetDict'' ()) (\<lambda>_.
     sq (upd (\<lambda>s. s\<lparr>py_d := True, base := (base s)\<lparr>mdict := moddicts s m\<rparr>\<rparr>))
    (bnd (icall E 0 1 ''PyImport_AddModule'' ()) (\<lambda>_.
     bnd (icall E 0 1 ''PyImport_AddModule'' ()) (\<lambda>_.
     bnd (icall E 0 1 ''PyObject_SetAttrString'' ()) (\<lambda>_.
     upd (\<lambda>s. s\<lparr>base := (base s)\<lparr>mdict := (mdict (base s))(''__builtins__'' := Some (PyOther 0))\<rparr>\<rparr>))))))))))))))"

text \<open>\<open>main\<close> is \<open>__pyx_module_is_main_HybridLock\<close>, 0 in an imported module.\<close>

definition exec_constants :: "'w env \<Rightarrow> bool \<Rightarrow> nat \<Rightarrow> ('w, unit) iprog" where
  "exec_constants E main m =
    sq (neg_err 1 (init_globals E))
    (sq (whn main (bnd (glob ''n_s_main'') (\<lambda>v. bnd (gname ''n_s_name'') (\<lambda>n.
       bnd (icall E 0 1 ''PyObject_SetAttr'' ()) (\<lambda>_.
       upd (\<lambda>s. s\<lparr>base := (base s)\<lparr>mdict := (mdict (base s))(n := Some v)\<rparr>\<rparr>))))))
    (bnd (icall E 0 1 ''PyImport_GetModuleDict'' ()) (\<lambda>_.
     bnd (rd (\<lambda>s. sysmods s ''HybridLock'')) (\<lambda>x.
     sq (whn (x = None) (bnd (icall E 0 1 ''PyDict_SetItemString'' ()) (\<lambda>_.
       upd (\<lambda>s. s\<lparr>sysmods := (sysmods s)(''HybridLock'' := Some m)\<rparr>))))
    (sq (neg_err 1 (init_builtins E))
    (neg_err 1 (init_constants E)))))))"

definition exec_int :: "'w env \<Rightarrow> int \<Rightarrow> string \<Rightarrow> string \<Rightarrow> ('w, unit) iprog" where
  "exec_int E l k i = bnd (glob i) (\<lambda>v. set_module_global E l k v)"

definition exec_body :: "'w env \<Rightarrow> ('w, unit) iprog" where
  "exec_body E =
    sq (bnd (glob ''n_u_hi'') (\<lambda>v. set_module_global E 16 ''n_s_STUFF'' v))
    (sq (exec_class E 18 ''n_s_SemaphoreExistsException'')
    (sq (exec_class E 21 ''n_s_NoSuchSemaphoreException'')
    (sq (exec_class E 24 ''n_s_SemaphoreDestroyedException'')
    (sq (exec_int E 28 ''n_s_CONNECT_OR_CREATE'' ''int_0'')
    (sq (exec_int E 29 ''n_s_CONNECT_TO_EXISTING'' ''int_1'')
    (sq (exec_int E 30 ''n_s_CREATE_NEW_OVERWRITE'' ''int_2'')
    (sq (exec_int E 31 ''n_s_CREATE_NEW_EXCLUSIVE'' ''int_3'')
    (sq (upd (\<lambda>s. s\<lparr>base := (base s)\<lparr>v_LOCKED := 0\<rparr>\<rparr>))
    (sq (upd (\<lambda>s. s\<lparr>base := (base s)\<lparr>v_UNLOCKED := 1\<rparr>\<rparr>))
    (sq (upd (\<lambda>s. s\<lparr>base := (base s)\<lparr>v_DESTROYED := 0x7F\<rparr>\<rparr>))
    (sq (upd (\<lambda>s. s\<lparr>base := (base s)\<lparr>v_k := scast (v_UNLOCKED (base s))\<rparr>\<rparr>))
    (bnd (icall E 0 1 ''PyDict_NewPresized'' (PyOther 1)) (\<lambda>d.
     set_module_global E 1 ''n_s_test'' d)))))))))))))"

text \<open>The error exit: the module is dropped.\<close>

definition exec_fail :: "'w env \<Rightarrow> nat \<Rightarrow> int \<Rightarrow> ('w, unit) iprog" where
  "exec_fail E f l =
    bnd (rd py_m) (\<lambda>pm. if pm \<noteq> None then
      bnd (rd py_d) (\<lambda>d.
      sq (whn d (lft (pyx_AddTraceback E ''init HybridLock'' l (pyx_f f))))
      (upd (\<lambda>s. s\<lparr>py_m := None\<rparr>)))
    else bnd (lft pyerr_occurred) (\<lambda>b. whn (\<not> b) (lft (set_err ImportErrorT (PyStr ''init HybridLock'')))))"

text \<open>The seven phases of the global type and function initialisation; the module has
  nothing to export or to import, so only the one of the types has a body.\<close>

definition modinit_global_init_code :: "('w, c_int) iprog" where
  "modinit_global_init_code = ret 0"

definition modinit_variable_export_code :: "('w, c_int) iprog" where
  "modinit_variable_export_code = ret 0"

definition modinit_function_export_code :: "('w, c_int) iprog" where
  "modinit_function_export_code = ret 0"

definition modinit_type_import_code :: "('w, c_int) iprog" where
  "modinit_type_import_code = ret 0"

definition modinit_variable_import_code :: "('w, c_int) iprog" where
  "modinit_variable_import_code = ret 0"

definition modinit_function_import_code :: "('w, c_int) iprog" where
  "modinit_function_import_code = ret 0"

definition exec_modinit :: "'w env \<Rightarrow> (string \<Rightarrow> bool) \<Rightarrow> ('w, unit) iprog" where
  "exec_modinit E OA =
    sq modinit_global_init_code
    (sq modinit_variable_export_code
    (sq modinit_function_export_code
    (sq (neg_err 1 (type_init E OA))
    (sq modinit_type_import_code
    (sq modinit_variable_import_code
    (bnd modinit_function_import_code (\<lambda>_. ret ())))))))"

lemma exec_modinit_type: "exec_modinit E OA = neg_err 1 (type_init E OA)"
proof -
  have "sq (ret a) m = m" "bnd (neg_err 1 (type_init E OA)) (\<lambda>_. ret ()) = neg_err 1 (type_init E OA)" for a :: c_int and m :: "('a, unit) iprog"
    by (rule ext, simp add: run_defs split: out.split)+
  then show ?thesis
    by (simp add: exec_modinit_def modinit_global_init_code_def modinit_variable_export_code_def modinit_function_export_code_def
        modinit_type_import_code_def modinit_variable_import_code_def modinit_function_import_code_def sq_def)
qed

definition pymod_exec :: "'w env \<Rightarrow> (string \<Rightarrow> bool) \<Rightarrow> string \<Rightarrow> string \<Rightarrow> bool \<Rightarrow> nat \<Rightarrow> ('w, c_int) iprog" where
  "pymod_exec E OA ct rt main m =
    bnd (rd py_m) (\<lambda>pm. case pm of
      Some x \<Rightarrow> if x = m then ret 0
        else sq (lft (set_err RuntimeErrorT (PyStr (''Module '' @ [CHR 0x27] @ ''HybridLock'' @ [CHR 0x27] @ '' has already been imported. Re-initialisation is not supported.'')))) (ret (- 1))
    | None \<Rightarrow>
        sq (at_label
          (sq (exec_setup E ct rt m)
          (sq (exec_constants E main m)
          (sq (exec_modinit E OA)
          (exec_body E))))
          (exec_fail E))
        (bnd (rd py_m) (\<lambda>pm. ret (if pm \<noteq> None then 0 else - 1))))"

end
