(* ===== verification/ModErr.thy ===== *)
theory ModErr
  imports ModInit
begin

text \<open>
  The error protocol of the initialisation: every step either succeeds with no
  exception pending or takes its error exit with one, and \<open>__pyx_m\<close> is the
  module exactly when \<open>__pyx_pymod_exec\<close> returns 0.
\<close>

section \<open>The judgement\<close>

definition iJ :: "('w ist \<Rightarrow> bool) \<Rightarrow> ('a \<Rightarrow> 'w ist \<Rightarrow> bool) \<Rightarrow> ('w ist \<Rightarrow> bool) \<Rightarrow> ('w, 'a) iprog \<Rightarrow> bool" where
  "iJ P Q R m = (\<forall>s. P s \<longrightarrow> wp m (\<lambda>a t. Q a t) (\<lambda>p l t. R t) (\<lambda>u. u \<noteq> NoGil) s)"

text \<open>\<open>__pyx_m\<close> is \<open>pm\<close>, and no exception, one exception, is pending.\<close>

definition iok :: "nat option \<Rightarrow> 'w ist \<Rightarrow> bool" where
  "iok pm s = (pyok (base s) \<and> py_m s = pm)"

definition iex :: "nat option \<Rightarrow> 'w ist \<Rightarrow> bool" where
  "iex pm s = (pyex (base s) \<and> py_m s = pm)"

definition ires :: "nat option \<Rightarrow> c_int \<Rightarrow> 'w ist \<Rightarrow> bool" where
  "ires pm r s = (r = 0 \<and> iok pm s \<or> r = - 1 \<and> iex pm s)"

definition iopt :: "nat option \<Rightarrow> 'a option \<Rightarrow> 'w ist \<Rightarrow> bool" where
  "iopt pm r = (if r = None then iex pm else iok pm)"

lemma iJI: "(\<And>s. P s \<Longrightarrow> wp m (\<lambda>a t. Q a t) (\<lambda>p l t. R t) (\<lambda>u. u \<noteq> NoGil) s) \<Longrightarrow> iJ P Q R m"
  by (simp add: iJ_def)

lemma iJD: "iJ P Q R m \<Longrightarrow> P s \<Longrightarrow> wp m (\<lambda>a t. Q a t) (\<lambda>p l t. R t) (\<lambda>u. u \<noteq> NoGil) s"
  by (simp add: iJ_def)

lemma iJ_bnd: "iJ P Q' R m \<Longrightarrow> (\<And>a. iJ (Q' a) Q R (f a)) \<Longrightarrow> iJ P Q R (bnd m f)"
  by (rule iJI) (fastforce simp: wp_bnd dest!: iJD elim!: wp_mono)

lemma iJ_sq: "iJ P Q' R m \<Longrightarrow> (\<And>a. iJ (Q' a) Q R n) \<Longrightarrow> iJ P Q R (sq m n)"
  unfolding sq_def by (rule iJ_bnd)

lemma iJ_weaken: "iJ P Q R m \<Longrightarrow> (\<And>s. P' s \<Longrightarrow> P s) \<Longrightarrow> (\<And>a t. Q a t \<Longrightarrow> Q' a t) \<Longrightarrow> (\<And>t. R t \<Longrightarrow> R' t) \<Longrightarrow> iJ P' Q' R' m"
  by (rule iJI) (fastforce dest!: iJD elim!: wp_mono)

lemma iJ_ret: "(\<And>s. P s \<Longrightarrow> Q a s) \<Longrightarrow> iJ P Q R (ret a)"
  by (rule iJI) (simp add: wp_ret)

lemma iJ_err: "iJ R Q R (pyx_err p l)"
  by (rule iJI) (simp add: wp_pyx_err)

lemma iJ_stuck: "iJ P Q R (stuck Undefined)"
  by (rule iJI) (simp add: wp_stuck)

lemma iJ_rd: "iJ P (\<lambda>v s. P s \<and> v = g s) R (rd g)"
  by (rule iJI) (simp add: wp_rd)

lemma iJ_peek: "iJ P (\<lambda>_. P) R (rd g)"
  by (rule iJI) (simp add: wp_rd)

lemma iJ_upd: "(\<And>s. P s \<Longrightarrow> Q () (g s)) \<Longrightarrow> iJ P Q R (upd g)"
  by (rule iJI) (simp add: wp_upd)

lemma iJ_if: "(b \<Longrightarrow> iJ P Q R m) \<Longrightarrow> (\<not> b \<Longrightarrow> iJ P Q R n) \<Longrightarrow> iJ P Q R (if b then m else n)"
  by simp

lemma iJ_whn: "(b \<Longrightarrow> iJ P (\<lambda>_. P) R m) \<Longrightarrow> iJ P (\<lambda>_. P) R (whn b m)"
  by (simp add: whn_def iJ_ret)

lemma iJ_label: "iJ P Q R' m \<Longrightarrow> (\<And>p l. iJ R' Q R (h p l)) \<Longrightarrow> iJ P Q R (at_label m h)"
  by (rule iJI) (fastforce simp: wp_at_label dest!: iJD elim!: wp_mono)

lemma iJ_opt: "iJ (iex pm) Q R m \<Longrightarrow> (\<And>v. iJ (iok pm) Q R (f v)) \<Longrightarrow>
    iJ (iopt pm x) Q R (case x of None \<Rightarrow> m | Some v \<Rightarrow> f v)"
  by (simp add: iopt_def split: option.splits)

lemma iJ_ret_opt: "iJ (iex pm) (iopt pm) R (ret None)" "iJ (iok pm) (iopt pm) R (ret (Some v))"
  by (simp_all add: iJ_ret iopt_def)

lemma iJ_res: "iJ (iok pm) (ires pm) R (ret 0)" "iJ (iex pm) (ires pm) R (ret (- 1))"
  by (simp_all add: iJ_ret ires_def)

lemma iJ_lft:
  assumes "anyf.J P Q R (m :: ('w, 'a) cprog)"
  shows "iJ (\<lambda>s. P (base s) \<and> py_m s = pm) (\<lambda>a s. Q a (base s) \<and> py_m s = pm) (\<lambda>s. R (base s) \<and> py_m s = pm) (lft m)"
proof (rule iJI)
  fix s :: "'w ist" assume "P (base s) \<and> py_m s = pm"
  then show "wp (lft m) (\<lambda>a t. Q a (base t) \<and> py_m t = pm) (\<lambda>p l t. R (base t) \<and> py_m t = pm) (\<lambda>u. u \<noteq> NoGil) s"
    using anyf.JD [OF assms, of "base s"] by (simp add: wp_def lft_def split: out.splits)
qed

lemma iJ_lft_opt:
  assumes "anyf.J pyok optq (\<lambda>_. False) m"
  shows "iJ (iok pm) (iopt pm) R (lft m)"
  by (rule iJ_weaken [OF iJ_lft [OF assms, of pm]]) (auto simp: iok_def iopt_def optq_def iex_def split: if_splits)

lemma iJ_capi: "iJ (iok pm) (iopt pm) R (lft (capi E f v))"
  by (rule iJ_lft_opt) (rule anyf.J_capi(1))

lemma iJ_set_err: "iJ (iok pm) (\<lambda>_. iex pm) R (lft (set_err c v))"
  by (rule iJ_weaken [OF iJ_lft [OF anyf.J_set_err(1) [where R = "\<lambda>_. False"], of pm]]) (simp_all add: iok_def iex_def)

lemma iJ_clear: "iJ (iex pm) (\<lambda>_. iok pm) R err_clear" "iJ (iok pm) (\<lambda>_. iok pm) R err_clear"
  by (auto intro!: iJI simp: err_clear_def lft_def err_restore_def wp_def sq_def bnd_def upd_def need_gil_def
      iok_def iex_def state_defs)

lemma iJ_occurred: "iJ (iok pm) (\<lambda>b s. \<not> b \<and> iok pm s) R (lft pyerr_occurred)"
  "iJ (iex pm) (\<lambda>b s. b \<and> iex pm s) R (lft pyerr_occurred)"
  by (auto intro!: iJI simp: lft_def pyerr_occurred_def wp_def sq_def bnd_def rd_def need_gil_def iok_def iex_def state_defs)

lemma iJ_glob: "iJ P (\<lambda>_. P) R (glob k)" "iJ P (\<lambda>_. P) R (gname k)"
proof -
  show g: "iJ P (\<lambda>_. P) R (glob k)" for P R k unfolding glob_def
    by (rule iJ_bnd [OF iJ_peek]) (auto intro: iJ_ret iJ_stuck split: option.splits)
  show "iJ P (\<lambda>_. P) R (gname k)" unfolding gname_def
    by (rule iJ_bnd [OF g]) (auto intro: iJ_ret iJ_stuck split: pyobj.splits)
qed

lemma iJ_set_glob: "iJ (iok pm) (\<lambda>_. iok pm) R (set_glob k v)"
  unfolding set_glob_def by (rule iJ_upd) (simp add: iok_def)

lemma iJ_icall: "iJ (iok pm) (\<lambda>_. iok pm) (iex pm) (icall E f l fn v)"
  unfolding icall_def by (rule iJ_bnd [OF iJ_capi], rule iJ_opt, rule iJ_err, rule iJ_ret)

lemma iJ_neg_err:
  assumes "iJ (iok pm) (ires pm) (iex pm) m"
  shows "iJ (iok pm) (\<lambda>_. iok pm) (iex pm) (neg_err l m)"
  unfolding neg_err_def
proof (rule iJ_bnd [OF assms])
  show "iJ (ires pm r) (\<lambda>_. iok pm) (iex pm) (whn (sint r < 0) (pyx_err 0 l))" for r
    by (rule iJI) (auto simp: wp_def whn_def ret_def pyx_err_def ires_def)
qed

lemma iJ_orbad: "iJ (iok pm) (iopt pm) (iex pm) m \<Longrightarrow> iJ (iok pm) (\<lambda>_. iok pm) (iex pm) (orbad m)"
  "iJ (iok pm) (iopt pm) (iex pm) m \<Longrightarrow> iJ (iok pm) (\<lambda>_. iok pm) (iex pm) (orerr l m)"
  unfolding orbad_def orerr_def by (erule iJ_bnd, rule iJ_opt, rule iJ_err, rule iJ_ret, simp)+

lemma iJ_res_label: "iJ (iok pm) (ires pm) (iex pm) m \<Longrightarrow> iJ (iok pm) (ires pm) R (at_label m (\<lambda>_ _. ret (- 1)))"
  by (erule iJ_label) (rule iJ_res)

section \<open>Constants\<close>

lemma iJ_init_strings: "iJ (iok pm) (ires pm) R (init_strings E ts)"
proof (induction ts)
  case (Cons t ts)
  have n: "iJ (iex pm) (ires pm) R (sq (upd (\<lambda>s. s\<lparr>cg := (cg s)(se_name t := None)\<rparr>)) (ret (- 1)))"
    by (rule iJ_sq [OF iJ_upd [where Q = "\<lambda>_. iex pm"]], simp add: iex_def, rule iJ_res)
  show ?case
    by simp (rule iJ_bnd [OF iJ_capi], rule iJ_opt, rule n, rule iJ_sq [OF iJ_set_glob], rule iJ_bnd [OF iJ_capi],
      rule iJ_opt, rule iJ_res, rule Cons)
qed (simp only: init_strings.simps iJ_res)

lemma iJ_init_globals: "iJ (iok pm) (ires pm) R (init_globals E)"
  unfolding init_globals_def init_int_def
  by (rule iJ_res_label) (rule iJ_sq [OF iJ_neg_err [OF iJ_init_strings]]
      iJ_sq [OF iJ_bnd [OF iJ_icall iJ_set_glob]] iJ_res)+

lemma iJ_init_builtin: "iJ (iok pm) (\<lambda>_. iok pm) (iex pm) (init_builtin E f l k nm)"
proof -
  have "iJ (iok pm) (\<lambda>_. iok pm) (iex pm) (bnd (lft (pyx_GetBuiltinName E x)) (\<lambda>r. case r of
      None \<Rightarrow> pyx_err f l | Some v \<Rightarrow> set_glob k v))" for x
    by (rule iJ_bnd [OF iJ_lft_opt [OF anyf.J_GetBuiltinName]], rule iJ_opt, rule iJ_err, rule iJ_set_glob)
  then show ?thesis unfolding init_builtin_def
    by (intro iJ_bnd [OF iJ_glob(1)]) (auto intro: iJ_stuck split: pyobj.splits)
qed

lemma iJ_init_builtins: "iJ (iok pm) (ires pm) R (init_builtins E)"
  unfolding init_builtins_def
  by (rule iJ_res_label) (rule iJ_sq [OF iJ_init_builtin] iJ_res)+

lemma iJ_init_tuples: "iJ (iok pm) (\<lambda>_. iok pm) (iex pm) (init_tuples E ts)"
proof (induction ts)
  case (Cons t ts)
  show ?case
    by (cases t) (simp, rule iJ_bnd [OF iJ_glob(1)], rule iJ_bnd [OF iJ_icall], rule iJ_sq [OF iJ_set_glob], rule Cons)
qed (simp only: init_tuples.simps iJ_ret)

lemma iJ_init_constants: "iJ (iok pm) (ires pm) R (init_constants E)"
  unfolding init_constants_def by (rule iJ_res_label) (rule iJ_sq [OF iJ_init_tuples] iJ_res)+

section \<open>The type\<close>

text \<open>An exception may be pending or not.\<close>

definition iany :: "nat option \<Rightarrow> 'w ist \<Rightarrow> bool" where
  "iany pm s = (iok pm s \<or> iex pm s)"

lemma iJ_any: "iJ (iok pm) Q R m \<Longrightarrow> iJ (iex pm) Q R m \<Longrightarrow> iJ (iany pm) Q R m"
  by (auto simp: iJ_def iany_def)

lemma iJ_lookup: "iJ P (\<lambda>_. P) R (obj_lookup OA k)" "iJ P (\<lambda>_. P) R (ty_lookup OA k)"
proof -
  show "iJ P (\<lambda>_. P) R (obj_lookup OA k)" unfolding obj_lookup_def
    by (rule iJ_bnd [OF iJ_glob(2)]) (rule iJ_ret)
  show "iJ P (\<lambda>_. P) R (ty_lookup OA k)" unfolding ty_lookup_def
    by (rule iJ_bnd [OF iJ_glob(2)], rule iJ_bnd [OF iJ_peek], rule iJ_ret)
qed

lemma iJ_attr_err: "iJ (iok pm) (iopt pm) R (sq (lft (set_err c v)) (ret None))"
  by (rule iJ_sq [OF iJ_set_err]) (rule iJ_ret_opt)

lemma iJ_ty_getattr: "iJ (iok pm) (iopt pm) R (ty_getattr E OA k)"
  unfolding ty_getattr_def
proof (rule iJ_bnd [OF iJ_capi], rule iJ_opt)
  show "iJ (iok pm) (iopt pm) R (bnd (ty_lookup OA k) (\<lambda>v. case v of Some a \<Rightarrow> ret (Some a)
      | None \<Rightarrow> bnd (gname k) (\<lambda>n. sq (lft (set_err AttributeErrorT (PyStr n))) (ret None))))"
    by (rule iJ_bnd [OF iJ_lookup(2)])
      (auto intro: iJ_ret_opt iJ_bnd [OF iJ_glob(2)] iJ_attr_err split: option.split)
qed (rule iJ_ret_opt)

lemma iJ_ClearAttributeError: "iJ (iex pm) (\<lambda>_. iany pm) R GetAttrStr_ClearAttributeError"
proof -
  have "iJ (iex pm) (\<lambda>_. iany pm) R err_clear"
    by (rule iJ_weaken [OF iJ_clear(1) [of pm]]) (auto simp: iany_def)
  then show ?thesis unfolding GetAttrStr_ClearAttributeError_def
    by (intro iJ_bnd [OF iJ_peek]) (auto intro: iJ_ret simp: whn_def iany_def)
qed

lemma iJ_getattr_noerror:
  "iJ (iok pm) (\<lambda>r. if r = None then iany pm else iok pm) R (ty_getattr_noerror E OA k)"
proof -
  have "iJ (iopt pm r) (\<lambda>_. if r = None then iany pm else iok pm) R
      (whn (r = None) GetAttrStr_ClearAttributeError)" for r :: "tyattr option"
    using iJ_ClearAttributeError by (cases r) (auto simp: whn_def iopt_def intro: iJ_ret)
  then show ?thesis unfolding ty_getattr_noerror_def
    by (intro iJ_bnd [OF iJ_ty_getattr] iJ_sq) (auto intro: iJ_ret)
qed

lemma iJ_is_named: "iJ (iok pm) (\<lambda>_. iok pm) R (setup_reduce_is_named E meth k)"
proof -
  have c: "iJ (iopt pm b) (\<lambda>_. iok pm) R (case b of Some x \<Rightarrow> ret x | None \<Rightarrow> sq err_clear (ret False))" for b
    by (cases b) (auto simp: iopt_def intro: iJ_ret iJ_sq [OF iJ_clear(1)])
  have n: "iJ (iopt pm r) (iopt pm) R (case (r, meth) of
        (None, _) \<Rightarrow> ret None
      | (Some _, TMethod m) \<Rightarrow> lft (capi E ''PyObject_RichCompareBool'' (m = n))
      | (Some _, TObject m) \<Rightarrow> lft (capi E ''PyObject_RichCompareBool'' (m = n))
      | (Some _, TCapsule) \<Rightarrow> sq (lft (set_err AttributeErrorT (PyStr ''__name__''))) (ret None))"
    for r :: "unit option" and n
    using iJ_capi iJ_attr_err by (cases r; cases meth) (auto simp: iopt_def intro: iJ_ret)
  show ?thesis unfolding setup_reduce_is_named_def
    by (rule iJ_bnd [OF iJ_glob(2)]) (rule iJ_bnd [OF iJ_bnd [OF iJ_capi n] c])
qed

lemma iJ_upd_i: "(\<And>s. py_m (g s) = py_m s) \<Longrightarrow> (\<And>s. pyok (base s) \<Longrightarrow> pyok (base (g s))) \<Longrightarrow>
    iJ (iok pm) (\<lambda>_. iok pm) R (upd g)"
  by (rule iJ_upd) (simp add: iok_def)

lemma iJ_icall_any: "iJ (iok pm) (\<lambda>_. iok pm) (iany pm) (icall E f l fn v)"
  by (rule iJ_weaken [OF iJ_icall [of pm]]) (auto simp: iany_def)

lemma iJ_move: "iJ (iok pm) (\<lambda>_. iok pm) (iany pm) (setup_reduce_move E OA k kc must)"
proof -
  have none: "iJ (iany pm) (\<lambda>_. iok pm) (iany pm) (bnd (lft pyerr_occurred) (\<lambda>b. whn (must \<or> b) (pyx_err 0 0)))"
  proof (rule iJ_any)
    show "iJ (iok pm) (\<lambda>_. iok pm) (iany pm) (bnd (lft pyerr_occurred) (\<lambda>b. whn (must \<or> b) (pyx_err 0 0)))"
      by (rule iJ_bnd [OF iJ_occurred(1)]) (auto intro!: iJI simp: wp_def whn_def pyx_err_def ret_def iany_def)
    show "iJ (iex pm) (\<lambda>_. iok pm) (iany pm) (bnd (lft pyerr_occurred) (\<lambda>b. whn (must \<or> b) (pyx_err 0 0)))"
      by (rule iJ_bnd [OF iJ_occurred(2)]) (auto intro!: iJI simp: wp_def whn_def pyx_err_def ret_def iany_def)
  qed
  show ?thesis unfolding setup_reduce_move_def
    by (rule iJ_bnd [OF iJ_getattr_noerror], split option.split)
      (auto intro!: none iJ_bnd [OF iJ_icall_any] iJ_bnd [OF iJ_glob(2)] iJ_sq [OF iJ_upd_i] iJ_upd_i)
qed

lemma iJ_setstate: "iJ (iok pm) (\<lambda>_. iok pm) (iany pm) (setup_reduce_setstate E OA)"
proof -
  have w: "iJ (iopt pm st) (\<lambda>_. iok pm) (iany pm) (whn (st = None) err_clear)" for st :: "tyattr option"
    using iJ_clear(1) by (cases st) (auto simp: iopt_def whn_def intro: iJ_ret)
  have n: "iJ (iok pm) (\<lambda>_. iok pm) (iany pm)
      (case st of None \<Rightarrow> ret True | Some a \<Rightarrow> setup_reduce_is_named E a ''n_s_setstate_cython'')" for st
    by (cases st) (auto intro: iJ_ret iJ_is_named)
  show ?thesis unfolding setup_reduce_setstate_def
    by (rule iJ_bnd [OF iJ_ty_getattr], rule iJ_sq [OF w], rule iJ_bnd [OF n], rule iJ_whn, rule iJ_move)
qed

lemma iJ_setup_reduce_bad: "iJ (iany pm) (ires pm) R setup_reduce_bad"
proof -
  let ?f = "\<lambda>b. sq (whn (\<not> b) (lft (set_err RuntimeErrorT (PyStr ''Unable to initialize pickling for HybridLock.HybridLock''))))
    (ret (- 1))"
  have f: "iJ (\<lambda>s. \<not> b \<and> iok pm s) (ires pm) R (?f b)" for b
    by (cases b) (simp_all add: iJ_def iJ_sq [OF iJ_set_err iJ_res(2), unfolded iJ_def] whn_def)
  have t: "iJ (\<lambda>s. b \<and> iex pm s) (ires pm) R (?f b)" for b
    by (cases b) (auto simp: iJ_def whn_def wp_def sq_def ret_def bnd_def ires_def)
  show ?thesis unfolding setup_reduce_bad_def
    by (rule iJ_any) (rule iJ_bnd [OF iJ_occurred(1) f], rule iJ_bnd [OF iJ_occurred(2) t])
qed

lemma iJ_orbad_any:
  "iJ (iok pm) (\<lambda>_. iok pm) (iany pm) (orbad (obj_lookup OA k))"
  "iJ (iok pm) (\<lambda>_. iok pm) (iany pm) (orbad (ty_getattr E OA k))"
proof -
  show "iJ (iok pm) (\<lambda>_. iok pm) (iany pm) (orbad (obj_lookup OA k))" unfolding orbad_def
    by (rule iJ_bnd [OF iJ_lookup(1)], split option.split)
      (auto intro: iJ_ret iJ_weaken [OF iJ_err [where R = "iany pm"]] simp: iany_def)
  show "iJ (iok pm) (\<lambda>_. iok pm) (iany pm) (orbad (ty_getattr E OA k))"
    by (rule iJ_weaken [OF iJ_orbad(1) [OF iJ_ty_getattr [of pm]]]) (auto simp: iany_def)
qed

lemma iJ_setup_reduce: "iJ (iok pm) (ires pm) R (setup_reduce E OA)"
  unfolding setup_reduce_def
proof (rule iJ_label [OF _ iJ_setup_reduce_bad])
  have n: "iJ (iok pm) (\<lambda>_. iok pm) (iany pm)
      (if reduce = object_reduce then ret True else setup_reduce_is_named E reduce ''n_s_reduce_cython'')"
    for reduce object_reduce by (auto intro: iJ_ret iJ_is_named)
  show "iJ (iok pm) (ires pm) (iany pm)
    (bnd (ty_lookup OA ''n_s_getstate'') (\<lambda>gs. if gs \<noteq> None then ret 0 else
     bnd (orbad (obj_lookup OA ''n_s_reduce_ex'')) (\<lambda>object_reduce_ex.
     bnd (orbad (ty_getattr E OA ''n_s_reduce_ex'')) (\<lambda>reduce_ex.
     if reduce_ex \<noteq> object_reduce_ex then ret 0 else
     bnd (orbad (obj_lookup OA ''n_s_reduce'')) (\<lambda>object_reduce.
     bnd (orbad (ty_getattr E OA ''n_s_reduce'')) (\<lambda>reduce.
     bnd (if reduce = object_reduce then ret True else setup_reduce_is_named E reduce ''n_s_reduce_cython'') (\<lambda>b.
     if \<not> b then ret 0 else
     sq (setup_reduce_move E OA ''n_s_reduce'' ''n_s_reduce_cython'' (reduce = object_reduce))
     (sq (setup_reduce_setstate E OA) (ret 0))))))))) "
    by (rule iJ_bnd [OF iJ_lookup(2)] iJ_bnd [OF iJ_orbad_any(1)] iJ_bnd [OF iJ_orbad_any(2)] iJ_if
        iJ_bnd [OF n] iJ_sq [OF iJ_move] iJ_sq [OF iJ_setstate] iJ_res(1))+
qed

lemma iJ_set_vtable: "iJ (iok pm) (ires pm) R (set_vtable E)"
  unfolding set_vtable_def
  by (rule iJ_res_label) (auto intro!: iJ_bnd [OF iJ_icall] iJ_bnd [OF iJ_glob(2)] iJ_sq [OF iJ_upd_i] iJ_res)

lemma iJ_type_init: "iJ (iok pm) (ires pm) R (type_init E OA)"
  unfolding type_init_def
  by (rule iJ_res_label) (auto intro!: iJ_bnd [OF iJ_icall] iJ_bnd [OF iJ_glob(2)] iJ_sq [OF iJ_upd_i] iJ_res(1)
      iJ_sq [OF iJ_neg_err [OF iJ_set_vtable]] iJ_sq [OF iJ_neg_err [OF iJ_setup_reduce]] simp: state_defs)

section \<open>The body\<close>

lemma iJ_CalculateMetaclass: "iJ (iok pm) (iopt pm) R (CalculateMetaclass m ts)"
  unfolding CalculateMetaclass_def by (auto split: option.split intro: iJ_ret_opt iJ_attr_err)

lemma iJ_ns_set: "iJ (iok pm) (\<lambda>_. iok pm) (iex pm) (ns_set E k v ns)"
  unfolding ns_set_def by (rule iJ_bnd [OF iJ_icall], rule iJ_bnd [OF iJ_glob(2)], rule iJ_ret)

lemma iJ_metaclass_prepare: "iJ (iok pm) (iopt pm) R (metaclass_prepare E mc q n d)"
proof -
  let ?prep = "\<lambda>e :: pyerr option. if (case e of Some x \<Rightarrow> api_given_matches (e_type x) (PyCls AttributeErrorT) | None \<Rightarrow> False)
              then sq err_clear (icall E 0 0 ''PyDict_New'' Map.empty) else pyx_err 0 0"
  have e: "iJ (iex pm) (\<lambda>_. iok pm) (iex pm) (?prep e)" for e
    by (auto intro: iJ_sq [OF iJ_clear(1) iJ_icall] iJ_err)
  have b: "iJ (iok pm) (\<lambda>_. iok pm) (iex pm) (case mc of
        None \<Rightarrow> icall E 0 0 ''PyDict_New'' Map.empty
      | Some _ \<Rightarrow> bnd (lft (capi E ''PyObject_GetAttr'' ())) (\<lambda>prep. case prep of
            Some _ \<Rightarrow> bnd (icall E 0 0 ''PyTuple_Pack'' ()) (\<lambda>_. icall E 0 0 ''PyObject_Call'' Map.empty)
          | None \<Rightarrow> bnd (rd (\<lambda>s. curexc (base s))) ?prep))"
    by (cases mc) (auto intro!: iJ_icall iJ_bnd [OF iJ_capi] iJ_bnd [OF iJ_icall] iJ_bnd [OF iJ_peek e]
        simp: iopt_def split: option.split)
  have d: "iJ (iok pm) (\<lambda>_. iok pm) (iex pm) (case d of None \<Rightarrow> ret ns | Some d \<Rightarrow> ns_set E ''n_s_doc'' d ns)" for ns
    by (cases d) (auto intro: iJ_ret iJ_ns_set)
  show ?thesis unfolding metaclass_prepare_def
    by (rule iJ_label) (rule iJ_bnd [OF b] iJ_bnd [OF iJ_ns_set] iJ_bnd [OF d] iJ_ret_opt)+
qed

lemma iJ_class_create: "iJ (iok pm) (iopt pm) R (class_create E n b)"
  unfolding class_create_def by (rule iJ_bnd [OF iJ_capi], rule iJ_opt, rule iJ_ret_opt, rule iJ_capi)

lemma iJ_set_module_global: "iJ (iok pm) (\<lambda>_. iok pm) (iex pm) (set_module_global E l k v)"
  unfolding set_module_global_def
  by (rule iJ_bnd [OF iJ_glob(2)], rule iJ_bnd [OF iJ_icall], rule iJ_upd_i) (simp_all add: state_defs)

lemma iJ_exec_class: "iJ (iok pm) (\<lambda>_. iok pm) (iex pm) (exec_class E l k)"
  unfolding exec_class_def
  by (rule iJ_bnd [OF iJ_icall] iJ_bnd [OF iJ_orbad(2) [OF iJ_CalculateMetaclass]] iJ_bnd [OF iJ_glob(1)]
      iJ_bnd [OF iJ_orbad(2) [OF iJ_metaclass_prepare]] iJ_bnd [OF iJ_glob(2)]
      iJ_bnd [OF iJ_orbad(2) [OF iJ_class_create]] iJ_set_module_global)+

lemma iJ_exec_body: "iJ (iok pm) (\<lambda>_. iok pm) (iex pm) (exec_body E)"
proof -
  note r = iJ_bnd [OF iJ_glob(1) iJ_set_module_global]
  have i: "iJ (iok pm) (\<lambda>_. iok pm) (iex pm) (exec_int E l k i)" for l k i unfolding exec_int_def by (rule r)
  show ?thesis unfolding exec_body_def
    by (auto intro!: iJ_sq [OF r] iJ_sq [OF iJ_exec_class] iJ_sq [OF i] iJ_sq [OF iJ_upd_i] iJ_bnd [OF iJ_icall]
        iJ_set_module_global simp: state_defs)
qed

section \<open>The module\<close>

lemma iJ_check_binary_version: "iJ (iok pm) (ires pm) R (check_binary_version E ct rt)"
  unfolding check_binary_version_def Let_def
  by (rule iJ_if, rule iJ_bnd [OF iJ_capi]) (auto simp: iopt_def ires_def intro!: iJ_ret)

definition iexa :: "'w ist \<Rightarrow> bool" where
  "iexa s = pyex (base s)"

lemma iJ_exa: "iJ (iok pm) Q (iex pm) m \<Longrightarrow> iJ (iok pm) Q iexa m"
  by (erule iJ_weaken) (simp_all add: iexa_def iex_def)

lemma iJ_exec_setup: "iJ (iok None) (\<lambda>_. iok (Some m)) iexa (exec_setup E ct rt m)"
proof -
  have m: "iJ (iok None) (\<lambda>_. iok (Some m)) iexa (upd (\<lambda>s. s\<lparr>py_m := Some m\<rparr>))"
    by (rule iJ_upd) (simp add: iok_def)
  show ?thesis unfolding exec_setup_def
    by (auto intro!: iJ_sq [OF iJ_exa [OF iJ_neg_err [OF iJ_check_binary_version]]] iJ_bnd [OF iJ_exa [OF iJ_icall]]
        iJ_sq [OF iJ_set_glob] iJ_sq [OF m] iJ_sq [OF iJ_upd_i] iJ_upd_i simp: state_defs)
qed

lemma iJ_exec_constants: "iJ (iok pm) (\<lambda>_. iok pm) (iex pm) (exec_constants E main m)"
  unfolding exec_constants_def
  by (auto intro!: iJ_sq [OF iJ_neg_err [OF iJ_init_globals]] iJ_sq [OF iJ_whn] iJ_bnd [OF iJ_glob(1)] iJ_bnd [OF iJ_glob(2)]
      iJ_bnd [OF iJ_icall] iJ_upd_i iJ_bnd [OF iJ_peek] iJ_sq [OF iJ_neg_err [OF iJ_init_builtins]]
      iJ_neg_err [OF iJ_init_constants] simp: state_defs)

lemma iJ_exec_fail: "iJ iexa (\<lambda>_. iex None) R (exec_fail E f l)"
proof -
  have t: "iJ (iex pm) (\<lambda>_. iex pm) R (whn d (lft (pyx_AddTraceback E fn l fi)))" for pm d fn fi
    by (rule iJ_whn) (rule iJ_weaken [OF iJ_lft [OF anyf.J_AddTraceback [where R = "\<lambda>_. False"], of pm]], auto simp: iex_def)
  have u: "iJ (iex pm) (\<lambda>_. iex None) R (upd (\<lambda>s. s\<lparr>py_m := None\<rparr>))" for pm
    by (rule iJ_upd) (simp add: iex_def)
  have o': "iJ (\<lambda>s. b \<and> iex None s) (\<lambda>_. iex None) R (whn (\<not> b) x)" for b x
    by (auto simp: iJ_def whn_def wp_def ret_def)
  let ?some = "bnd (rd py_d) (\<lambda>d. sq (whn d (lft (pyx_AddTraceback E ''init HybridLock'' l (pyx_f f)))) (upd (\<lambda>s. s\<lparr>py_m := None\<rparr>)))"
  let ?none = "bnd (lft pyerr_occurred) (\<lambda>b. whn (\<not> b) (lft (set_err ImportErrorT (PyStr ''init HybridLock''))))"
  have "iJ (\<lambda>s. iexa s \<and> v = py_m s) (\<lambda>_. iex None) R (if v \<noteq> None then ?some else ?none)" for v
  proof (cases "v = None")
    case True
    then show ?thesis
      by simp (rule iJ_weaken [OF iJ_bnd [OF iJ_occurred(2) [of None] o']], simp_all add: iexa_def iex_def)
  next
    case False
    then show ?thesis
      by simp (rule iJ_weaken [OF iJ_bnd [OF iJ_peek iJ_sq [OF t [of v] u]]], simp_all add: iexa_def iex_def)
  qed
  then show ?thesis unfolding exec_fail_def by (rule iJ_bnd [OF iJ_rd])
qed

theorem iJ_pymod_exec:
  "iJ (iok None) (\<lambda>r s. r = 0 \<and> iok (Some m) s \<or> r = - 1 \<and> iex None s) R (pymod_exec E OA ct rt main m)"
proof -
  have b: "iJ (iok None) (\<lambda>_. iok (Some m)) iexa
          (sq (exec_setup E ct rt m)
          (sq (exec_constants E main m)
          (sq (neg_err 1 (type_init E OA))
          (exec_body E))))"
    by (rule iJ_sq [OF iJ_exec_setup] iJ_sq [OF iJ_exa [OF iJ_exec_constants]]
        iJ_sq [OF iJ_exa [OF iJ_neg_err [OF iJ_type_init]]] iJ_exa [OF iJ_exec_body])+
  have l: "iJ (iok None) (\<lambda>_ s. iok (Some m) s \<or> iex None s) R (at_label
          (sq (exec_setup E ct rt m)
          (sq (exec_constants E main m)
          (sq (neg_err 1 (type_init E OA))
          (exec_body E))))
          (exec_fail E))"
    by (rule iJ_label [OF iJ_weaken [OF b, where R' = iexa]], simp_all) (rule iJ_weaken [OF iJ_exec_fail], auto)
  have f: "iJ (\<lambda>s. iok (Some m) s \<or> iex None s) (\<lambda>r s. r = 0 \<and> iok (Some m) s \<or> r = - 1 \<and> iex None s) R
      (bnd (rd py_m) (\<lambda>pm. ret (if pm \<noteq> None then 0 else - 1)))"
    by (rule iJ_bnd [OF iJ_rd], rule iJ_ret) (auto simp: iok_def iex_def)
  show ?thesis
    apply (rule iJI)
    using iJD [OF iJ_sq [OF l f]]
    by (simp add: pymod_exec_def exec_modinit_type wp_bnd wp_rd iok_def)
qed

end
