(* ===== verification/ModStr.thy ===== *)
theory ModStr
  imports ModErr
begin

text \<open>
  The string table as the later phases see it: every C global of the table
  holds its string, and stays so while numbers, tuples and built-ins are stored.
\<close>

section \<open>The string table\<close>

definition strs :: "(string \<Rightarrow> pyobj option) \<Rightarrow> bool" where
  "strs g = (\<forall>t \<in> set string_tab. g (se_name t) = Some (str_object t))"

primrec put_strs :: "strent list \<Rightarrow> (string \<Rightarrow> pyobj option) \<Rightarrow> string \<Rightarrow> pyobj option" where
  "put_strs [] g = g"
| "put_strs (t # ts) g = put_strs ts (g(se_name t := Some (str_object t)))"

lemma put_strs_other: "k \<notin> se_name ` set ts \<Longrightarrow> put_strs ts g k = g k"
  by (induction ts arbitrary: g) auto

lemma put_strs_in: "distinct (map se_name ts) \<Longrightarrow> t \<in> set ts \<Longrightarrow> put_strs ts g (se_name t) = Some (str_object t)"
  by (induction ts arbitrary: g) (auto simp: put_strs_other)

lemma string_tab_distinct: "distinct (map se_name string_tab)"
  by (simp add: string_tab_def)

lemma strs_put: "strs (put_strs string_tab g)"
  by (simp add: strs_def put_strs_in string_tab_distinct)

lemma strs_upd: "k \<notin> set (map se_name string_tab) \<Longrightarrow> strs (g(k := v)) = strs g"
  by (auto simp: strs_def)

lemma strs_get:
  assumes "strs g"
  shows "g ''n_s_SystemError'' = Some (PyStr ''SystemError'')" "g ''n_s_TypeError'' = Some (PyStr ''TypeError'')"
    "g ''n_s_HybridLock'' = Some (PyStr ''HybridLock'')" "g ''n_s_STUFF'' = Some (PyStr ''STUFF'')"
    "g ''n_u_hi'' = Some (PyStr ''hi'')" "g ''n_s_main'' = Some (PyStr ''__main__'')"
    "g ''n_s_name'' = Some (PyStr ''__name__'')" "g ''n_s_test'' = Some (PyStr ''__test__'')"
    "g ''n_s_module'' = Some (PyStr ''__module__'')" "g ''n_s_qualname'' = Some (PyStr ''__qualname__'')"
    "g ''n_s_pyx_vtable'' = Some (PyStr ''__pyx_vtable__'')"
    "g ''n_s_getstate'' = Some (PyStr ''__getstate__'')" "g ''n_s_reduce'' = Some (PyStr ''__reduce__'')"
    "g ''n_s_reduce_ex'' = Some (PyStr ''__reduce_ex__'')"
    "g ''n_s_reduce_cython'' = Some (PyStr ''__reduce_cython__'')"
    "g ''n_s_setstate'' = Some (PyStr ''__setstate__'')"
    "g ''n_s_setstate_cython'' = Some (PyStr ''__setstate_cython__'')"
    "g ''n_s_SemaphoreExistsException'' = Some (PyStr ''SemaphoreExistsException'')"
    "g ''n_s_NoSuchSemaphoreException'' = Some (PyStr ''NoSuchSemaphoreException'')"
    "g ''n_s_SemaphoreDestroyedException'' = Some (PyStr ''SemaphoreDestroyedException'')"
    "g ''n_s_CONNECT_OR_CREATE'' = Some (PyStr ''CONNECT_OR_CREATE'')"
    "g ''n_s_CONNECT_TO_EXISTING'' = Some (PyStr ''CONNECT_TO_EXISTING'')"
    "g ''n_s_CREATE_NEW_OVERWRITE'' = Some (PyStr ''CREATE_NEW_OVERWRITE'')"
    "g ''n_s_CREATE_NEW_EXCLUSIVE'' = Some (PyStr ''CREATE_NEW_EXCLUSIVE'')"
proof -
  have "\<forall>t \<in> set string_tab. g (se_name t) = Some (str_object t)" using assms by (simp only: strs_def)
  note g = this [unfolded string_tab_def list.set ball_simps str_object_def strent.sel]
  show "g ''n_s_SystemError'' = Some (PyStr ''SystemError'')"
    "g ''n_s_TypeError'' = Some (PyStr ''TypeError'')"
    "g ''n_s_HybridLock'' = Some (PyStr ''HybridLock'')"
    "g ''n_s_STUFF'' = Some (PyStr ''STUFF'')"
    "g ''n_u_hi'' = Some (PyStr ''hi'')"
    "g ''n_s_main'' = Some (PyStr ''__main__'')"
    "g ''n_s_name'' = Some (PyStr ''__name__'')"
    "g ''n_s_test'' = Some (PyStr ''__test__'')"
    "g ''n_s_module'' = Some (PyStr ''__module__'')"
    "g ''n_s_qualname'' = Some (PyStr ''__qualname__'')"
    "g ''n_s_pyx_vtable'' = Some (PyStr ''__pyx_vtable__'')"
    "g ''n_s_getstate'' = Some (PyStr ''__getstate__'')"
    "g ''n_s_reduce'' = Some (PyStr ''__reduce__'')"
    "g ''n_s_reduce_ex'' = Some (PyStr ''__reduce_ex__'')"
    "g ''n_s_reduce_cython'' = Some (PyStr ''__reduce_cython__'')"
    "g ''n_s_setstate'' = Some (PyStr ''__setstate__'')"
    "g ''n_s_setstate_cython'' = Some (PyStr ''__setstate_cython__'')"
    "g ''n_s_SemaphoreExistsException'' = Some (PyStr ''SemaphoreExistsException'')"
    "g ''n_s_NoSuchSemaphoreException'' = Some (PyStr ''NoSuchSemaphoreException'')"
    "g ''n_s_SemaphoreDestroyedException'' = Some (PyStr ''SemaphoreDestroyedException'')"
    "g ''n_s_CONNECT_OR_CREATE'' = Some (PyStr ''CONNECT_OR_CREATE'')"
    "g ''n_s_CONNECT_TO_EXISTING'' = Some (PyStr ''CONNECT_TO_EXISTING'')"
    "g ''n_s_CREATE_NEW_OVERWRITE'' = Some (PyStr ''CREATE_NEW_OVERWRITE'')"
    "g ''n_s_CREATE_NEW_EXCLUSIVE'' = Some (PyStr ''CREATE_NEW_EXCLUSIVE'')"
    by (simp_all only: g if_True if_False simp_thms)
qed

lemma strs_tuples:
  assumes "strs g"
  shows "\<forall>t \<in> set cached_tuples. \<exists>x. g (fst (snd t)) = Some x"
proof -
  have "\<forall>t \<in> set cached_tuples. fst (snd t) \<in> set (map se_name string_tab)"
    by (simp add: string_tab_def cached_tuples_def)
  then show ?thesis using assms by (force simp: strs_def)
qed

definition numbers :: "(string \<Rightarrow> pyobj option) \<Rightarrow> bool" where
  "numbers g = (g ''int_0'' = Some (PyInt 0) \<and> g ''int_1'' = Some (PyInt 1) \<and>
    g ''int_2'' = Some (PyInt 2) \<and> g ''int_3'' = Some (PyInt 3))"

lemma strs_int: "strs (g(''int_0'' := v)) = strs g" "strs (g(''int_1'' := v)) = strs g"
  "strs (g(''int_2'' := v)) = strs g" "strs (g(''int_3'' := v)) = strs g"
  by (rule strs_upd, simp add: string_tab_def)+

lemma tuple_names: "t \<in> set cached_tuples \<Longrightarrow> fst t \<notin> set (map se_name string_tab)"
proof -
  have "\<forall>t \<in> set cached_tuples. fst t \<notin> set (map se_name string_tab)"
    by (simp add: string_tab_def cached_tuples_def)
  then show "t \<in> set cached_tuples \<Longrightarrow> fst t \<notin> set (map se_name string_tab)" by blast
qed

lemma upd_notin: "k \<notin> S \<Longrightarrow> z \<in> S \<Longrightarrow> (g(k := v)) z = g z"
  by auto

lemma numbers_upd: "k \<notin> {''int_0'', ''int_1'', ''int_2'', ''int_3''} \<Longrightarrow> numbers (g(k := v)) = numbers g"
  by (simp only: numbers_def upd_notin insertI1 insertI2)

lemma numbers_tuple: "t \<in> set cached_tuples \<Longrightarrow> numbers (g(fst t := v)) = numbers g"
proof -
  have "\<forall>t \<in> set cached_tuples. fst t \<notin> {''int_0'', ''int_1'', ''int_2'', ''int_3''}"
    by (simp add: cached_tuples_def)
  then show "t \<in> set cached_tuples \<Longrightarrow> numbers (g(fst t := v)) = numbers g" using numbers_upd by blast
qed

lemma strs_builtin: "strs (g(''builtin_SystemError'' := v)) = strs g" "strs (g(''builtin_TypeError'' := v)) = strs g"
  "strs (g(''empty_tuple'' := v)) = strs g" "strs (g(''empty_bytes'' := v)) = strs g"
  "strs (g(''empty_unicode'' := v)) = strs g"
  by (rule strs_upd, simp add: string_tab_def)+

lemma numbers_builtin: "numbers (g(''builtin_SystemError'' := v)) = numbers g"
  "numbers (g(''builtin_TypeError'' := v)) = numbers g"
  by (simp_all add: numbers_def)

end
