(* ===== verification/ModSpec.thy ===== *)
theory ModSpec
  imports ModStr
begin

text \<open>
  What the initialisation does when no call outside HybridLock.c fails: every
  phase runs to its end, and the module it leaves is the one the lock relies
  on.  The locale \<open>quiet_os\<close> is that of the lock's own specification.
\<close>

section \<open>The dictionary of the type\<close>

definition tlook :: "(string \<Rightarrow> bool) \<Rightarrow> (string \<Rightarrow> tyattr option) \<Rightarrow> string \<Rightarrow> tyattr option" where
  "tlook OA T n = (case T n of Some a \<Rightarrow> Some a | None \<Rightarrow> if OA n then Some (TObject n) else None)"

text \<open>The attributes of \<open>object\<close> in every version; \<open>__getstate__\<close> is one of them
  since version 3.11.\<close>

definition object_attrs :: "(string \<Rightarrow> bool) \<Rightarrow> bool" where
  "object_attrs OA = (OA ''__reduce_ex__'' \<and> OA ''__reduce__'' \<and> \<not> OA ''__setstate__'')"

definition type_attrs :: "(string \<Rightarrow> tyattr option) \<Rightarrow> bool" where
  "type_attrs T = (T ''__getstate__'' = None \<and> T ''__reduce_ex__'' = None \<and> T ''__reduce__'' = None \<and> T ''__setstate__'' = None
    \<and> T ''__reduce_cython__'' = Some (TMethod ''__reduce_cython__'')
    \<and> T ''__setstate_cython__'' = Some (TMethod ''__setstate_cython__''))"

definition reduced :: "(string \<Rightarrow> bool) \<Rightarrow> (string \<Rightarrow> tyattr option) \<Rightarrow> string \<Rightarrow> tyattr option" where
  "reduced OA T = (if OA ''__getstate__'' then T
    else T(''__reduce__'' := Some (TMethod ''__reduce_cython__''), ''__reduce_cython__'' := None,
      ''__setstate__'' := Some (TMethod ''__setstate_cython__''), ''__setstate_cython__'' := None))"

lemma type_attrs_methods: "type_attrs ((type_methods E)(''__pyx_vtable__'' := Some TCapsule))"
  by (simp add: type_attrs_def type_methods_def hl_methods_def)

section \<open>The module object\<close>

definition body_dict :: "(string \<Rightarrow> pyobj option) \<Rightarrow> string \<Rightarrow> pyobj option" where
  "body_dict D = D(''STUFF'' := Some (PyStr ''hi''),
    ''SemaphoreExistsException'' := Some (PyCls SemaphoreExists),
    ''NoSuchSemaphoreException'' := Some (PyCls NoSuchSemaphore),
    ''SemaphoreDestroyedException'' := Some (PyCls SemaphoreDestroyed),
    ''CONNECT_OR_CREATE'' := Some (PyInt 0), ''CONNECT_TO_EXISTING'' := Some (PyInt 1),
    ''CREATE_NEW_OVERWRITE'' := Some (PyInt 2), ''CREATE_NEW_EXCLUSIVE'' := Some (PyInt 3),
    ''__test__'' := Some (PyOther 1))"

definition body_state :: "'w cst \<Rightarrow> 'w cst" where
  "body_state c = c\<lparr>v_LOCKED := 0, v_UNLOCKED := 1, v_DESTROYED := 0x7F, v_k := 1, mdict := body_dict (mdict c)\<rparr>"

text \<open>The dictionary before the body: the one of the new module, with
  \<open>__builtins__\<close>, and with \<open>__name__\<close> when the module is the main program.\<close>

definition start_dict :: "bool \<Rightarrow> (string \<Rightarrow> pyobj option) \<Rightarrow> string \<Rightarrow> pyobj option" where
  "start_dict main D = (let D1 = D(''__builtins__'' := Some (PyOther 0))
    in if main then D1(''__name__'' := Some (PyStr ''__main__'')) else D1)"

definition type_dict :: "'w env \<Rightarrow> (string \<Rightarrow> bool) \<Rightarrow> string \<Rightarrow> tyattr option" where
  "type_dict E OA = reduced OA ((type_methods E)(''__pyx_vtable__'' := Some TCapsule))"

text \<open>What the phase of the constants leaves alone.\<close>

definition kept :: "'w ist \<Rightarrow> 'w ist \<Rightarrow> bool" where
  "kept s t = (py_m t = py_m s \<and> py_d t = py_d s \<and> main_id t = main_id s \<and> moddicts t = moddicts s \<and> nmod t = nmod s)"

definition reg_module :: "nat \<Rightarrow> (string \<Rightarrow> nat option) \<Rightarrow> string \<Rightarrow> nat option" where
  "reg_module m S = (if S ''HybridLock'' = None then S(''HybridLock'' := Some m) else S)"

definition initialised :: "'w env \<Rightarrow> (string \<Rightarrow> bool) \<Rightarrow> bool \<Rightarrow> nat \<Rightarrow> 'w ist \<Rightarrow> 'w ist \<Rightarrow> bool" where
  "initialised E OA main m s t = (strs (cg t) \<and> numbers (cg t) \<and> py_m t = Some m \<and> py_d t \<and> ptype t
    \<and> vtable t = hl_vtable \<and> tdict t = type_dict E OA
    \<and> base t = body_state ((base s)\<lparr>mdict := (start_dict main (moddicts s m))(''HybridLock'' := Some (PyCls HybridLockT))\<rparr>)
    \<and> sysmods t = reg_module m (sysmods s)
    \<and> main_id t = main_id s \<and> moddicts t = moddicts s \<and> nmod t = nmod s)"

lemma initialised_std:
  assumes "initialised E OA main m s t" and "moddicts s m ''TimeoutError'' = None"
    and "bdict (base s) ''TimeoutError'' = Some (PyCls TimeoutErrorT)"
  shows "std_module (base t)"
  using assms by (simp add: initialised_def std_module_def body_state_def body_dict_def start_dict_def Let_def)

text \<open>The dictionary \<open>__pyx_pymod_create\<close> gives the module, from the attributes
  \<open>sp\<close> of its spec.\<close>

definition copied :: "(string \<Rightarrow> pyobj option) \<Rightarrow> string \<Rightarrow> string \<Rightarrow> bool \<Rightarrow> (string \<Rightarrow> pyobj option) \<Rightarrow> string \<Rightarrow> pyobj option" where
  "copied sp from_name to_name allow D = (case sp from_name of
      Some v \<Rightarrow> if allow \<or> v \<noteq> PyNone then D(to_name := Some v) else D
    | None \<Rightarrow> D)"

definition spec_dict :: "(string \<Rightarrow> pyobj option) \<Rightarrow> pyobj \<Rightarrow> string \<Rightarrow> pyobj option" where
  "spec_dict sp nm = copied sp ''submodule_search_locations'' ''__path__'' False
    (copied sp ''parent'' ''__package__'' True (copied sp ''origin'' ''__file__'' True
    (copied sp ''loader'' ''__loader__'' True ((\<lambda>_. None)(
      ''__name__'' := Some nm, ''__doc__'' := Some PyNone, ''__package__'' := Some PyNone,
      ''__loader__'' := Some PyNone, ''__spec__'' := Some PyNone)))))"

lemma spec_dict_timeout: "spec_dict sp nm ''TimeoutError'' = None"
  by (simp add: spec_dict_def copied_def split: option.splits)

section \<open>Runs\<close>

definition atw :: "'w \<Rightarrow> 'w ist \<Rightarrow> 'w ist" where
  "atw w s = s\<lparr>base := (base s)\<lparr>wld := w\<rparr>\<rparr>"

lemma atw_simps [simp]: "cg (atw w s) = cg s" "py_m (atw w s) = py_m s" "py_d (atw w s) = py_d s"
  "main_id (atw w s) = main_id s" "tdict (atw w s) = tdict s" "sysmods (atw w s) = sysmods s"
  "moddicts (atw w s) = moddicts s" "nmod (atw w s) = nmod s" "gil (base (atw w s)) = gil (base s)"
  "curexc (base (atw w s)) = curexc (base s)" "wld (base (atw w s)) = w" "bdict (base (atw w s)) = bdict (base s)"
  "mdict (base (atw w s)) = mdict (base s)" "base (atw w s) = (base s)\<lparr>wld := w\<rparr>"
  by (simp_all add: atw_def)

lemma atw_self: "atw (wld (base s)) s = s"
  by (simp add: atw_def)

context quiet_os
begin

text \<open>The run ends in a result and a state that satisfy \<open>Q\<close>, whatever the
  world, and leaves the names, semaphores and segments as they are.\<close>

definition run :: "('w, 'a) iprog \<Rightarrow> 'w ist \<Rightarrow> ('a \<Rightarrow> 'w ist \<Rightarrow> bool) \<Rightarrow> bool" where
  "run m s Q = (\<forall>w. ok w \<longrightarrow> (\<exists>v t w'. m (atw w s) = Ret v (atw w' t) \<and> ok w' \<and> osv w' = osv w \<and> Q v t))"

lemma run_apply: "run m s Q \<Longrightarrow> ok (wld (base s)) \<Longrightarrow>
    \<exists>v t w'. m s = Ret v (atw w' t) \<and> ok w' \<and> osv w' = osv (wld (base s)) \<and> Q v t"
  unfolding run_def using atw_self [of s] by metis

lemma run_bnd:
  assumes "run m s (\<lambda>v t. run (f v) t Q)"
  shows "run (bnd m f) s Q"
  unfolding run_def
proof (intro allI impI)
  fix w assume "ok w"
  then obtain v t w1 where m: "m (atw w s) = Ret v (atw w1 t)" and w1: "ok w1" "osv w1 = osv w" and f: "run (f v) t Q"
    using assms by (auto simp only: run_def)
  from f w1(1) obtain r u w2 where "f v (atw w1 t) = Ret r (atw w2 u)" "ok w2" "osv w2 = osv w1" "Q r u"
    by (auto simp only: run_def)
  then show "\<exists>v t w'. bnd m f (atw w s) = Ret v (atw w' t) \<and> ok w' \<and> osv w' = osv w \<and> Q v t"
    using w1(2) by (intro exI [of _ r] exI [of _ u] exI [of _ w2]) (simp add: bnd_def m)
qed

lemma run_sq: "run m s (\<lambda>_ t. run n t Q) \<Longrightarrow> run (sq m n) s Q"
  unfolding sq_def by (rule run_bnd)

lemma run_label: "run m s Q \<Longrightarrow> run (at_label m h) s Q"
  unfolding run_def at_label_def by force

lemma run_ret: "Q v s \<Longrightarrow> run (ret v) s Q"
  by (auto simp: run_def)

lemma run_prim: "(\<And>w. m (atw w s) = Ret v (atw w t)) \<Longrightarrow> Q v t \<Longrightarrow> run m s Q"
  by (auto simp: run_def)

lemma run_mono: "run m s Q \<Longrightarrow> (\<And>v t. Q v t \<Longrightarrow> Q' v t) \<Longrightarrow> run m s Q'"
  unfolding run_def by metis

lemma run_rd: "(\<And>w. g (atw w s) = g s) \<Longrightarrow> Q (g s) s \<Longrightarrow> run (rd g) s Q"
  by (auto simp: run_def rd_def)

lemma run_upd: "(\<And>w. g (atw w s) = atw w (g s)) \<Longrightarrow> Q () (g s) \<Longrightarrow> run (upd g) s Q"
  by (auto simp: run_def upd_def)

lemma run_whn: "(b \<Longrightarrow> run m s Q) \<Longrightarrow> (\<not> b \<Longrightarrow> Q () s) \<Longrightarrow> run (whn b m) s Q"
  by (simp add: whn_def run_ret)

lemma run_lft:
  assumes "\<And>V. ev m (base s) V v b V" and "Q v (s\<lparr>base := b\<rparr>)"
  shows "run (lft m) s Q"
  unfolding run_def
proof (intro allI impI)
  fix w assume "ok w"
  then obtain w' where "m ((base s)\<lparr>wld := w\<rparr>) = Ret v (b\<lparr>wld := w'\<rparr>)" "ok w'" "osv w' = osv w"
    using assms(1) [of "osv w"] by (auto simp: ev_def)
  then show "\<exists>v t w'. lft m (atw w s) = Ret v (atw w' t) \<and> ok w' \<and> osv w' = osv w \<and> Q v t"
    using assms(2) by (intro exI [of _ v] exI [of _ "s\<lparr>base := b\<rparr>"] exI [of _ w']) (simp add: lft_def atw_def)
qed

lemma run_capi: "gil (base s) \<Longrightarrow> Q (Some v) s \<Longrightarrow> run (lft (capi E f v)) s Q"
  by (rule run_lft [OF ev_capi]) simp_all

lemma run_icall: "gil (base s) \<Longrightarrow> Q v s \<Longrightarrow> run (icall E f l fn v) s Q"
  unfolding icall_def by (rule run_bnd, rule run_capi) (simp_all add: run_ret)

lemma run_glob: "cg s k = Some v \<Longrightarrow> Q v s \<Longrightarrow> run (glob k) s Q"
  unfolding glob_def by (rule run_bnd, rule run_rd) (simp_all add: run_ret)

lemma run_gname: "cg s k = Some (PyStr x) \<Longrightarrow> Q x s \<Longrightarrow> run (gname k) s Q"
  unfolding gname_def by (rule run_bnd, erule run_glob) (simp add: run_ret)

lemma run_set_glob: "Q () (s\<lparr>cg := (cg s)(k := Some v)\<rparr>) \<Longrightarrow> run (set_glob k v) s Q"
  unfolding set_glob_def by (rule run_upd) (simp_all add: atw_def)

lemma run_neg_err: "run m s (\<lambda>r t. r = 0 \<and> Q () t) \<Longrightarrow> run (neg_err l m) s Q"
  unfolding neg_err_def by (rule run_bnd, erule run_mono) (auto intro: run_whn)

lemma run_err_clear: "Q () (s\<lparr>base := (base s)\<lparr>curexc := None\<rparr>\<rparr>) \<Longrightarrow> gil (base s) \<Longrightarrow> run err_clear s Q"
  unfolding err_clear_def err_restore_def
  by (rule run_lft) (auto intro!: ev_sq [OF ev_need_gil] ev_upd)

lemma run_set_err: "Q () (s\<lparr>base := (base s)\<lparr>curexc := Some (PyErr k v [])\<rparr>\<rparr>) \<Longrightarrow> gil (base s) \<Longrightarrow>
    run (lft (set_err k v)) s Q"
  by (rule run_lft [OF ev_set_err])

lemmas run_rules = run_bnd run_sq run_label run_ret run_rd run_upd run_capi run_icall run_glob run_gname run_set_glob
  run_neg_err

section \<open>Constants\<close>

lemma run_init_strings: "gil (base s) \<Longrightarrow> Q 0 (s\<lparr>cg := put_strs ts (cg s)\<rparr>) \<Longrightarrow> run (init_strings E ts) s Q"
proof (induction ts arbitrary: s)
  case Nil
  then show ?case by (simp only: init_strings.simps) (rule run_ret, simp)
next
  case (Cons t ts)
  have "run (init_strings E ts) (s\<lparr>cg := (cg s)(se_name t := Some (str_object t))\<rparr>) Q"
    by (rule Cons.IH) (use Cons.prems in \<open>simp_all del: fun_upd_apply\<close>)
  then show ?case
    by (simp only: init_strings.simps)
      (intro run_bnd run_capi Cons.prems(1), simp, intro run_sq run_set_glob run_bnd run_capi, use Cons.prems(1) in \<open>simp_all del: fun_upd_apply\<close>)
qed

lemma run_init_tuples:
  "gil (base s) \<Longrightarrow> strs (cg s) \<Longrightarrow> numbers (cg s) \<Longrightarrow> set ts \<subseteq> set cached_tuples \<Longrightarrow>
    (\<And>g. strs g \<Longrightarrow> numbers g \<Longrightarrow> Q () (s\<lparr>cg := g\<rparr>)) \<Longrightarrow> run (init_tuples E ts) s Q"
proof (induction ts arbitrary: s)
  case Nil
  then have "Q () (s\<lparr>cg := cg s\<rparr>)" by blast
  then show ?case by (simp only: init_tuples.simps) (rule run_ret, simp)
next
  case (Cons t ts)
  obtain k nm f l where t: "t = (k, nm, f, l)" by (cases t)
  have "t \<in> set cached_tuples" using Cons.prems(4) by simp
  then obtain x where x: "cg s nm = Some x" using strs_tuples [OF Cons.prems(2)] t by force
  have k: "strs (cg s) \<Longrightarrow> strs ((cg s)(k := v))" "numbers ((cg s)(k := v)) = numbers (cg s)" for v
    using strs_upd [OF tuple_names [OF \<open>t \<in> set cached_tuples\<close>]] numbers_tuple [OF \<open>t \<in> set cached_tuples\<close>]
    unfolding t by simp_all
  have "run (init_tuples E ts) (s\<lparr>cg := (cg s)(k := Some (PyTuple [x]))\<rparr>) Q"
    by (intro Cons.IH) (use Cons.prems in \<open>simp_all add: k del: fun_upd_apply\<close>)
  then show ?case
    by (simp only: init_tuples.simps t prod.case)
      (intro run_bnd run_glob [OF x] run_icall Cons.prems(1) run_sq run_set_glob)
qed

lemma run_init_int: "gil (base s) \<Longrightarrow> Q () (s\<lparr>cg := (cg s)(k := Some (PyInt v))\<rparr>) \<Longrightarrow> run (init_int E k v) s Q"
  unfolding init_int_def by (intro run_bnd run_icall run_set_glob)

lemma run_init_globals:
  assumes "gil (base s)" and "\<And>g. strs g \<Longrightarrow> numbers g \<Longrightarrow> Q 0 (s\<lparr>cg := g\<rparr>)"
  shows "run (init_globals E) s Q"
proof -
  let ?g = "(put_strs string_tab (cg s))(''int_0'' := Some (PyInt 0), ''int_1'' := Some (PyInt 1),
    ''int_2'' := Some (PyInt 2), ''int_3'' := Some (PyInt 3))"
  have "strs ?g" "numbers ?g" by (simp_all only: strs_int strs_put) (simp add: numbers_def)
  from assms(2) [OF this] show ?thesis unfolding init_globals_def
    by (intro run_label run_sq run_neg_err run_init_strings conjI refl run_init_int run_ret)
      (simp_all add: assms(1) del: fun_upd_apply put_strs.simps)
qed

lemma run_init_constants: "gil (base s) \<Longrightarrow> strs (cg s) \<Longrightarrow> numbers (cg s) \<Longrightarrow>
    (\<And>g. strs g \<Longrightarrow> numbers g \<Longrightarrow> Q 0 (s\<lparr>cg := g\<rparr>)) \<Longrightarrow> run (init_constants E) s Q"
  unfolding init_constants_def
  by (rule run_label, rule run_sq, rule run_init_tuples) (simp_all add: run_ret)

lemma run_builtin: "gil (base s) \<Longrightarrow> cg s nm = Some (PyStr x) \<Longrightarrow> bdict (base s) x = Some v \<Longrightarrow>
    Q () (s\<lparr>cg := (cg s)(k := Some v)\<rparr>) \<Longrightarrow> run (init_builtin E f l k nm) s Q"
  unfolding init_builtin_def
proof (rule run_bnd, erule run_glob, simp only: pyobj.case, rule run_bnd)
  assume g: "gil (base s)" "bdict (base s) x = Some v" "Q () (s\<lparr>cg := (cg s)(k := Some v)\<rparr>)"
  have "ev (pyx_GetBuiltinName E x) (base s) V (Some v) (base s) V" for V
    unfolding pyx_GetBuiltinName_def
    by (rule ev_bnd [OF ev_capi [OF g(1)]], rule ev_bnd [OF ev_rd]) (simp_all add: g(2) ev_ret)
  then show "run (lft (pyx_GetBuiltinName E x)) s (\<lambda>r t. run (case r of None \<Rightarrow> pyx_err f l | Some v \<Rightarrow> set_glob k v) t Q)"
    by (rule run_lft) (simp add: run_set_glob g(3))
qed

lemma run_init_builtins:
  assumes "gil (base s)" and "strs (cg s)" and "numbers (cg s)"
    and "bdict (base s) ''SystemError'' = Some a" and "bdict (base s) ''TypeError'' = Some b"
    and "\<And>g. strs g \<Longrightarrow> numbers g \<Longrightarrow> Q 0 (s\<lparr>cg := g\<rparr>)"
  shows "run (init_builtins E) s Q"
proof -
  let ?g = "(cg s)(''builtin_SystemError'' := Some a, ''builtin_TypeError'' := Some b)"
  have "strs ?g" "numbers ?g" using assms(2,3) by (simp_all only: strs_builtin numbers_builtin)
  then have q: "Q 0 (s\<lparr>cg := ?g\<rparr>)" by (rule assms(6))
  have "strs ((cg s)(''builtin_SystemError'' := Some a))" using assms(2) by (simp only: strs_builtin)
  note n = strs_get(1) [OF assms(2)] strs_get(2) [OF this]
  show ?thesis unfolding init_builtins_def
    by (rule run_label, rule run_sq, rule run_builtin [OF assms(1) n(1) assms(4)], rule run_sq,
        rule run_builtin [where x = "''TypeError''" and v = b])
      (simp_all add: assms n q run_ret del: fun_upd_apply)
qed

section \<open>The type\<close>

lemma run_obj_lookup: "cg s k = Some (PyStr n) \<Longrightarrow> Q (if OA n then Some (TObject n) else None) s \<Longrightarrow> run (obj_lookup OA k) s Q"
  unfolding obj_lookup_def by (rule run_bnd, erule run_gname, erule run_ret)

lemma run_ty_lookup: "cg s k = Some (PyStr n) \<Longrightarrow> Q (tlook OA (tdict s) n) s \<Longrightarrow> run (ty_lookup OA k) s Q"
  unfolding ty_lookup_def tlook_def by (rule run_bnd, erule run_gname, rule run_bnd, rule run_rd, simp) (erule run_ret)

lemma run_getattr_some: "gil (base s) \<Longrightarrow> cg s k = Some (PyStr n) \<Longrightarrow> tlook OA (tdict s) n = Some a \<Longrightarrow> Q (Some a) s \<Longrightarrow>
    run (ty_getattr E OA k) s Q"
  unfolding ty_getattr_def
  by (rule run_bnd, rule run_capi, assumption, simp, rule run_bnd, erule run_ty_lookup) (simp add: run_ret)

lemma run_getattr_none: "gil (base s) \<Longrightarrow> cg s k = Some (PyStr n) \<Longrightarrow> tlook OA (tdict s) n = None \<Longrightarrow>
    Q None (s\<lparr>base := (base s)\<lparr>curexc := Some (PyErr AttributeErrorT (PyStr n) [])\<rparr>\<rparr>) \<Longrightarrow>
    run (ty_getattr E OA k) s Q"
  unfolding ty_getattr_def
  by (rule run_bnd, rule run_capi, assumption, simp, rule run_bnd, rule run_ty_lookup, assumption, simp,
      rule run_bnd, erule run_gname, rule run_sq, rule run_set_err) (simp_all add: run_ret)

lemma run_getattr_noerror: "gil (base s) \<Longrightarrow> cg s k = Some (PyStr n) \<Longrightarrow> tlook OA (tdict s) n = Some a \<Longrightarrow> Q (Some a) s \<Longrightarrow>
    run (ty_getattr_noerror E OA k) s Q"
  unfolding ty_getattr_noerror_def
  by (rule run_bnd, erule run_getattr_some, assumption, assumption) (simp, intro run_sq run_whn run_ret, simp_all)

lemma run_move: "gil (base s) \<Longrightarrow> cg s k = Some (PyStr n) \<Longrightarrow> cg s kc = Some (PyStr c) \<Longrightarrow>
    tlook OA (tdict s) c = Some a \<Longrightarrow> Q () (s\<lparr>tdict := (tdict s)(n := Some a, c := None)\<rparr>) \<Longrightarrow>
    run (setup_reduce_move E OA k kc must) s Q"
  unfolding setup_reduce_move_def
  by (rule run_bnd, rule run_getattr_noerror, assumption, assumption, assumption, simp, rule run_bnd, rule run_icall,
      assumption, rule run_bnd, rule run_gname, assumption, rule run_sq, rule run_upd, simp add: atw_def,
      rule run_bnd, rule run_icall, simp, rule run_bnd, rule run_gname, simp, rule run_upd)
    (simp_all add: atw_def)

lemma run_setup_reduce:
  assumes "gil (base s)" and "curexc (base s) = None" and "strs (cg s)" and "object_attrs OA"
    and "type_attrs (tdict s)" and "Q 0 (s\<lparr>tdict := reduced OA (tdict s)\<rparr>)"
  shows "run (setup_reduce E OA) s Q"
proof (cases "OA ''__getstate__''")
  case True
  then show ?thesis unfolding setup_reduce_def
    using assms by (intro run_label run_bnd run_ty_lookup [where n = "''__getstate__''"])
      (simp_all add: strs_get tlook_def type_attrs_def reduced_def run_ret)
next
  case False
  let ?T = "(tdict s)(''__reduce__'' := Some (TMethod ''__reduce_cython__''), ''__reduce_cython__'' := None)"
  let ?s = "s\<lparr>tdict := ?T\<rparr>"
  note a = assms(4,5) [unfolded object_attrs_def type_attrs_def]
  note n = strs_get [OF assms(3)]
  have r: "Q 0 (?s\<lparr>tdict := ?T(''__setstate__'' := Some (TMethod ''__setstate_cython__''), ''__setstate_cython__'' := None)\<rparr>)"
    using assms(6) False by (simp add: reduced_def del: fun_upd_apply)
  have c: "(base s)\<lparr>curexc := None\<rparr> = base s" using assms(2) by (cases "base s") simp
  have set: "run (setup_reduce_setstate E OA) ?s (\<lambda>_ t. Q 0 t)"
    unfolding setup_reduce_setstate_def
    by (rule run_bnd, rule run_getattr_none [where n = "''__setstate__''"], simp add: assms(1), simp add: n,
        simp add: tlook_def a, rule run_sq, rule run_whn, rule run_err_clear)
      (simp_all add: c assms(1), intro run_bnd run_ret, simp add: whn_def,
       rule run_move [where n = "''__setstate__''" and c = "''__setstate_cython__''" and a = "TMethod ''__setstate_cython__''"],
       use r in \<open>simp_all add: n a assms(1) tlook_def del: fun_upd_apply, simp_all add: a\<close>)
  have "run (sq (setup_reduce_move E OA ''n_s_reduce'' ''n_s_reduce_cython'' x) (sq (setup_reduce_setstate E OA) (ret 0))) s Q" for x
    by (rule run_sq, rule run_move [where n = "''__reduce__''" and c = "''__reduce_cython__''" and a = "TMethod ''__reduce_cython__''"])
      (simp_all add: n a assms(1) tlook_def run_sq [OF run_mono [OF set]] run_ret del: fun_upd_apply)
  then show ?thesis unfolding setup_reduce_def orbad_def
    using False by (intro run_label run_bnd run_ty_lookup [where n = "''__getstate__''"])
      (simp_all add: n tlook_def a, intro run_bnd run_obj_lookup [where n = "''__reduce_ex__''"], simp_all add: n a,
       intro run_ret run_bnd run_getattr_some [where n = "''__reduce_ex__''" and a = "TObject ''__reduce_ex__''"],
       simp_all add: n a tlook_def assms(1), intro run_ret, simp,
       intro run_bnd run_obj_lookup [where n = "''__reduce__''"], simp_all add: n a,
       intro run_ret run_bnd run_getattr_some [where n = "''__reduce__''" and a = "TObject ''__reduce__''"],
       simp_all add: n a tlook_def assms(1), rule run_ret, simp, rule run_bnd, rule run_ret, simp)
qed

lemma run_type_init:
  assumes "gil (base s)" and "curexc (base s) = None" and "strs (cg s)" and "object_attrs OA"
    and "Q 0 (s\<lparr>vtable := hl_vtable, base := (base s)\<lparr>mdict := (mdict (base s))(''HybridLock'' := Some (PyCls HybridLockT))\<rparr>,
      tdict := reduced OA ((type_methods E)(''__pyx_vtable__'' := Some TCapsule)), ptype := True\<rparr>)"
  shows "run (type_init E OA) s Q"
proof -
  note n = strs_get [OF assms(3)]
  let ?T = "(type_methods E)(''__pyx_vtable__'' := Some TCapsule)"
  have v: "run (set_vtable E) (s\<lparr>vtable := hl_vtable, tdict := type_methods E\<rparr>) (\<lambda>r t. r = 0 \<and> t = s\<lparr>vtable := hl_vtable, tdict := ?T\<rparr>)"
    unfolding set_vtable_def
    by (rule run_label, rule run_bnd, rule run_icall, simp add: assms(1), rule run_bnd, rule run_gname [where x = "''__pyx_vtable__''"],
        simp add: n, rule run_bnd, rule run_icall, simp add: assms(1), rule run_sq, rule run_upd, simp add: atw_def,
        rule run_ret, simp)
  let ?s = "s\<lparr>vtable := hl_vtable, tdict := ?T, base := (base s)\<lparr>mdict := (mdict (base s))(''HybridLock'' := Some (PyCls HybridLockT))\<rparr>\<rparr>"
  have r: "run (setup_reduce E OA) ?s (\<lambda>r t. r = 0 \<and> t = ?s\<lparr>tdict := reduced OA ?T\<rparr>)"
    by (rule run_setup_reduce) (simp_all add: assms(1-4) type_attrs_methods del: fun_upd_apply)
  show ?thesis unfolding type_init_def
    apply (rule run_label, rule run_sq, rule run_upd, simp add: atw_def)
    apply (rule run_bnd, rule run_icall, simp add: assms(1), rule run_sq, rule run_upd, simp add: atw_def)
    apply (rule run_sq, rule run_neg_err, rule run_mono [OF v])
    apply (elim conjE, rule conjI, assumption, hypsubst)
    apply (rule run_bnd, rule run_icall, simp add: assms(1), rule run_bnd, rule run_gname [where x = "''HybridLock''"], simp add: n)
    apply (rule run_sq, rule run_upd, simp add: atw_def, rule run_sq, rule run_neg_err)
    apply (rule run_mono [where Q = "\<lambda>r t. r = 0 \<and> t = ?s\<lparr>tdict := reduced OA ?T\<rparr>"])
     apply (use r in \<open>simp del: fun_upd_apply\<close>)
    apply (elim conjE, rule conjI, assumption, hypsubst, rule run_sq, rule run_upd, simp add: atw_def, rule run_ret)
    using assms(5) by (simp del: fun_upd_apply)
qed

section \<open>The body\<close>

lemma run_set_module_global: "gil (base s) \<Longrightarrow> cg s k = Some (PyStr n) \<Longrightarrow>
    Q () (s\<lparr>base := (base s)\<lparr>mdict := (mdict (base s))(n := Some v)\<rparr>\<rparr>) \<Longrightarrow> run (set_module_global E l k v) s Q"
  unfolding set_module_global_def
  by (rule run_bnd, erule run_gname, rule run_bnd, rule run_icall, assumption, rule run_upd) (simp_all add: atw_def)

lemma run_orerr: "run m s (\<lambda>r t. \<exists>a. r = Some a \<and> Q a t) \<Longrightarrow> run (orerr l m) s Q"
  unfolding orerr_def by (rule run_bnd, erule run_mono) (auto intro: run_ret)

lemma run_ns_set: "gil (base s) \<Longrightarrow> cg s k = Some (PyStr n) \<Longrightarrow> Q (ns(n := Some v)) s \<Longrightarrow> run (ns_set E k v ns) s Q"
  unfolding ns_set_def by (rule run_bnd, rule run_icall, assumption, rule run_bnd, erule run_gname, rule run_ret)

lemma run_prepare:
  assumes "gil (base s)" and "strs (cg s)"
    and "Q (Some (Map.empty(''__module__'' := Some n, ''__qualname__'' := Some q))) s"
  shows "run (metaclass_prepare E (Some mc) q n None) s Q"
proof -
  have ns: "run (bnd (ns_set E ''n_s_module'' n Map.empty) (\<lambda>ns. bnd (ns_set E ''n_s_qualname'' q ns) (\<lambda>ns.
      bnd (case None of None \<Rightarrow> ret ns | Some d \<Rightarrow> ns_set E ''n_s_doc'' d ns) (\<lambda>ns. ret (Some ns))))) s Q"
    using assms(3)
    by (intro run_bnd run_ns_set [OF assms(1) strs_get(9) [OF assms(2)]] run_ns_set [OF assms(1) strs_get(10) [OF assms(2)]])
      (simp only: option.case, intro run_bnd run_ret)
  have prep: "run (bnd (lft (capi E ''PyObject_GetAttr'' ())) (\<lambda>prep. case prep of
            Some _ \<Rightarrow> bnd (icall E 0 0 ''PyTuple_Pack'' ()) (\<lambda>_. icall E 0 0 ''PyObject_Call'' Map.empty)
          | None \<Rightarrow> x)) s (\<lambda>v t. v = Map.empty \<and> t = s)" for x
    by (rule run_bnd, rule run_capi [OF assms(1)], simp only: option.case, rule run_bnd, rule run_icall [OF assms(1)],
        rule run_icall [OF assms(1)]) simp
  show ?thesis unfolding metaclass_prepare_def
    by (rule run_label, rule run_bnd, simp only: option.case, rule run_mono [OF prep]) (use ns in simp)
qed

lemma run_exec_class:
  assumes "gil (base s)" and "strs (cg s)" and "cg s k = Some (PyStr n)"
    and "Q () (s\<lparr>base := (base s)\<lparr>mdict := (mdict (base s))(n := Some (PyCls (Derived n ExceptionT)))\<rparr>\<rparr>)"
  shows "run (exec_class E l k) s Q"
proof -
  have c: "run (class_create E n ExceptionT) s (\<lambda>r t. \<exists>a. r = Some a \<and> run (set_module_global E l k a) t Q)"
    unfolding class_create_def
    by (rule run_bnd, rule run_capi, rule assms(1), simp, rule run_capi, rule assms(1))
      (use assms in \<open>simp add: run_set_module_global del: fun_upd_apply\<close>)
  show ?thesis unfolding exec_class_def CalculateMetaclass_def
    by (rule run_bnd, rule run_icall, rule assms(1), rule run_bnd, rule run_orerr, simp, rule run_ret, simp,
        rule run_bnd, rule run_glob, rule assms(3), rule run_bnd, rule run_glob, rule strs_get(3) [OF assms(2)],
        rule run_bnd, rule run_orerr, rule run_prepare, rule assms(1), rule assms(2), simp,
        rule run_bnd, rule run_gname, rule assms(3), rule run_bnd, rule run_orerr, rule c)
qed

lemma run_global: "gil (base s) \<Longrightarrow> cg s k = Some v \<Longrightarrow> cg s i = Some (PyStr n) \<Longrightarrow>
    Q () (s\<lparr>base := (base s)\<lparr>mdict := (mdict (base s))(n := Some v)\<rparr>\<rparr>) \<Longrightarrow>
    run (bnd (glob k) (\<lambda>v. set_module_global E l i v)) s Q"
  by (rule run_bnd, erule run_glob, rule run_set_module_global)

lemma run_exec_body:
  assumes "gil (base s)" and "strs (cg s)" and "numbers (cg s)" and "Q () (s\<lparr>base := body_state (base s)\<rparr>)"
  shows "run (exec_body E) s Q"
proof -
  note n = strs_get [OF assms(2)]
  note i = assms(3) [unfolded numbers_def]
    show ?thesis unfolding exec_body_def exec_int_def
    by (rule run_sq [OF run_global [where v = "PyStr ''hi''" and n = "''STUFF''"]], simp_all add: assms(1) n del: fun_upd_apply,
        rule run_sq [OF run_exec_class [where n = "''SemaphoreExistsException''"]], simp_all add: assms(1,2) n del: fun_upd_apply,
        rule run_sq [OF run_exec_class [where n = "''NoSuchSemaphoreException''"]], simp_all add: assms(1,2) n del: fun_upd_apply,
        rule run_sq [OF run_exec_class [where n = "''SemaphoreDestroyedException''"]], simp_all add: assms(1,2) n del: fun_upd_apply,
        rule run_sq [OF run_global [where v = "PyInt 0" and n = "''CONNECT_OR_CREATE''"]], simp_all add: assms(1) i n del: fun_upd_apply,
        rule run_sq [OF run_global [where v = "PyInt 1" and n = "''CONNECT_TO_EXISTING''"]], simp_all add: assms(1) i n del: fun_upd_apply,
        rule run_sq [OF run_global [where v = "PyInt 2" and n = "''CREATE_NEW_OVERWRITE''"]], simp_all add: assms(1) i n del: fun_upd_apply,
        rule run_sq [OF run_global [where v = "PyInt 3" and n = "''CREATE_NEW_EXCLUSIVE''"]], simp_all add: assms(1) i n del: fun_upd_apply,
        (rule run_sq, rule run_upd, simp add: atw_def)+, rule run_bnd, rule run_icall, simp add: assms(1),
        rule run_set_module_global [where n = "''__test__''"])
      (use assms(4) in \<open>simp_all add: assms(1) n body_state_def body_dict_def SemaphoreExists_def NoSuchSemaphore_def
        SemaphoreDestroyed_def del: fun_upd_apply\<close>)
qed

section \<open>The module\<close>

lemma run_check_version: "gil (base s) \<Longrightarrow> Q 0 s \<Longrightarrow> run (check_binary_version E ct rt) s Q"
  unfolding check_binary_version_def Let_def
  by (auto intro!: run_bnd run_capi run_ret)

lemma run_exec_setup:
  assumes "gil (base s)"
    and "\<And>g. Q () (s\<lparr>cg := g, py_m := Some m, py_d := True,
      base := (base s)\<lparr>mdict := (moddicts s m)(''__builtins__'' := Some (PyOther 0))\<rparr>\<rparr>)"
  shows "run (exec_setup E ct rt m) s Q"
  unfolding exec_setup_def
  by (rule run_sq, rule run_neg_err, rule run_check_version, rule assms(1), rule conjI, rule refl,
      (rule run_bnd, rule run_icall, simp add: assms(1), rule run_sq, rule run_set_glob)+,
      rule run_sq, rule run_upd, simp add: atw_def, rule run_bnd, rule run_icall, simp add: assms(1),
      rule run_sq, rule run_upd, simp add: atw_def,
      (rule run_bnd, rule run_icall, simp add: assms(1))+, rule run_upd)
    (simp_all add: atw_def assms(2) del: fun_upd_apply)

lemma run_exec_constants:
  assumes "gil (base s)" and "bdict (base s) ''SystemError'' = Some a" and "bdict (base s) ''TypeError'' = Some b"
    and "\<And>t. strs (cg t) \<Longrightarrow> numbers (cg t) \<Longrightarrow> kept s t \<Longrightarrow> sysmods t = reg_module m (sysmods s) \<Longrightarrow>
      base t = (base s)\<lparr>mdict := (if main then (mdict (base s))(''__name__'' := Some (PyStr ''__main__'')) else mdict (base s))\<rparr> \<Longrightarrow>
      Q () t"
  shows "run (exec_constants E main m) s Q"
proof -
  define rest :: "('w, unit) iprog" where "rest = sq (neg_err 1 (init_builtins E)) (neg_err 1 (init_constants E))"
  have rest: "run rest t Q" if "gil (base t)" "strs (cg t)" "numbers (cg t)"
    "bdict (base t) = bdict (base s)" "\<And>g. strs g \<Longrightarrow> numbers g \<Longrightarrow> Q () (t\<lparr>cg := g\<rparr>)" for t
    unfolding rest_def
    by (rule run_sq, rule run_neg_err, rule run_init_builtins [where a = a and b = b])
      (use that assms(2,3) in \<open>simp_all add: run_neg_err run_init_constants\<close>)
  have mods: "run (bnd (icall E 0 1 ''PyImport_GetModuleDict'' ()) (\<lambda>_.
     bnd (rd (\<lambda>s. sysmods s ''HybridLock'')) (\<lambda>x.
     sq (whn (x = None) (bnd (icall E 0 1 ''PyDict_SetItemString'' ()) (\<lambda>_.
       upd (\<lambda>s. s\<lparr>sysmods := (sysmods s)(''HybridLock'' := Some m)\<rparr>)))) rest))) t Q"
    if "gil (base t)" "strs (cg t)" "numbers (cg t)" "bdict (base t) = bdict (base s)"
      "\<And>u. strs (cg u) \<Longrightarrow> numbers (cg u) \<Longrightarrow> kept t u \<Longrightarrow> sysmods u = reg_module m (sysmods t) \<Longrightarrow> base u = base t \<Longrightarrow> Q () u" for t
    using that
    by (intro run_bnd run_icall run_rd run_sq run_whn run_upd)
      (auto simp: atw_def kept_def reg_module_def intro!: rest simp del: fun_upd_apply)
  show ?thesis unfolding exec_constants_def rest_def [symmetric]
  proof (rule run_sq, rule run_neg_err, rule run_init_globals [OF assms(1)], rule conjI [OF refl], rule run_sq, rule run_whn)
    fix g assume g: "strs g" "numbers g"
    note n = strs_get [OF g(1)]
    show "run (bnd (glob ''n_s_main'') (\<lambda>v. bnd (gname ''n_s_name'') (\<lambda>n. bnd (icall E 0 1 ''PyObject_SetAttr'' ()) (\<lambda>_.
       upd (\<lambda>s. s\<lparr>base := (base s)\<lparr>mdict := (mdict (base s))(n := Some v)\<rparr>\<rparr>))))) (s\<lparr>cg := g\<rparr>)
       (\<lambda>_ t. run (bnd (icall E 0 1 ''PyImport_GetModuleDict'' ()) (\<lambda>_. bnd (rd (\<lambda>s. sysmods s ''HybridLock'')) (\<lambda>x.
        sq (whn (x = None) (bnd (icall E 0 1 ''PyDict_SetItemString'' ()) (\<lambda>_.
          upd (\<lambda>s. s\<lparr>sysmods := (sysmods s)(''HybridLock'' := Some m)\<rparr>)))) rest))) t Q)" if main
      by (rule run_bnd, rule run_glob [where v = "PyStr ''__main__''"], simp add: n, rule run_bnd,
          rule run_gname [where x = "''__name__''"], simp add: n, rule run_bnd, rule run_icall, simp add: assms(1),
          rule run_upd, simp add: atw_def, rule mods)
        (use assms(1) g that in \<open>simp_all del: fun_upd_apply\<close>, intro assms(4), simp_all add: kept_def that del: fun_upd_apply)
    show "run (bnd (icall E 0 1 ''PyImport_GetModuleDict'' ()) (\<lambda>_. bnd (rd (\<lambda>s. sysmods s ''HybridLock'')) (\<lambda>x.
        sq (whn (x = None) (bnd (icall E 0 1 ''PyDict_SetItemString'' ()) (\<lambda>_.
          upd (\<lambda>s. s\<lparr>sysmods := (sysmods s)(''HybridLock'' := Some m)\<rparr>)))) rest))) (s\<lparr>cg := g\<rparr>) Q" if "\<not> main"
      by (rule mods) (use assms(1) g that in \<open>simp_all del: fun_upd_apply\<close>, intro assms(4), simp_all add: kept_def that del: fun_upd_apply)
  qed
qed

lemma run_pymod_exec:
  assumes "pyok (base s)" and "py_m s = None" and "object_attrs OA"
    and "bdict (base s) ''SystemError'' = Some a" and "bdict (base s) ''TypeError'' = Some b"
  shows "run (pymod_exec E OA ct rt main m) s (\<lambda>r t. r = 0 \<and> initialised E OA main m s t)"
proof -
  have ok: "gil (base s)" "curexc (base s) = None" using assms(1) by (simp_all add: pyok_def)
  let ?Q = "\<lambda>_ t. initialised E OA main m s t"
  have b: "run (sq (neg_err 1 (type_init E OA)) (exec_body E)) t ?Q"
    if "strs (cg t)" "numbers (cg t)" "py_m t = Some m" "py_d t" "base t = (base s)\<lparr>mdict := start_dict main (moddicts s m)\<rparr>"
      "sysmods t = reg_module m (sysmods s)" "main_id t = main_id s" "moddicts t = moddicts s" "nmod t = nmod s" for t
    by (rule run_sq, rule run_neg_err, rule run_type_init)
      (simp_all add: that ok assms(3) del: fun_upd_apply, rule run_exec_body,
       simp_all add: that ok initialised_def type_dict_def del: fun_upd_apply)
  have "run (sq (exec_setup E ct rt m) (sq (exec_constants E main m) (sq (neg_err 1 (type_init E OA)) (exec_body E)))) s ?Q"
  proof (rule run_sq, rule run_exec_setup [OF ok(1)], rule run_sq, rule run_exec_constants [where a = a and b = b])
    fix g t
    let ?s = "s\<lparr>cg := g, py_m := Some m, py_d := True, base := (base s)\<lparr>mdict := (moddicts s m)(''__builtins__'' := Some (PyOther 0))\<rparr>\<rparr>"
    assume t: "strs (cg t)" "numbers (cg t)" "kept ?s t" "sysmods t = reg_module m (sysmods ?s)"
      "base t = (base ?s)\<lparr>mdict := (if main then (mdict (base ?s))(''__name__'' := Some (PyStr ''__main__'')) else mdict (base ?s))\<rparr>"
    show "run (sq (neg_err 1 (type_init E OA)) (exec_body E)) t ?Q"
      by (rule b) (use t in \<open>simp_all add: kept_def start_dict_def Let_def del: fun_upd_apply\<close>)
  qed (simp_all add: ok assms(4,5))
  then have "run (sq (at_label (sq (exec_setup E ct rt m) (sq (exec_constants E main m) (sq (neg_err 1 (type_init E OA)) (exec_body E))))
      (exec_fail E)) (bnd (rd py_m) (\<lambda>pm. ret (if pm \<noteq> None then 0 else - 1)))) s (\<lambda>r t. r = 0 \<and> initialised E OA main m s t)"
    by - (rule run_sq, rule run_label, erule run_mono, rule run_bnd, rule run_rd, simp, rule run_ret, simp add: initialised_def)
  then show ?thesis unfolding pymod_exec_def exec_modinit_type
    by (intro run_bnd run_rd) (simp_all add: assms(2))
qed

lemma run_single_interpreter:
  assumes "\<And>w. ok w \<Longrightarrow> I w = Inl i" and "i \<noteq> - 1" and "main_id s = - 1 \<or> main_id s = i" and "Q 0 (s\<lparr>main_id := i\<rparr>)"
  shows "run (check_single_interpreter I) s Q"
proof -
  have "run (rd (\<lambda>s. I (wld (base s)))) s (\<lambda>v t. v = Inl i \<and> t = s)"
    using assms(1) by (auto simp: run_def rd_def)
  moreover have "s\<lparr>main_id := i\<rparr> = s" if "main_id s = i" using that by simp
  ultimately show ?thesis unfolding check_single_interpreter_def
    by - (rule run_bnd, erule run_mono, elim conjE, hypsubst, simp only: sum.case, rule run_bnd, rule run_ret,
      rule run_bnd, rule run_rd, simp, use assms(2-4) in \<open>auto intro!: run_sq run_upd run_ret simp: atw_def\<close>)
qed

lemma run_copy_spec:
  assumes "pyok (base s)"
    and "Q 0 (s\<lparr>moddicts := (moddicts s)(m := copied sp from_name to_name allow (moddicts s m))\<rparr>)"
  shows "run (copy_spec_to_module E sp m from_name to_name allow) s Q"
proof (cases "sp from_name")
  case None
  have g: "gil (base s)" "(base s)\<lparr>curexc := None\<rparr> = base s" using assms(1) by (simp_all add: pyok_def)
  show ?thesis unfolding copy_spec_to_module_def spec_attr_def
    by (rule run_bnd, rule run_bnd, rule run_capi, rule g(1), simp add: None, rule run_sq, rule run_set_err)
      (rule run_ret, simp, rule run_bnd, rule run_rd, simp, simp, intro run_sq run_err_clear run_ret,
       use assms(2) None in \<open>simp_all add: copied_def g\<close>)
next
  case (Some v)
  have g: "gil (base s)" using assms(1) by (simp add: pyok_def)
  have q: "Q 0 s" if "\<not> (allow \<or> v \<noteq> PyNone)"
    using assms(2) that by (simp add: copied_def Some)
  show ?thesis unfolding copy_spec_to_module_def spec_attr_def
    by (rule run_bnd, rule run_bnd, rule run_capi, rule g, simp add: Some, rule run_ret, simp)
      (use assms(2) q in \<open>auto intro!: run_bnd run_capi g run_sq run_upd run_ret simp: atw_def copied_def Some simp del: fun_upd_apply\<close>)
qed

lemma run_pymod_create:
  assumes "pyok (base s)" and "py_m s = None" and "sp ''name'' = Some nm"
    and "\<And>w. ok w \<Longrightarrow> I w = Inl i" and "i \<noteq> - 1" and "main_id s = - 1 \<or> main_id s = i"
  shows "run (pymod_create E I sp) s (\<lambda>r t. r = Some (nmod s) \<and>
    t = s\<lparr>main_id := i, nmod := nmod s + 1, moddicts := (moddicts s)(nmod s := spec_dict sp nm)\<rparr>)"
proof -
  have g: "gil (base s)" using assms(1) by (simp add: pyok_def)
  have n: "run (orbad (spec_attr E sp ''name'')) (s\<lparr>main_id := i\<rparr>) (\<lambda>v t. v = nm \<and> t = s\<lparr>main_id := i\<rparr>)"
    unfolding orbad_def spec_attr_def
    by (rule run_bnd, rule run_bnd, rule run_capi, simp add: g, simp add: assms(3)) (intro run_ret, simp, intro run_ret, simp)
  have m: "run (new_module E nm) (s\<lparr>main_id := i\<rparr>) (\<lambda>v t. v = nmod s \<and> t = s\<lparr>main_id := i, nmod := nmod s + 1,
      moddicts := (moddicts s)(nmod s := (\<lambda>_. None)(
      ''__name__'' := Some nm, ''__doc__'' := Some PyNone, ''__package__'' := Some PyNone,
      ''__loader__'' := Some PyNone, ''__spec__'' := Some PyNone))\<rparr>)"
    unfolding new_module_def
    by (rule run_bnd, rule run_icall, simp add: g, rule run_prim) (simp_all add: atw_def del: fun_upd_apply)
  show ?thesis unfolding pymod_create_def
    apply (rule run_bnd, rule run_single_interpreter [where i = i], fact assms(4), fact assms(5), fact assms(6), simp)
    apply (rule run_bnd, rule run_rd, simp, simp add: assms(2), rule run_label)
    apply (rule run_bnd, rule run_mono [OF n], elim conjE, hypsubst, rule run_bnd, rule run_mono [OF m], elim conjE, hypsubst)
    apply (rule run_bnd, rule run_icall, simp add: g)
    apply (rule run_sq, rule run_neg_err, rule run_copy_spec, simp add: assms(1), rule conjI [OF refl])+
    apply (rule run_ret)
    by (simp add: spec_dict_def fun_upd_same del: fun_upd_apply)
qed

text \<open>Creating the module and running its body.\<close>

lemma run_module:
  assumes "pyok (base s)" and "py_m s = None" and "sp ''name'' = Some nm"
    and "\<And>w. ok w \<Longrightarrow> I w = Inl i" and "i \<noteq> - 1" and "main_id s = - 1 \<or> main_id s = i"
    and "object_attrs OA" and "bdict (base s) ''SystemError'' = Some a" and "bdict (base s) ''TypeError'' = Some b"
    and "ok (wld (base s))"
  shows "\<exists>t u. pymod_create E I sp s = Ret (Some (nmod s)) t \<and> pymod_exec E OA ct rt main (nmod s) t = Ret 0 u
    \<and> initialised E OA main (nmod s) t (atw (wld (base t)) u) \<and> moddicts t (nmod s) = spec_dict sp nm
    \<and> ok (wld (base u)) \<and> osv (wld (base u)) = osv (wld (base s)) \<and> bdict (base u) = bdict (base s)"
proof -
  obtain t w where t: "pymod_create E I sp s = Ret (Some (nmod s)) (atw w t)" "ok w" "osv w = osv (wld (base s))"
    and e: "t = s\<lparr>main_id := i, nmod := nmod s + 1, moddicts := (moddicts s)(nmod s := spec_dict sp nm)\<rparr>"
    using run_apply [OF run_pymod_create [where I = I and i = i and sp = sp, OF assms(1-6)] assms(10)] by blast
  have o: "pyok (base (atw w t))" "py_m (atw w t) = None" "bdict (base (atw w t)) ''SystemError'' = Some a"
    "bdict (base (atw w t)) ''TypeError'' = Some b" "ok (wld (base (atw w t)))"
    using assms t(2) by (simp_all add: e)
  obtain u w' where u: "pymod_exec E OA ct rt main (nmod s) (atw w t) = Ret 0 (atw w' u)" "ok w'" "osv w' = osv w"
    and i: "initialised E OA main (nmod s) (atw w t) u"
    using run_apply [OF run_pymod_exec [where ct = ct and rt = rt and main = main and m = "nmod s", OF o(1,2) assms(7) o(3,4)] o(5)]
    unfolding atw_simps(11) by blast
  have b: "base u = body_state ((base (atw w t))\<lparr>mdict := (start_dict main (moddicts (atw w t) (nmod s)))(''HybridLock'' := Some (PyCls HybridLockT))\<rparr>)"
    using i by (simp only: initialised_def)
  have "wld (base u) = w" "bdict (base u) = bdict (base s)" using b by (simp_all add: body_state_def e)
  then have "atw w (atw w' u) = u" by (simp add: atw_def)
  then have "initialised E OA main (nmod s) (atw w t) (atw (wld (base (atw w t))) (atw w' u))" using i by simp
  moreover have "moddicts (atw w t) (nmod s) = spec_dict sp nm" by (simp add: e)
  ultimately show ?thesis using t(1,3) u \<open>bdict (base u) = bdict (base s)\<close>
    by (intro exI [of _ "atw w t"] exI [of _ "atw w' u"]) simp
qed

end

lemma initialised_bdict:
  assumes "initialised E OA main m s (atw w u)"
  shows "bdict (base u) = bdict (base s)"
proof -
  have "base (atw w u) = body_state ((base s)\<lparr>mdict := (start_dict main (moddicts s m))(''HybridLock'' := Some (PyCls HybridLockT))\<rparr>)"
    using assms by (simp only: initialised_def)
  then have "bdict (base (atw w u)) = bdict (base s)" by (simp add: body_state_def)
  then show ?thesis by simp
qed

section \<open>Once per process\<close>

definition reimport_error :: pyerr where
  "reimport_error = PyErr RuntimeErrorT (PyStr (''Module '' @ [CHR 0x27] @ ''HybridLock'' @ [CHR 0x27] @ '' has already been imported. Re-initialisation is not supported.'')) []"

definition interpreter_error :: pyerr where
  "interpreter_error = PyErr ImportErrorT (PyStr ''Interpreter change detected - this module can only be loaded into one interpreter per process.'') []"

lemma exec_again: "py_m s = Some x \<Longrightarrow> gil (base s) \<Longrightarrow> pymod_exec E OA ct rt main m s =
    (if x = m then Ret 0 s else Ret (- 1) (s\<lparr>base := (base s)\<lparr>curexc := Some reimport_error\<rparr>\<rparr>))"
  by (simp add: pymod_exec_def bnd_def rd_def sq_def lft_def set_err_def need_gil_def upd_def reimport_error_def)

lemma create_again: "main_id s \<noteq> - 1 \<Longrightarrow> I (wld (base s)) = Inl j \<Longrightarrow> gil (base s) \<Longrightarrow> py_m s = Some x \<Longrightarrow>
    pymod_create E I sp s = (if j = main_id s then Ret (Some x) s
      else Ret None (s\<lparr>base := (base s)\<lparr>curexc := Some interpreter_error\<rparr>\<rparr>))"
  by (auto simp: pymod_create_def check_single_interpreter_def bnd_def rd_def sq_def lft_def set_err_def need_gil_def upd_def
      interpreter_error_def)

section \<open>The metaclass\<close>

text \<open>The type \<open>w\<close> is one of \<open>S\<close> and a subclass of all of them.\<close>

definition derives_all :: "('c \<Rightarrow> 'c \<Rightarrow> bool) \<Rightarrow> 'c set \<Rightarrow> 'c \<Rightarrow> bool" where
  "derives_all sub S w = (w \<in> S \<and> (\<forall>y\<in>S. sub w y))"

lemma derives_insert:
  assumes "transp sub" and "sub m t"
  shows "derives_all sub (insert m S) w \<Longrightarrow> derives_all sub (insert m (insert t S)) w"
    and "derives_all sub (insert m (insert t S)) w \<Longrightarrow> \<exists>v. derives_all sub (insert m S) v"
proof -
  show "derives_all sub (insert m S) w \<Longrightarrow> derives_all sub (insert m (insert t S)) w"
    using assms by (auto simp: derives_all_def dest: transpD)
  assume w: "derives_all sub (insert m (insert t S)) w"
  then have "derives_all sub (insert m S) (if w = t then m else w)"
    using assms by (auto simp: derives_all_def dest: transpD)
  then show "\<exists>v. derives_all sub (insert m S) v" by blast
qed

lemma calc_some:
  assumes "reflp sub" and "transp sub"
  shows "calc_metaclass sub ty (Some m) ts = Some w \<Longrightarrow> derives_all sub (insert m (set ts)) w"
proof (induction ts arbitrary: m)
  case Nil
  then show ?case by (simp add: derives_all_def reflpD [OF assms(1)])
next
  case (Cons t ts)
  show ?case
  proof (cases "sub m t")
    case True
    then show ?thesis using Cons derives_insert(1) [of sub m t "set ts" w, OF assms(2)] by simp
  next
    case False
    then have "sub t m" "derives_all sub (insert t (set ts)) w" using Cons by (simp_all split: if_splits)
    then show ?thesis using derives_insert(1) [of sub t m "set ts" w, OF assms(2)] by (simp add: insert_commute)
  qed
qed

text \<open>The loop goes through exactly when each beginning of the list has such a type.\<close>

lemma calc_through:
  assumes "reflp sub" and "transp sub"
  shows "calc_metaclass sub ty (Some m) ts \<noteq> None
    \<longleftrightarrow> (\<forall>k \<le> length ts. \<exists>w. derives_all sub (insert m (set (take k ts))) w)"
proof (induction ts arbitrary: m)
  case Nil
  then show ?case by (auto simp: derives_all_def reflpD [OF assms(1)])
next
  case (Cons t ts)
  have len: "(\<forall>k \<le> length (t # ts). P k) \<longleftrightarrow> P 0 \<and> (\<forall>k \<le> length ts. P (Suc k))" for P
    by (metis Suc_le_mono le0 length_Cons not0_implies_Suc)
  have step: "(\<forall>k \<le> length (t # ts). \<exists>w. derives_all sub (insert m (set (take k (t # ts)))) w)
      \<longleftrightarrow> (\<forall>k \<le> length ts. \<exists>w. derives_all sub (insert x (set (take k ts))) w)"
    if x: "x = m \<and> sub m t \<or> x = t \<and> sub t m" for x
  proof -
    have e: "(\<exists>w. derives_all sub (insert m (insert t S)) w) \<longleftrightarrow> (\<exists>w. derives_all sub (insert x S) w)" for S
    proof (cases "x = m \<and> sub m t")
      case True
      then show ?thesis using derives_insert [of sub m t S, OF assms(2)] by blast
    next
      case False
      then show ?thesis using x derives_insert [of sub t m S, OF assms(2)] by (auto simp: insert_commute [of m t])
    qed
    have z: "\<exists>w. derives_all sub {m} w" using reflpD [OF assms(1)] by (auto simp: derives_all_def)
    show ?thesis by (subst len) (simp add: e z)
  qed
  show ?case
  proof (cases "sub m t \<or> sub t m")
    case True
    then show ?thesis using Cons.IH step [of m] step [of t] by auto
  next
    case False
    then have "\<not> (\<exists>w. derives_all sub (insert m (set (take 1 (t # ts)))) w)" by (auto simp: derives_all_def)
    then show ?thesis using False by (auto intro!: exI [of _ 1])
  qed
qed

end
