(* ===== verification/ModDemo.thy ===== *)
theory ModDemo
  imports Demo ModSpec
begin

text \<open>
  A process that has not loaded the module yet, on the concrete operating
  system, for the instances of the properties of the initialisation.
\<close>

definition bare_on :: "kern \<Rightarrow> kern cst" where
  "bare_on w = \<lparr>wld = w, objs = (\<lambda>_. None), nobj = 0, cmem = (\<lambda>_. None), nmem = 0, curexc = None, gil = True,
    mdict = (\<lambda>_. None),
    bdict = (\<lambda>_. None)(''SystemError'' := Some (PyCls SystemErrorT), ''TypeError'' := Some (PyCls TypeErrorT),
      ''TimeoutError'' := Some (PyCls TimeoutErrorT)),
    v_LOCKED = 0, v_UNLOCKED = 0, v_DESTROYED = 0, v_k = 0, cocache = empty_cache\<rparr>"

definition fresh :: "kern ist" where
  "fresh = \<lparr>base = bare_on k_demo, py_m = None, py_d = False, main_id = - 1, cg = (\<lambda>_. None), tdict = (\<lambda>_. None),
    vtable = [], ptype = False, sysmods = (\<lambda>_. None), moddicts = (\<lambda>_ _. None), nmod = 0\<rparr>"

text \<open>The spec of the module, the attributes of \<open>object\<close> up to version 3.10 and
  since 3.11, the id of the main interpreter.\<close>

definition spec_demo :: "string \<Rightarrow> pyobj option" where
  "spec_demo = (\<lambda>_. None)(''name'' := Some (PyStr ''HybridLock''), ''origin'' := Some (PyStr ''/x/HybridLock.so''))"

definition object_310 :: "string \<Rightarrow> bool" where
  "object_310 n = (n \<in> {''__reduce__'', ''__reduce_ex__''})"

definition object_311 :: "string \<Rightarrow> bool" where
  "object_311 n = (n \<in> {''__reduce__'', ''__reduce_ex__'', ''__getstate__''})"

lemma fresh_simps: "pyok (base fresh)" "py_m fresh = None" "gil (base fresh)" "main_id fresh = - 1"
  "k_quiet (wld (base fresh))" "object_attrs object_310" "object_attrs object_311"
  "bdict (base fresh) ''SystemError'' = Some (PyCls SystemErrorT)"
  "bdict (base fresh) ''TypeError'' = Some (PyCls TypeErrorT)"
  "bdict (base fresh) ''TimeoutError'' = Some (PyCls TimeoutErrorT)"
  by (simp_all add: fresh_def bare_on_def pyok_def k_quiet_def k_demo_def object_attrs_def object_310_def object_311_def)

end
