(* ===== verification/Traces.thy ===== *)
theory Traces
  imports Effects
begin

text \<open>
  Runs of several processes.  A call of the code is an event, a process is the
  list of the events its code makes, and a schedule is one list of the events
  of all processes in the order the system serves them.  The code decides
  which event comes next: the environment \<open>traceE\<close> replays a list of events
  and is stuck as soon as the code makes another call.
\<close>

section \<open>Events\<close>

text \<open>A call with its arguments and its result.\<close>

datatype ev =
    EvSemOpen string c_int c_int c_int ptr | EvSemClose nat c_int | EvSemUnlink string c_int
  | EvWait nat c_int | EvTimed nat c_long c_long c_int | EvPost nat c_int | EvGetvalue nat "c_int \<times> c_int"
  | EvShmOpen string c_int c_int c_int | EvShmUnlink string c_int | EvFchmod c_int c_int c_int
  | EvFtruncate c_int c_long c_int | EvMmap c_int c_int ptr | EvClose c_int c_int | EvPagesize c_int | EvGetpid c_int
  | EvClock "c_int \<times> c_long \<times> c_long" | EvLd8 nat c_char | EvSt8 nat c_char | EvLd32 nat c_int | EvSt32 nat c_int
  | EvMalloc nat bool | EvGil | EvPy string "pyerr option" | EvCall pyobj "pyobj list" "pyobj option \<times> pyerr option"

text \<open>An event comes with the value of \<open>errno\<close> after it.\<close>

type_synonym event = "ev \<times> c_int"

record tw =
  pend :: "event list"
  terrno :: c_int

text \<open>The next event must be the call that is made; \<open>f\<close> gives its result then.\<close>

definition answer :: "(ev \<Rightarrow> 'a option) \<Rightarrow> tw \<Rightarrow> ('a \<times> tw) sysres" where
  "answer f w = (case pend w of [] \<Rightarrow> SysBlocks
    | (v, e) # es \<Rightarrow> (case f v of Some r \<Rightarrow> Sys (r, \<lparr>pend = es, terrno = e\<rparr>) | None \<Rightarrow> SysUndef))"

definition traceE :: "tw env" where
  "traceE = \<lparr>
    x_sem_open = \<lambda>nm fl md v. answer (\<lambda>x. case x of EvSemOpen a b c d r \<Rightarrow>
      if (a, b, c, d) = (nm, fl, md, v) then Some r else None | _ \<Rightarrow> None),
    x_sem_close = \<lambda>h. answer (\<lambda>x. case x of EvSemClose h' r \<Rightarrow> if h' = h then Some r else None | _ \<Rightarrow> None),
    x_sem_unlink = \<lambda>nm. answer (\<lambda>x. case x of EvSemUnlink a r \<Rightarrow> if a = nm then Some r else None | _ \<Rightarrow> None),
    x_sem_wait = \<lambda>h. answer (\<lambda>x. case x of EvWait h' r \<Rightarrow> if h' = h then Some r else None | _ \<Rightarrow> None),
    x_sem_timedwait = \<lambda>h ts tn. answer (\<lambda>x. case x of EvTimed h' a b r \<Rightarrow>
      if (h', a, b) = (h, ts, tn) then Some r else None | _ \<Rightarrow> None),
    x_sem_post = \<lambda>h. answer (\<lambda>x. case x of EvPost h' r \<Rightarrow> if h' = h then Some r else None | _ \<Rightarrow> None),
    x_sem_getvalue = \<lambda>h. answer (\<lambda>x. case x of EvGetvalue h' r \<Rightarrow> if h' = h then Some r else None | _ \<Rightarrow> None),
    x_shm_open = \<lambda>nm fl md. answer (\<lambda>x. case x of EvShmOpen a b c r \<Rightarrow>
      if (a, b, c) = (nm, fl, md) then Some r else None | _ \<Rightarrow> None),
    x_shm_unlink = \<lambda>nm. answer (\<lambda>x. case x of EvShmUnlink a r \<Rightarrow> if a = nm then Some r else None | _ \<Rightarrow> None),
    x_fchmod = \<lambda>fd md. answer (\<lambda>x. case x of EvFchmod a b r \<Rightarrow> if (a, b) = (fd, md) then Some r else None | _ \<Rightarrow> None),
    x_ftruncate = \<lambda>fd n. answer (\<lambda>x. case x of EvFtruncate a b r \<Rightarrow> if (a, b) = (fd, n) then Some r else None | _ \<Rightarrow> None),
    x_mmap = \<lambda>n fd. answer (\<lambda>x. case x of EvMmap a b r \<Rightarrow> if (a, b) = (n, fd) then Some r else None | _ \<Rightarrow> None),
    x_close = \<lambda>fd. answer (\<lambda>x. case x of EvClose a r \<Rightarrow> if a = fd then Some r else None | _ \<Rightarrow> None),
    x_getpagesize = answer (\<lambda>x. case x of EvPagesize r \<Rightarrow> Some r | _ \<Rightarrow> None),
    x_getpid = answer (\<lambda>x. case x of EvGetpid r \<Rightarrow> Some r | _ \<Rightarrow> None),
    x_clock_gettime = answer (\<lambda>x. case x of EvClock r \<Rightarrow> Some r | _ \<Rightarrow> None),
    x_errno = terrno,
    x_strerror = \<lambda>_. [],
    x_ld8 = \<lambda>a. answer (\<lambda>x. case x of EvLd8 a' r \<Rightarrow> if a' = a then Some r else None | _ \<Rightarrow> None),
    x_st8 = \<lambda>a v. answer (\<lambda>x. case x of EvSt8 a' v' \<Rightarrow> if (a', v') = (a, v) then Some () else None | _ \<Rightarrow> None),
    x_ld32 = \<lambda>a. answer (\<lambda>x. case x of EvLd32 a' r \<Rightarrow> if a' = a then Some r else None | _ \<Rightarrow> None),
    x_st32 = \<lambda>a v. answer (\<lambda>x. case x of EvSt32 a' v' \<Rightarrow> if (a', v') = (a, v) then Some () else None | _ \<Rightarrow> None),
    x_malloc = \<lambda>n. answer (\<lambda>x. case x of EvMalloc n' r \<Rightarrow> if n' = n then Some r else None | _ \<Rightarrow> None),
    x_gil = answer (\<lambda>x. case x of EvGil \<Rightarrow> Some () | _ \<Rightarrow> None),
    x_py = \<lambda>f. answer (\<lambda>x. case x of EvPy f' r \<Rightarrow> if f' = f then Some r else None | _ \<Rightarrow> None),
    x_call = \<lambda>f as. answer (\<lambda>x. case x of EvCall f' as' r \<Rightarrow> if (f', as') = (f, as) then Some r else None | _ \<Rightarrow> None)\<rparr>"

lemma answerE:
  assumes "answer f w = Sys (r, w')"
  obtains v e where "pend w = (v, e) # pend w'" and "f v = Some r"
  using assms by (auto simp: answer_def split: list.splits option.splits prod.splits)

section \<open>The effects of events\<close>

text \<open>What an event does to the semaphore behind handle \<open>h\<close> and to the page at \<open>a\<close>.\<close>

fun ev_eff :: "nat \<Rightarrow> nat \<Rightarrow> ev \<Rightarrow> eff list" where
  "ev_eff h a (EvWait h' r) = (if h' = h then wait_eff r else [])"
| "ev_eff h a (EvTimed h' ts tn r) = (if h' = h then wait_eff r else [])"
| "ev_eff h a (EvPost h' r) = (if h' = h then post_eff r else [])"
| "ev_eff h a (EvSt8 a' v) = (if a' = a then [Mark v] else [])"
| "ev_eff h a (EvSt32 a' i) = (if a' = a + 1 then [Pid i] else [])"
| "ev_eff h a (EvGetpid i) = [Me i]"
| "ev_eff h a _ = []"

definition effs :: "nat \<Rightarrow> nat \<Rightarrow> event list \<Rightarrow> eff list" where
  "effs h a es = concat (map (ev_eff h a \<circ> fst) es)"

lemma effs_simps [simp]: "effs h a [] = []" "effs h a (x # es) = ev_eff h a (fst x) @ effs h a es"
  "effs h a (es @ fs) = effs h a es @ effs h a fs"
  by (simp_all add: effs_def)

text \<open>An event has one effect or none.\<close>

lemma ev_eff_length: "length (ev_eff h a x) \<le> 1"
  by (cases x) (simp_all add: wait_eff_def post_eff_def)

lemma ev_eff_cases:
  obtains "ev_eff h a x = []" | e where "ev_eff h a x = [e]"
  using ev_eff_length [of h a x] by (cases "ev_eff h a x") auto

section \<open>The replaying environment\<close>

text \<open>The events of \<open>start\<close> that are no longer pending have the effects \<open>L\<close>.\<close>

definition replayed :: "event list \<Rightarrow> nat \<Rightarrow> nat \<Rightarrow> eff list \<Rightarrow> tw \<Rightarrow> bool" where
  "replayed start h a L w = (\<exists>es. start = es @ pend w \<and> L = effs h a es)"

lemma replayed_step:
  assumes "replayed start h a L w" and "pend w = (v, e) # pend w'" and "D = ev_eff h a v"
  shows "replayed start h a (L @ D) w'"
proof -
  obtain es where "start = (es @ [(v, e)]) @ pend w'" "L = effs h a es" using assms(1,2) by (auto simp: replayed_def)
  then show ?thesis unfolding replayed_def assms(3) by (intro exI [of _ "es @ [(v, e)]"]) simp
qed

lemma replayed_skip: "replayed start h a L w \<Longrightarrow> pend w = (v, e) # pend w' \<Longrightarrow> ev_eff h a v = [] \<Longrightarrow>
    replayed start h a L w'"
  using replayed_step [of start h a L w v e w' "[]"] by simp

interpretation te: effect_law traceE "replayed start" for start
  by unfold_locales
    (auto simp: traceE_def elim!: answerE split: ev.splits if_splits intro: replayed_step replayed_skip)

text \<open>The run of a part of the code on exactly the events \<open>es\<close>.\<close>

definition runs_on :: "(tw, 'a) cprog \<Rightarrow> tw cst \<Rightarrow> event list \<Rightarrow> 'a \<Rightarrow> tw cst \<Rightarrow> bool" where
  "runs_on m c es v c' = (m (c\<lparr>wld := (wld c)\<lparr>pend := es\<rparr>\<rparr>) = Ret v c' \<and> pend (wld c') = [])"

lemma runs_start: "conn n h a c \<Longrightarrow> conn n h a (c\<lparr>wld := (wld c)\<lparr>pend := es\<rparr>\<rparr>)"
  "replayed es h a [] (wld (c\<lparr>wld := (wld c)\<lparr>pend := es\<rparr>\<rparr>))"
  by (simp_all add: conn_def replayed_def)

lemma runs_end: "runs_on m c es r c' \<Longrightarrow> replayed es h a L (wld c') \<Longrightarrow> L = effs h a es"
  by (simp add: runs_on_def replayed_def)

lemma lock_events:
  assumes "runs_on (lock_f traceE n oa) c es r c'" and "conn n h a c"
  shows "effs h a es \<in> lock_effs r" and "conn n h a c'"
proof -
  have m: "lock_f traceE n oa (c\<lparr>wld := (wld c)\<lparr>pend := es\<rparr>\<rparr>) = Ret r c'" using assms(1) by (simp add: runs_on_def)
  have "conn n h a c' \<and> (\<exists>x\<in>lock_effs r. replayed es h a ([] @ x) (wld c'))"
    by (rule te.lock_hist [OF m runs_start(1) [OF assms(2)] runs_start(2)])
  then show "effs h a es \<in> lock_effs r" "conn n h a c'" using runs_end [OF assms(1)] by auto
qed

lemma unlock_events:
  assumes "runs_on (unlock_f traceE n) c es r c'" and "conn n h a c"
  shows "effs h a es \<in> unlock_effs r" and "conn n h a c'"
proof -
  have m: "unlock_f traceE n (c\<lparr>wld := (wld c)\<lparr>pend := es\<rparr>\<rparr>) = Ret r c'" using assms(1) by (simp add: runs_on_def)
  have "conn n h a c' \<and> (\<exists>x\<in>unlock_effs r. replayed es h a ([] @ x) (wld c'))"
    by (rule te.unlock_hist [OF m runs_start(1) [OF assms(2)] runs_start(2)])
  then show "effs h a es \<in> unlock_effs r" "conn n h a c'" using runs_end [OF assms(1)] by auto
qed

text \<open>The queries have no effects.\<close>

definition queries :: "nat \<Rightarrow> (tw, c_int) cprog list" where
  "queries n = [get_value_f traceE n, get_pid_f traceE n, get_destroyed_f traceE n]"

lemma query_events:
  assumes "runs_on m c es r c'" and "conn n h a c" and "m \<in> set (queries n)"
  shows "effs h a es = []" and "conn n h a c'"
proof -
  have q: "te.N es m" using assms(3) te.N_get_value te.N_get_pid te.N_get_destroyed by (auto simp: queries_def)
  have m: "m (c\<lparr>wld := (wld c)\<lparr>pend := es\<rparr>\<rparr>) = Ret r c'" using assms(1) by (simp add: runs_on_def)
  have "conn n h a c' \<and> replayed es h a [] (wld c')"
    by (rule te.neutral_hist [OF q m runs_start(1) [OF assms(2)] runs_start(2)])
  then show "effs h a es = []" "conn n h a c'" using runs_end [OF assms(1)] by auto
qed

end
