(* ===== verification/Schedules.thy ===== *)
theory Schedules
  imports Traces
begin

text \<open>
  Processes that share a lock, and the schedules of their calls.  A process is
  a client of its lock object: it runs \<open>lock\<close>, \<open>unlock\<close> and the queries of the
  model one after the other, and any other code between them that leaves the
  object and the shared lock alone.  The abstract lock of a schedule is a mutex
  with an owner; the byte and the pid are what its owner wrote since it took it.
\<close>

section \<open>Clients\<close>

text \<open>Code that keeps object \<open>n\<close> connected, and whose calls have no effect on its lock.\<close>

definition leaves :: "nat \<Rightarrow> tw cst \<Rightarrow> event list \<Rightarrow> tw cst \<Rightarrow> bool" where
  "leaves n c ds c1 = (\<forall>h a. conn n h a c \<longrightarrow> conn n h a c1 \<and> set (effs h a ds) \<subseteq> range Me)"

text \<open>
  The client of object \<open>n\<close>, from state \<open>c\<close> to \<open>c'\<close>, with the events \<open>es\<close>; the
  two flags say whether it has the lock before and after.  A \<open>strict\<close> client
  calls \<open>unlock\<close> only while it has the lock.
\<close>

inductive client :: "bool \<Rightarrow> nat \<Rightarrow> tw cst \<Rightarrow> bool \<Rightarrow> event list \<Rightarrow> bool \<Rightarrow> tw cst \<Rightarrow> bool" for strict n where
  stop: "client strict n c b [] b c"
| code: "leaves n c ds c1 \<Longrightarrow> client strict n c1 b es b' c' \<Longrightarrow> client strict n c b (ds @ es) b' c'"
| lock: "runs_on (lock_f traceE n oa) c es r c1 \<Longrightarrow> client strict n c1 (r \<noteq> - 1) fs b' c' \<Longrightarrow>
    client strict n c False (es @ fs) b' c'"
| unlock: "runs_on (unlock_f traceE n) c es r c1 \<Longrightarrow> strict \<longrightarrow> b \<Longrightarrow> client strict n c1 (b \<and> r \<noteq> 0) fs b' c' \<Longrightarrow>
    client strict n c b (es @ fs) b' c'"
| query: "runs_on m c es r c1 \<Longrightarrow> m \<in> set (queries n) \<Longrightarrow> client strict n c1 b fs b' c' \<Longrightarrow>
    client strict n c b (es @ fs) b' c'"

text \<open>A process that may be in the middle of a call: its events can be continued
  to a run that ends.\<close>

definition client_prefix :: "bool \<Rightarrow> nat \<Rightarrow> tw cst \<Rightarrow> event list \<Rightarrow> bool" where
  "client_prefix strict n c es = (\<exists>fs b c'. client strict n c False (es @ fs) b c')"

text \<open>
  The discipline of effects: the permit is taken when it is not held and given
  back when it is, and only a process that holds it writes to the page.
\<close>

fun disc :: "bool \<Rightarrow> eff list \<Rightarrow> bool option" where
  "disc b [] = Some b"
| "disc b (Take # L) = (if b then None else disc True L)"
| "disc b (Give # L) = (if b then disc False L else None)"
| "disc b (Mark v # L) = (if b then disc b L else None)"
| "disc b (Pid i # L) = (if b then disc b L else None)"
| "disc b (Me i # L) = disc b L"

lemma disc_append: "disc b (L @ K) = (case disc b L of None \<Rightarrow> None | Some b' \<Rightarrow> disc b' K)"
  by (induction b L rule: disc.induct) auto

lemma disc_me: "set L \<subseteq> range Me \<Longrightarrow> disc b L = Some b"
  by (induction L) auto

lemma lock_disc: "L \<in> lock_effs r \<Longrightarrow> disc False L = Some (r \<noteq> - 1)"
  by (auto simp: lock_effs_def split: if_splits)

lemma unlock_disc: "L \<in> unlock_effs r \<Longrightarrow> disc True L = Some (r \<noteq> 0)"
  by (auto simp: unlock_effs_def split: if_splits)

text \<open>A strict client keeps the discipline, and has the lock between two calls exactly
  when it holds the permit.\<close>

lemma client_disc:
  assumes "client True n c b es b' c'" and "conn n h a c"
  shows "disc b (effs h a es) = Some b' \<and> conn n h a c'"
  using assms
proof (induction rule: client.induct)
  case (code c ds c1 b es b' c')
  then show ?case by (simp add: leaves_def disc_append disc_me)
next
  case (lock oa c es r c1 fs b' c')
  then show ?case using lock_events [OF lock(1,4)] by (simp add: disc_append lock_disc)
next
  case (unlock c es r c1 b fs b' c')
  then show ?case using unlock_events [OF unlock(1,5)] by (simp add: disc_append unlock_disc)
next
  case (query m c es r c1 b fs b' c')
  then show ?case using query_events [OF query(1,5,2)] by simp
qed simp

lemma prefix_disc: "client_prefix True n c es \<Longrightarrow> conn n h a c \<Longrightarrow> disc False (effs h a es) \<noteq> None"
  by (auto simp: client_prefix_def disc_append dest!: client_disc split: option.splits)

section \<open>Schedules\<close>

text \<open>The shared lock: the count of the semaphore, the byte and the pid.\<close>

record shared =
  s_cnt :: nat
  s_byte :: c_char
  s_pid :: c_int

text \<open>
  A process makes the call \<open>x\<close>: None when the system cannot give that result.
  \<open>h\<close> and \<open>a\<close> are the handle and the address through which the process reaches
  the shared semaphore and the shared page, \<open>me\<close> is its pid.
\<close>

fun sh_step :: "nat \<Rightarrow> nat \<Rightarrow> c_int \<Rightarrow> ev \<Rightarrow> shared \<Rightarrow> shared option" where
  "sh_step h a me (EvWait h' r) s = (if h' \<noteq> h \<or> r = - 1 then Some s
    else if s_cnt s = 0 then None else Some (s\<lparr>s_cnt := s_cnt s - 1\<rparr>))"
| "sh_step h a me (EvTimed h' ts tn r) s = (if h' \<noteq> h \<or> r = - 1 then Some s
    else if s_cnt s = 0 then None else Some (s\<lparr>s_cnt := s_cnt s - 1\<rparr>))"
| "sh_step h a me (EvPost h' r) s = (if h' \<noteq> h \<or> r \<noteq> 0 then Some s else Some (s\<lparr>s_cnt := s_cnt s + 1\<rparr>))"
| "sh_step h a me (EvGetvalue h' v) s = (if h' = h \<and> fst v = 0 \<and> snd v \<noteq> of_nat (s_cnt s) then None else Some s)"
| "sh_step h a me (EvLd8 a' v) s = (if a' = a \<and> v \<noteq> s_byte s then None else Some s)"
| "sh_step h a me (EvSt8 a' v) s = (if a' = a then Some (s\<lparr>s_byte := v\<rparr>) else Some s)"
| "sh_step h a me (EvLd32 a' v) s = (if a' = a + 1 \<and> v \<noteq> s_pid s then None else Some s)"
| "sh_step h a me (EvSt32 a' v) s = (if a' = a + 1 then Some (s\<lparr>s_pid := v\<rparr>) else Some s)"
| "sh_step h a me (EvGetpid i) s = (if i = me then Some s else None)"
| "sh_step h a me _ s = Some s"

type_synonym schedule = "(nat \<times> event) list"

text \<open>The schedule \<open>T\<close> of processes with handles \<open>H\<close>, addresses \<open>A\<close> and pids \<open>M\<close>.\<close>

fun sh_run :: "(nat \<Rightarrow> nat) \<Rightarrow> (nat \<Rightarrow> nat) \<Rightarrow> (nat \<Rightarrow> c_int) \<Rightarrow> schedule \<Rightarrow> shared \<Rightarrow> shared option" where
  "sh_run H A M [] s = Some s"
| "sh_run H A M ((p, x) # T) s =
    (case sh_step (H p) (A p) (M p) (fst x) s of None \<Rightarrow> None | Some s' \<Rightarrow> sh_run H A M T s')"

definition proj :: "nat \<Rightarrow> schedule \<Rightarrow> event list" where
  "proj p T = map snd (filter (\<lambda>x. fst x = p) T)"

lemma proj_simps [simp]: "proj p [] = []" "proj p (T @ U) = proj p T @ proj p U"
  "proj p (x # T) = (if fst x = p then snd x # proj p T else proj p T)"
  by (simp_all add: proj_def)

lemma sh_run_append: "sh_run H A M (T @ U) s = (case sh_run H A M T s of None \<Rightarrow> None | Some s' \<Rightarrow> sh_run H A M U s')"
  by (induction T arbitrary: s) (auto split: option.split)

text \<open>The shared lock changes by the effects of the events.\<close>

fun eff_step :: "c_int \<Rightarrow> eff \<Rightarrow> shared \<Rightarrow> shared option" where
  "eff_step me Take s = (if s_cnt s = 0 then None else Some (s\<lparr>s_cnt := s_cnt s - 1\<rparr>))"
| "eff_step me Give s = Some (s\<lparr>s_cnt := s_cnt s + 1\<rparr>)"
| "eff_step me (Mark v) s = Some (s\<lparr>s_byte := v\<rparr>)"
| "eff_step me (Pid i) s = Some (s\<lparr>s_pid := i\<rparr>)"
| "eff_step me (Me i) s = (if i = me then Some s else None)"

lemma sh_step_eff:
  assumes "sh_step h a me x s = Some s'"
  shows "ev_eff h a x = [] \<Longrightarrow> s' = s" and "ev_eff h a x = [e] \<Longrightarrow> eff_step me e s = Some s'"
  using assms by (cases x; auto simp: wait_eff_def post_eff_def split: if_splits)+

lemma getpid_is_me: "sh_run H A M T s = Some s' \<Longrightarrow> Me i \<in> set (effs (H p) (A p) (proj p T)) \<Longrightarrow> i = M p"
proof (induction H A M T s rule: sh_run.induct)
  case (2 H A M q x T s)
  obtain s1 where s1: "sh_step (H q) (A q) (M q) (fst x) s = Some s1" "sh_run H A M T s1 = Some s'"
    using 2(2) by (auto split: option.splits)
  have "i = M p" if "q = p" "Me i \<in> set (ev_eff (H p) (A p) (fst x))"
    using sh_step_eff(2) [OF s1(1), of "Me i"] that by (cases rule: ev_eff_cases [of "H p" "A p" "fst x"]) (auto split: if_splits)
  then show ?case using 2(1) [OF s1(1,2)] 2(3) by (auto split: if_splits)
qed simp

section \<open>The abstract lock\<close>

datatype mutex_op = Acquire nat | Release nat

text \<open>A mutex with an owner: it is acquired when it is free, and released by its
  owner.\<close>

fun mutex_run :: "nat option \<Rightarrow> mutex_op list \<Rightarrow> nat option option" where
  "mutex_run q [] = Some q"
| "mutex_run q (Acquire p # ops) = (if q = None then mutex_run (Some p) ops else None)"
| "mutex_run q (Release p # ops) = (if q = Some p then mutex_run None ops else None)"

lemma mutex_run_append: "mutex_run q (xs @ ys) = (case mutex_run q xs of None \<Rightarrow> None | Some q' \<Rightarrow> mutex_run q' ys)"
  by (induction q xs rule: mutex_run.induct) auto

text \<open>What a schedule does to the abstract lock.\<close>

definition abs_op :: "(nat \<Rightarrow> nat) \<Rightarrow> (nat \<Rightarrow> nat) \<Rightarrow> nat \<times> event \<Rightarrow> mutex_op list" where
  "abs_op H A y = (case y of (p, x) \<Rightarrow>
    if ev_eff (H p) (A p) (fst x) = [Take] then [Acquire p]
    else if ev_eff (H p) (A p) (fst x) = [Give] then [Release p] else [])"

definition abs_ops :: "(nat \<Rightarrow> nat) \<Rightarrow> (nat \<Rightarrow> nat) \<Rightarrow> schedule \<Rightarrow> mutex_op list" where
  "abs_ops H A T = concat (map (abs_op H A) T)"

text \<open>What a process wrote to the byte and to the pid since it last took the permit.\<close>

fun look_step :: "c_char option \<times> c_int option \<Rightarrow> eff \<Rightarrow> c_char option \<times> c_int option" where
  "look_step m Take = (None, None)"
| "look_step m (Mark v) = (Some v, snd m)"
| "look_step m (Pid i) = (fst m, Some i)"
| "look_step m _ = m"

definition look :: "eff list \<Rightarrow> c_char option \<times> c_int option" where
  "look L = foldl look_step (None, None) L"

lemma look_append [simp]: "look (L @ K) = foldl look_step (look L) K"
  by (simp add: look_def)

definition shown :: "c_char option \<times> c_int option \<Rightarrow> shared \<Rightarrow> bool" where
  "shown m s = ((\<forall>v. fst m = Some v \<longrightarrow> s_byte s = v) \<and> (\<forall>i. snd m = Some i \<longrightarrow> s_pid s = i))"

text \<open>The simulation relation between the shared lock after \<open>T\<close> and the abstract lock.\<close>

definition sim :: "(nat \<Rightarrow> nat) \<Rightarrow> (nat \<Rightarrow> nat) \<Rightarrow> schedule \<Rightarrow> shared \<Rightarrow> nat option \<Rightarrow> bool" where
  "sim H A T s q = (s_cnt s = (if q = None then 1 else 0)
    \<and> (\<forall>p. disc False (effs (H p) (A p) (proj p T)) = Some (q = Some p))
    \<and> (\<forall>p. q = Some p \<longrightarrow> shown (look (effs (H p) (A p) (proj p T))) s))"

lemma sim_step:
  assumes "sim H A T s q" and "sh_step (H p) (A p) (M p) (fst x) s = Some s'"
    and "disc False (effs (H p) (A p) (proj p (T @ [(p, x)]))) \<noteq> None"
  shows "\<exists>q'. mutex_run q (abs_op H A (p, x)) = Some q' \<and> sim H A (T @ [(p, x)]) s' q'"
proof -
  let ?e = "ev_eff (H p) (A p) (fst x)"
  have own: "disc False (effs (H r) (A r) (proj r T)) = Some (q = Some r)" for r
    using assms(1) by (simp add: sim_def)
  have cnt: "s_cnt s = (if q = None then 1 else 0)" using assms(1) by (simp add: sim_def)
  have see: "q = Some r \<Longrightarrow> shown (look (effs (H r) (A r) (proj r T))) s" for r
    using assms(1) by (simp add: sim_def)
  have L: "effs (H r) (A r) (proj r (T @ [(p, x)])) = effs (H r) (A r) (proj r T) @ (if r = p then ?e else [])" for r
    by simp
  have d: "disc (q = Some p) ?e \<noteq> None" using assms(3) own [of p] by (simp add: disc_append)
  note st = sh_step_eff [OF assms(2)]
  show ?thesis
  proof (cases rule: ev_eff_cases [of "H p" "A p" "fst x"])
    case 1
    then have "sim H A (T @ [(p, x)]) s' q" using assms(1) st(1) unfolding sim_def L by simp
    then show ?thesis using 1 by (simp add: abs_op_def)
  next
    case (2 e)
    note s' = st(2) [OF 2]
    show ?thesis
    proof (cases e)
      case Take
      then have q: "q = None" using s' cnt by (auto split: if_splits)
      have "sim H A (T @ [(p, x)]) s' (Some p)" unfolding sim_def L disc_append own
        using s' cnt q Take 2 by (auto simp: shown_def)
      then show ?thesis using Take 2 q by (simp add: abs_op_def)
    next
      case Give
      then have q: "q = Some p" using d 2 by (auto split: if_splits)
      have "sim H A (T @ [(p, x)]) s' None" unfolding sim_def L disc_append own
        using s' cnt q Give 2 by auto
      then show ?thesis using Give 2 q by (simp add: abs_op_def)
    next
      case (Mark v)
      then have q: "q = Some p" using d 2 by (auto split: if_splits)
      have "sim H A (T @ [(p, x)]) s' q" unfolding sim_def L disc_append own
        using s' cnt q Mark 2 see [OF q] by (auto simp: shown_def)
      then show ?thesis using Mark 2 by (simp add: abs_op_def)
    next
      case (Pid i)
      then have q: "q = Some p" using d 2 by (auto split: if_splits)
      have "sim H A (T @ [(p, x)]) s' q" unfolding sim_def L disc_append own
        using s' cnt q Pid 2 see [OF q] by (auto simp: shown_def)
      then show ?thesis using Pid 2 by (simp add: abs_op_def)
    next
      case (Me i)
      then have "sim H A (T @ [(p, x)]) s' q" unfolding sim_def L disc_append own
        using s' cnt see 2 by (auto split: if_splits)
      then show ?thesis using Me 2 by (simp add: abs_op_def)
    qed
  qed
qed

lemma sim_run:
  assumes "sh_run H A M T \<lparr>s_cnt = 1, s_byte = v, s_pid = i\<rparr> = Some s"
    and "\<And>p. disc False (effs (H p) (A p) (proj p T)) \<noteq> None"
  shows "\<exists>q. mutex_run None (abs_ops H A T) = Some q \<and> sim H A T s q"
  using assms
proof (induction T arbitrary: s rule: rev_induct)
  case Nil
  then show ?case by (auto simp: abs_ops_def sim_def)
next
  case (snoc y T)
  obtain p x where y: "y = (p, x)" by (cases y)
  obtain s1 where s1: "sh_run H A M T \<lparr>s_cnt = 1, s_byte = v, s_pid = i\<rparr> = Some s1"
    "sh_step (H p) (A p) (M p) (fst x) s1 = Some s"
    using snoc.prems(1) by (auto simp: sh_run_append y split: option.splits)
  have "disc False (effs (H r) (A r) (proj r T)) \<noteq> None" for r
    using snoc.prems(2) [of r] by (auto simp: disc_append split: option.splits)
  then obtain q where q: "mutex_run None (abs_ops H A T) = Some q" "sim H A T s1 q"
    using snoc.IH [OF s1(1)] by blast
  show ?case using sim_step [where M = M, OF q(2) s1(2)] snoc.prems(2) [of p] q(1)
    by (auto simp: abs_ops_def mutex_run_append y)
qed

text \<open>Strict clients: the schedule is one of the abstract lock.\<close>

lemma strict_schedule:
  assumes "sh_run H A M T \<lparr>s_cnt = 1, s_byte = v, s_pid = i\<rparr> = Some s"
    and "\<And>p. client_prefix True (n p) (c p) (proj p T)" and "\<And>p. conn (n p) (H p) (A p) (c p)"
  shows "\<exists>q. mutex_run None (abs_ops H A T) = Some q \<and> sim H A T s q"
  by (rule sim_run [OF assms(1)]) (rule prefix_disc [OF assms(2,3)])

lemma owner_unique:
  assumes "sim H A T s q" and "client True n c False (proj p T) True c'" and "conn n (H p) (A p) c"
  shows "q = Some p"
  using client_disc [OF assms(2,3)] assms(1) by (simp add: sim_def)

text \<open>From the return of a successful \<open>lock\<close> to its next call, the caller is the owner, the
  byte says LOCKED and the pid is the caller's, whatever the others do.\<close>

lemma locked_state:
  assumes "sh_run H A M T s0 = Some s" and "sim H A T s q" and "conn n (H p) (A p) c" and "proj p T = us @ vs"
    and "client True n c False us False c1" and "runs_on (lock_f traceE n oa) c1 vs 0 c2"
  shows "q = Some p \<and> s_cnt s = 0 \<and> s_byte s = 0 \<and> s_pid s = M p"
proof -
  have u: "disc False (effs (H p) (A p) us) = Some False" "conn n (H p) (A p) c1"
    using client_disc [OF assms(5,3)] by simp_all
  obtain i where i: "effs (H p) (A p) vs = [Take, Mark 0, Me i, Pid i]"
    using lock_events(1) [OF assms(6) u(2)] by (auto simp: lock_effs_def)
  have L: "effs (H p) (A p) (proj p T) = effs (H p) (A p) us @ [Take, Mark 0, Me i, Pid i]"
    by (simp add: assms(4) i)
  have "disc False (effs (H p) (A p) (proj p T)) = Some True" by (simp add: L disc_append u(1))
  then have q: "q = Some p" using assms(2) by (simp add: sim_def)
  have "shown (look (effs (H p) (A p) (proj p T))) s" using assms(2) q by (simp add: sim_def)
  then have "shown (Some 0, Some i) s" by (simp only: L look_append) simp
  moreover have "i = M p" by (rule getpid_is_me [OF assms(1), where p = p]) (simp add: L)
  ultimately show ?thesis using assms(2) q by (simp add: sim_def shown_def)
qed

end
