(* ===== verification/Final.thy ===== *)
theory Final
  imports Schedules
begin

text \<open>
  What a destroyed lock looks like to processes that are between two calls: every
  \<open>lock\<close> and \<open>unlock\<close> first reads the byte, and until a process has seen another
  value than DESTROYED it neither waits, posts nor writes.  So the shared lock
  stays as it is.
\<close>

section \<open>Guarded events\<close>

text \<open>The event reads another value than DESTROYED from the byte at \<open>a\<close>.\<close>

fun sees :: "nat \<Rightarrow> ev \<Rightarrow> bool" where
  "sees a (EvLd8 a' v) = (a' = a \<and> v \<noteq> 0x7F)"
| "sees a _ = False"

definition acts :: "nat \<Rightarrow> nat \<Rightarrow> ev \<Rightarrow> bool" where
  "acts h a x = (\<not> set (ev_eff h a x) \<subseteq> range Me)"

text \<open>Nothing is done to the lock before the byte was seen.\<close>

primrec guarded :: "nat \<Rightarrow> nat \<Rightarrow> event list \<Rightarrow> bool" where
  "guarded h a [] = True"
| "guarded h a (x # es) = (sees a (fst x) \<or> \<not> acts h a (fst x) \<and> guarded h a es)"

lemma guarded_append: "guarded h a es \<Longrightarrow> guarded h a fs \<Longrightarrow> guarded h a (es @ fs)"
  by (induction es) auto

lemma guarded_prefix: "guarded h a (es @ fs) \<Longrightarrow> guarded h a es"
  by (induction es) auto

lemma guarded_idle: "set (effs h a es) \<subseteq> range Me \<Longrightarrow> guarded h a es"
  by (induction es) (auto simp: acts_def)

text \<open>A run that starts with the test of the marker is guarded.\<close>

lemma guarded_check:
  assumes "runs_on (exit_err traceE fn v (sq (bnd (is_destroyed traceE n) (\<lambda>b. whn b (raise_global traceE l nm args))) rest)) c es r c'"
    and "conn n h a c"
  shows "guarded h a es"
proof -
  let ?s = "c\<lparr>wld := (wld c)\<lparr>pend := es\<rparr>\<rparr>"
  have r: "exit_err traceE fn v (sq (bnd (is_destroyed traceE n) (\<lambda>b. whn b (raise_global traceE l nm args))) rest) ?s = Ret r c'"
    "pend (wld c') = []" using assms(1) by (simp_all add: runs_on_def)
  obtain x where x: "objs c n = Some x" "spin_lock_char x = Some a" "v_DESTROYED c = 0x7F"
    using assms(2) by (auto simp: conn_def)
  obtain b e es1 where es: "es = (EvLd8 a b, e) # es1"
    using r(1) x by (auto simp: exit_err_def run_defs is_destroyed_def self_rd_def ld8_def nonnull_def sysc_def traceE_def
        answer_def split: list.splits ev.splits if_splits prod.splits option.splits)
  let ?t = "c\<lparr>wld := \<lparr>pend = es1, terrno = e\<rparr>\<rparr>"
  have d: "is_destroyed traceE n ?s = Ret (b = 0x7F) ?t"
    using x by (simp add: es run_defs is_destroyed_def self_rd_def ld8_def nonnull_def sysc_def traceE_def answer_def)
  show ?thesis
  proof (cases "b = 0x7F")
    case True
    have m: "exit_err traceE fn v (sq (raise_global traceE l nm args :: (tw, unit) cprog) (ret r)) ?t = Ret r c'"
      using r(1) d True te.raise_no_ret(2) [of l nm args ?t, where 'a = unit]
      by (auto simp: exit_err_def at_label_def sq_def whn_def bnd_def split: out.splits)
    have "replayed es1 h a [] (wld ?t)" "conn n h a ?t" using assms(2) by (simp_all add: replayed_def conn_def)
    then have "replayed es1 h a [] (wld c')"
      using te.neutral_hist [OF te.N_exit [OF te.N_sq [OF te.N_raise_global te.N_ret]] m] by blast
    then have "effs h a es1 = []" using r(2) by (simp add: replayed_def)
    then show ?thesis by (intro guarded_idle) (simp add: es)
  next
    case False
    then show ?thesis by (simp add: es)
  qed
qed

lemma lock_guarded: "runs_on (lock_f traceE n oa) c es r c' \<Longrightarrow> conn n h a c \<Longrightarrow> guarded h a es"
  unfolding lock_f_def lock_check_destroyed_def Let_def by (rule guarded_check)

lemma unlock_guarded: "runs_on (unlock_f traceE n) c es r c' \<Longrightarrow> conn n h a c \<Longrightarrow> guarded h a es"
  unfolding unlock_f_def by (rule guarded_check)

lemma client_guarded:
  assumes "client strict n c b es b' c'" and "conn n h a c"
  shows "guarded h a es \<and> conn n h a c'"
  using assms
proof (induction rule: client.induct)
  case (code c ds c1 b es b' c')
  then show ?case by (simp add: leaves_def guarded_append guarded_idle)
next
  case (lock oa c es r c1 fs b' c')
  then show ?case using lock_events(2) [OF lock(1,4)] lock_guarded [OF lock(1,4)] by (simp add: guarded_append)
next
  case (unlock c es r c1 b fs b' c')
  then show ?case using unlock_events(2) [OF unlock(1,5)] unlock_guarded [OF unlock(1,5)] by (simp add: guarded_append)
next
  case (query m c es r c1 b fs b' c')
  then show ?case using query_events [OF query(1,5,2)] by (simp add: guarded_append guarded_idle)
qed simp

section \<open>Schedules on a destroyed lock\<close>

lemma idle_step: "sh_step h a me x s = Some s' \<Longrightarrow> \<not> acts h a x \<Longrightarrow> s' = s"
  using sh_step_eff [of h a me x s s'] by (cases rule: ev_eff_cases [of h a x]) (auto simp: acts_def split: if_splits)

lemma frozen:
  assumes "sh_run H A M T s = Some s'" and "s_byte s = 0x7F" and "\<And>p. guarded (H p) (A p) (proj p T)"
  shows "s' = s \<and> (\<forall>p. set (effs (H p) (A p) (proj p T)) \<subseteq> range Me)"
  using assms
proof (induction T arbitrary: s)
  case (Cons y T)
  obtain p x where y: "y = (p, x)" by (cases y)
  obtain s1 where s1: "sh_step (H p) (A p) (M p) (fst x) s = Some s1" "sh_run H A M T s1 = Some s'"
    using Cons.prems(1) by (auto simp: y split: option.splits)
  have "\<not> sees (A p) (fst x)" using s1(1) Cons.prems(2) by (cases "fst x") (auto split: if_splits)
  then have g: "\<not> acts (H p) (A p) (fst x)" "guarded (H r) (A r) (proj r T)" for r
    using Cons.prems(3) [of p] Cons.prems(3) [of r] by (auto simp: y split: if_splits)
  have "s1 = s" using idle_step [OF s1(1) g(1)] .
  then show ?case using Cons.IH [of s] s1(2) Cons.prems(2) g by (auto simp: y acts_def)
qed simp

text \<open>A process between two calls, with the lock or without it, and its events from there on.\<close>

definition resumes :: "nat \<Rightarrow> tw cst \<Rightarrow> event list \<Rightarrow> bool" where
  "resumes n c es = (\<exists>b fs b' c'. client False n c b (es @ fs) b' c')"

lemma destroyed_frozen:
  assumes "sh_run H A M T s = Some s'" and "s_byte s = 0x7F"
    and "\<And>p. resumes (n p) (c p) (proj p T)" and "\<And>p. conn (n p) (H p) (A p) (c p)"
  shows "s' = s" and "set (effs (H p) (A p) (proj p T)) \<subseteq> range Me"
proof -
  have "guarded (H p) (A p) (proj p T)" for p
    using assms(3) [of p] client_guarded [OF _ assms(4)] guarded_prefix unfolding resumes_def by blast
  from frozen [OF assms(1,2) this] show "s' = s" "set (effs (H p) (A p) (proj p T)) \<subseteq> range Me" by simp_all
qed

text \<open>A call without effects is one that failed.\<close>

lemma idle_lock_fails: "L \<in> lock_effs r \<Longrightarrow> set L \<subseteq> range Me \<Longrightarrow> r = - 1"
  by (auto simp: lock_effs_def split: if_splits)

lemma idle_unlock_fails: "L \<in> unlock_effs r \<Longrightarrow> set L \<subseteq> range Me \<Longrightarrow> r \<noteq> 0"
  by (auto simp: unlock_effs_def split: if_splits)

lemma destroyed_fails:
  assumes "set (effs h a (us @ vs)) \<subseteq> range Me" and "client False n c b us b1 c1" and "conn n h a c"
  shows "runs_on (lock_f traceE n oa) c1 vs r c2 \<Longrightarrow> r = - 1" and "runs_on (unlock_f traceE n) c1 vs r c2 \<Longrightarrow> r \<noteq> 0"
proof -
  have v: "set (effs h a vs) \<subseteq> range Me" "conn n h a c1" using assms(1) client_guarded [OF assms(2,3)] by simp_all
  show "runs_on (lock_f traceE n oa) c1 vs r c2 \<Longrightarrow> r = - 1"
    by (rule idle_lock_fails [OF lock_events(1) [OF _ v(2)] v(1)])
  show "runs_on (unlock_f traceE n) c1 vs r c2 \<Longrightarrow> r \<noteq> 0"
    by (rule idle_unlock_fails [OF unlock_events(1) [OF _ v(2)] v(1)])
qed

end
