(* ===== verification/TraceDemo.thy ===== *)
theory TraceDemo
  imports Demo Final
begin

text \<open>
  Processes that run the code on lists of events: every process has one lock
  object, connected through handle 3 and the mapping at 4096 to the shared
  semaphore and page.  The runs below are used in the schedules of the
  properties.
\<close>

definition t_demo :: "tw cst" where
  "t_demo = \<lparr>wld = \<lparr>pend = [], terrno = 0\<rparr>, objs = (\<lambda>_. None)(0 := Some lock_demo), nobj = 1,
    cmem = (\<lambda>_. None)(0 := Some (3, ''/a'')), nmem = 1, curexc = None, gil = True, mdict = dict_demo,
    bdict = (\<lambda>_. None)(''TimeoutError'' := Some (PyCls TimeoutErrorT)),
    v_LOCKED = 0, v_UNLOCKED = 1, v_DESTROYED = 0x7F, v_k = 1, cocache = empty_cache\<rparr>"

definition no_spin :: "lock_opt_args option" where
  "no_spin = Some \<lparr>pyx_n = 2, opt_timeout = - 1, opt_spin = 0\<rparr>"

text \<open>The calls of \<open>lock\<close> that takes the permit, of \<open>unlock\<close>, \<open>get_destroyed\<close> and
  \<open>destroy\<close>; \<open>b\<close> is the byte that is read, \<open>i\<close> the pid.\<close>

definition ev0 :: "ev list \<Rightarrow> event list" where
  "ev0 xs = map (\<lambda>x. (x, 0)) xs"

definition lock_check_ev :: "c_char \<Rightarrow> ev list" where
  "lock_check_ev b = [EvLd8 4096 b, EvClock (0, 0, 0)]"

definition lock_take_ev :: "c_int \<Rightarrow> ev list" where
  "lock_take_ev i = [EvWait 3 0, EvGil, EvSt8 4096 0, EvGetpid i, EvSt32 4097 i]"

definition unlock_free_ev :: "c_char \<Rightarrow> ev list" where
  "unlock_free_ev b = [EvLd8 4096 b, EvSt8 4096 1, EvLd8 4096 1, EvGetvalue 3 (0, 0)]"

definition destroy_ev :: "ev list" where
  "destroy_ev = [EvShmUnlink ''/a'' 0, EvSemUnlink ''/a'' 0, EvSt8 4096 0x7F, EvClose 4 0, EvSemClose 3 0]"

lemmas ev_defs = ev0_def lock_check_ev_def lock_take_ev_def unlock_free_ev_def destroy_ev_def

lemma ev0_simps [simp]: "ev0 [] = []" "ev0 (x # xs) = (x, 0) # ev0 xs" "ev0 (xs @ ys) = ev0 xs @ ev0 ys"
  by (simp_all add: ev0_def)

lemma answer_one [simp]: "answer f (\<lparr>pend = (v, e) # es, terrno = i\<rparr>) =
    (case f v of Some r \<Rightarrow> Sys (r, \<lparr>pend = es, terrno = e\<rparr>) | None \<Rightarrow> SysUndef)"
  by (simp add: answer_def)

lemmas t_eval = run_defs exit_err_def sysc_def nonnull_def ld8_def st8_def ld32_def st32_def self_rd_def self_wr_def
  traceE_def t_demo_def lock_demo_def need_gil_def unblock_threads_def block_threads_def c_string_def c_free_def

lemma t_conn: "conn 0 3 4096 t_demo"
  by (simp add: conn_def t_demo_def lock_demo_def)

lemma t_lock: "b \<noteq> 0x7F \<Longrightarrow> runs_on (lock_f traceE 0 no_spin) t_demo (ev0 (lock_check_ev b @ lock_take_ev i)) 0 t_demo"
  by (simp add: runs_on_def lock_f_def lock_check_destroyed_def is_destroyed_def get_current_time_ms_def
      lock_wait_def mark_locked_def lock_set_pid_def no_spin_def lock_timeout_def lock_spin_def lock_check_ev_def lock_take_ev_def t_eval)

lemma t_unlock: "b \<noteq> 0x7F \<Longrightarrow> runs_on (unlock_f traceE 0) t_demo (ev0 (unlock_free_ev b @ [EvPost 3 0])) 0 t_demo"
  by (simp add: runs_on_def unlock_f_def get_value_f_def is_destroyed_def unlock_free_ev_def t_eval)

lemma t_get_destroyed: "b \<noteq> 0x7F \<Longrightarrow> runs_on (get_destroyed_f traceE 0) t_demo (ev0 [EvLd8 4096 b]) 0 t_demo"
  by (simp add: runs_on_def get_destroyed_f_def is_destroyed_def t_eval)

lemma t_destroy: "\<exists>c'. runs_on (destroy_f traceE 0) t_demo (ev0 destroy_ev) 0 c'"
  by (simp add: runs_on_def destroy_f_def destroy_check_def destroy_shm_unlink_def destroy_sem_unlink_def
      destroy_unlink_def destroy_free_def destroy_mark_def destroy_close_def destroy_ev_def t_eval)

lemma t_is_destroyed: "runs_on (get_destroyed_f traceE 0) t_demo (ev0 [EvLd8 4096 0x7F]) 1 t_demo"
  by (simp add: runs_on_def get_destroyed_f_def is_destroyed_def t_eval)

text \<open>The process \<open>p\<close> makes these calls one after the other.\<close>

definition acts :: "nat \<Rightarrow> ev list \<Rightarrow> schedule" where
  "acts p xs = map (Pair p) (ev0 xs)"

text \<open>The same runs as steps of a client.\<close>

lemma t_client_lock: "b \<noteq> 0x7F \<Longrightarrow> client strict 0 t_demo True fs b' c' \<Longrightarrow>
    client strict 0 t_demo False (ev0 (lock_check_ev b @ lock_take_ev i) @ fs) b' c'"
  by (rule client.lock [OF t_lock]) simp_all

lemma t_client_unlock: "b \<noteq> 0x7F \<Longrightarrow> strict \<longrightarrow> a \<Longrightarrow> client strict 0 t_demo False fs b' c' \<Longrightarrow>
    client strict 0 t_demo a (ev0 (unlock_free_ev b @ [EvPost 3 0]) @ fs) b' c'"
  by (rule client.unlock [OF t_unlock]) simp_all

text \<open>Process \<open>p\<close> has the pid 42 + \<open>p\<close>.  Process 0 has taken the lock, process 1 is in \<open>lock\<close>
  before its wait.\<close>

definition t_pid :: "nat \<Rightarrow> c_int" where
  "t_pid p = 42 + of_nat p"

definition T_demo :: schedule where
  "T_demo = map (Pair 0) (ev0 (lock_check_ev 1 @ lock_take_ev 42)) @ map (Pair 1) (ev0 (lock_check_ev 0))"

lemma proj_pair [simp]: "proj p (map (Pair q) es) = (if q = p then es else [])"
  by (induction es) (simp_all split: if_splits)

lemma T_demo_proj: "proj p T_demo = (if p = 0 then ev0 (lock_check_ev 1 @ lock_take_ev 42)
    else if p = 1 then ev0 (lock_check_ev 0) else [])"
  by (simp add: T_demo_def)

lemma T_demo_run: "sh_run (\<lambda>_. 3) (\<lambda>_. 4096) t_pid T_demo \<lparr>s_cnt = 1, s_byte = 1, s_pid = 0\<rparr>
    = Some \<lparr>s_cnt = 0, s_byte = 0, s_pid = 42\<rparr>"
  by (simp add: T_demo_def ev_defs wait_eff_def t_pid_def)

lemma t_locks: "b \<noteq> 0x7F \<Longrightarrow> client strict 0 t_demo False (ev0 (lock_check_ev b @ lock_take_ev i)) True t_demo"
  using t_client_lock [OF _ client.stop, where b = b and i = i] by simp

lemma T_demo_prefix: "client_prefix True 0 t_demo (proj p T_demo)"
proof -
  have "client_prefix True 0 t_demo (ev0 (lock_check_ev 0))"
    using t_locks [where b = 0 and i = 43] by (auto simp: client_prefix_def)
  moreover have "client_prefix True 0 t_demo (ev0 (lock_check_ev 1 @ lock_take_ev 42))"
    using t_locks [where b = 1 and i = 42] unfolding client_prefix_def by (intro exI [of _ "[]"]) auto
  moreover have "client_prefix True 0 t_demo []"
    using client.stop [of True 0 t_demo False] unfolding client_prefix_def by (intro exI [of _ "[]"]) auto
  ultimately show ?thesis by (simp only: T_demo_proj if_split) simp
qed

text \<open>A call of \<open>lock\<close> that finds the marker, and raises SemaphoreDestroyedException.\<close>

definition refuse_ev :: "ev list" where
  "refuse_ev = [EvLd8 4096 0x7F, EvPy ''_PyDict_GetItem_KnownHash'' None, EvPy ''PyTuple_New'' None,
    EvPy ''Py_EnterRecursiveCall'' None, EvPy ''tp_call'' None, EvPy ''PyCode_NewEmpty'' None, EvMalloc 1024 True,
    EvPy ''PyFrame_New'' None, EvPy ''PyTraceBack_Here'' None]"

lemma empty_cache_simps [simp]: "pyx_find_code_object empty_cache l = None" "cc_entries empty_cache = None"
  "cc_max empty_cache = 0"
  by (simp_all add: empty_cache_def pyx_find_code_object_def)

lemma t_refuse: "\<exists>c'. runs_on (lock_f traceE 0 no_spin) t_demo (ev0 refuse_ev) (- 1) c'"
  by (simp add: runs_on_def lock_f_def lock_check_destroyed_def is_destroyed_def raise_global_def pyx_GetModuleGlobalName_def
      call_args_def pyx_PyObject_CallOneArg_def pyx_PyObject_Call_def pyx_call_checked_def call_slot_def pyx_Raise_def
      pyx_AddTraceback_def pyx_CreateCodeObject_def traceback_here_def cache_alloc_def capi_def chk_def set_err_def
      no_spin_def lock_timeout_def lock_spin_def refuse_ev_def dict_demo_def t_eval)

lemma t_refuse_resumes: "resumes 0 t_demo (proj p (map (Pair 1) (ev0 refuse_ev)))"
proof -
  obtain c' where r: "runs_on (lock_f traceE 0 no_spin) t_demo (ev0 refuse_ev) (- 1) c'" using t_refuse by blast
  have "client False 0 t_demo False (ev0 refuse_ev) False c'"
    using client.lock [OF r, of False "[]" False c'] client.stop by simp
  then have "resumes 0 t_demo (ev0 refuse_ev)" unfolding resumes_def by (intro exI [of _ "[]"] exI) auto
  moreover have "resumes 0 t_demo []" unfolding resumes_def by (intro exI [of _ "[]"] exI) (auto intro: client.stop)
  ultimately show ?thesis by simp
qed

end
