(* ===== verification/NameCache.thy ===== *)
theory NameCache
  imports ErrProto
begin

text \<open>
  The caches of \<open>__Pyx_GetModuleGlobalName\<close>: every place of the code that looks
  a name up in the module's dictionary keeps the last result together with the
  version tag that the dictionary had, and uses it while the tag is the same.
  The lookup without a cache, \<open>pyx_GetModuleGlobalName\<close>, is the one that the other
  theories use; here it is shown that a cached lookup is the same, in every state
  that lookups and writes of the dictionary reach, if no lookup in the dictionary
  has failed with an exception.
\<close>

section \<open>State\<close>

text \<open>The static variables of a place: \<open>__pyx_dict_version\<close> and
  \<open>__pyx_dict_cached_value\<close> (NULL is None).\<close>

record dict_cache =
  dict_version :: c_long
  dict_cached_value :: "pyobj option"

text \<open>A process with the version tag of the module's dictionary and the caches of
  the places, which are numbered.\<close>

record 'w vst =
  proc :: "'w cst"
  ma_version_tag :: c_long
  site :: "nat \<Rightarrow> dict_cache"

definition on_proc :: "('w, 'a) cprog \<Rightarrow> ('w vst, 'a) prog" where
  "on_proc m s = (case m (proc s) of Ret a c \<Rightarrow> Ret a (s\<lparr>proc := c\<rparr>)
    | Goto p l c \<Rightarrow> Goto p l (s\<lparr>proc := c\<rparr>) | Stuck u \<Rightarrow> Stuck u)"

section \<open>Lookups\<close>

text \<open>\<open>__PYX_UPDATE_DICT_CACHE\<close> on the cache of place \<open>k\<close>.\<close>

definition update_dict_cache :: "nat \<Rightarrow> pyobj option \<Rightarrow> ('w vst, unit) prog" where
  "update_dict_cache k v = upd (\<lambda>s. s\<lparr>site := (site s)(k :=
    \<lparr>dict_version = ma_version_tag s, dict_cached_value = v\<rparr>)\<rparr>)"

text \<open>\<open>_PyDict_GetItem_KnownHash\<close>: the value or NULL, and whether it failed.\<close>

definition dict_getitem :: "'w env \<Rightarrow> string \<Rightarrow> ('w, bool \<times> pyobj option) cprog" where
  "dict_getitem E name = bnd (capi E ''_PyDict_GetItem_KnownHash'' ()) (\<lambda>r. case r of
      None \<Rightarrow> ret (True, None)
    | Some _ \<Rightarrow> bnd (rd (\<lambda>s. mdict s name)) (\<lambda>v. ret (False, v)))"

text \<open>\<open>__Pyx__GetModuleGlobalName\<close>: the cache is written before the error is looked at.\<close>

definition get_and_cache :: "'w env \<Rightarrow> nat \<Rightarrow> string \<Rightarrow> ('w vst, pyobj option) prog" where
  "get_and_cache E k name =
    bnd (on_proc (dict_getitem E name)) (\<lambda>(failed, result).
    sq (update_dict_cache k result)
    (case result of
      Some v \<Rightarrow> ret (Some v)
    | None \<Rightarrow> if failed then ret None else on_proc (pyx_GetBuiltinName E name)))"

text \<open>The macro \<open>__Pyx_GetModuleGlobalName\<close> at place \<open>k\<close>.\<close>

definition get_cached :: "'w env \<Rightarrow> nat \<Rightarrow> string \<Rightarrow> ('w vst, pyobj option) prog" where
  "get_cached E k name =
    bnd (rd (\<lambda>s. (dict_version (site s k) = ma_version_tag s, dict_cached_value (site s k)))) (\<lambda>(hit, v).
    if hit then (case v of
        Some x \<Rightarrow> ret (Some x)
      | None \<Rightarrow> on_proc (pyx_GetBuiltinName E name))
    else get_and_cache E k name)"

section \<open>The states that are reached\<close>

text \<open>
  Place \<open>k\<close> looks up the name \<open>nm k\<close>.  The process starts with empty caches,
  whose version 0 no dictionary has; a write gives the dictionary a tag it never had; anything else
  that leaves the dictionary alone may happen in between.
\<close>

definition cold :: "'w vst \<Rightarrow> bool" where
  "cold s = (ma_version_tag s \<noteq> 0 \<and> site s = (\<lambda>_. \<lparr>dict_version = 0, dict_cached_value = None\<rparr>))"

inductive dict_reach :: "'w env \<Rightarrow> (nat \<Rightarrow> string) \<Rightarrow> 'w vst \<Rightarrow> bool" for E nm where
  start: "cold s \<Longrightarrow> dict_reach E nm s"
| other: "dict_reach E nm s \<Longrightarrow> mdict c = mdict (proc s) \<Longrightarrow> dict_reach E nm (s\<lparr>proc := c\<rparr>)"
| lookup: "dict_reach E nm s \<Longrightarrow> on_proc (dict_getitem E (nm k)) s = Ret (False, v) t \<Longrightarrow>
    get_cached E k (nm k) s = Ret r u \<Longrightarrow> dict_reach E nm u"
| store: "dict_reach E nm s \<Longrightarrow> (\<forall>k. dict_version (site s k) \<noteq> tag) \<Longrightarrow>
    dict_reach E nm (s\<lparr>proc := (proc s)\<lparr>mdict := (mdict (proc s))(x := y)\<rparr>, ma_version_tag := tag\<rparr>)"

text \<open>A cache with the tag of the dictionary holds what the dictionary has.\<close>

definition caches_ok :: "(nat \<Rightarrow> string) \<Rightarrow> 'w vst \<Rightarrow> bool" where
  "caches_ok nm s = (\<forall>k. dict_version (site s k) = ma_version_tag s \<longrightarrow>
    dict_cached_value (site s k) = mdict (proc s) (nm k))"

lemma keeps_mdict:
  "capi E f v c = Ret r c' \<Longrightarrow> mdict c' = mdict c" "pyx_GetBuiltinName E name c = Ret r' c' \<Longrightarrow> mdict c' = mdict c"
proof -
  show 1: "mdict c' = mdict c" if "capi E f v c = Ret r c'" for f v c r c'
    using that by (auto simp: capi_def need_gil_def sysc_def set_pyerr_def run_defs
        split: out.splits if_splits sysres.splits option.splits)
  show "pyx_GetBuiltinName E name c = Ret r' c' \<Longrightarrow> mdict c' = mdict c"
    by (auto simp: pyx_GetBuiltinName_def set_err_def need_gil_def bnd_def [of "capi E f v" for f v] run_defs
        split: out.splits option.splits if_splits dest!: 1)
qed

lemma dict_getitem_value: "dict_getitem E name c = Ret (False, v) c' \<Longrightarrow> v = mdict c' name \<and> mdict c' = mdict c"
  by (auto simp: dict_getitem_def bnd_def [of "capi E f v" for f v] run_defs split: out.splits option.splits dest: keeps_mdict)

lemma on_proc_Ret: "on_proc m s = Ret a t \<longleftrightarrow> (\<exists>c. m (proc s) = Ret a c \<and> t = s\<lparr>proc := c\<rparr>)"
  by (auto simp: on_proc_def split: out.splits)

lemma lookup_keeps:
  assumes "caches_ok nm s" and "on_proc (dict_getitem E (nm k)) s = Ret (False, v) t" and "get_cached E k (nm k) s = Ret r u"
  shows "caches_ok nm u"
proof (cases "dict_version (site s k) = ma_version_tag s")
  case True
  then have "u = s \<or> (\<exists>c'. u = s\<lparr>proc := c'\<rparr> \<and> mdict c' = mdict (proc s))"
    using assms(3) by (auto simp: get_cached_def run_defs on_proc_Ret split: option.splits dest: keeps_mdict)
  then show ?thesis using assms(1) by (auto simp: caches_ok_def)
next
  case False
  obtain c where c: "dict_getitem E (nm k) (proc s) = Ret (False, v) c" "t = s\<lparr>proc := c\<rparr>"
    using assms(2) by (auto simp: on_proc_Ret)
  let ?u = "t\<lparr>site := (site s)(k := \<lparr>dict_version = ma_version_tag s, dict_cached_value = v\<rparr>)\<rparr>"
  have v: "v = mdict c (nm k)" "mdict c = mdict (proc s)" using dict_getitem_value [OF c(1)] by auto
  have "(case v of Some x \<Rightarrow> ret (Some x) | None \<Rightarrow> on_proc (pyx_GetBuiltinName E (nm k))) ?u = Ret r u"
    using assms(2,3) False c(2) by (simp add: get_cached_def get_and_cache_def update_dict_cache_def run_defs cong: option.case_cong)
  then have "site u = site ?u \<and> ma_version_tag u = ma_version_tag s \<and> mdict (proc u) = mdict c"
    using c(2) by (auto simp: run_defs on_proc_Ret split: option.splits dest: keeps_mdict)
  then show ?thesis using assms(1) v c(2) by (auto simp: caches_ok_def)
qed

lemma reach_caches_ok: "dict_reach E nm s \<Longrightarrow> caches_ok nm s"
proof (induction rule: dict_reach.induct)
  case (start s)
  then show ?case by (auto simp: caches_ok_def cold_def)
next
  case (other s c)
  show ?case using other(2,3) unfolding caches_ok_def by simp
next
  case (lookup s k v t r u)
  show ?case by (rule lookup_keeps [OF lookup(4,2,3)])
next
  case (store s tag x y)
  then show ?case by (simp add: caches_ok_def)
qed

section \<open>The cached lookup is the lookup\<close>

text \<open>When the dictionary can be read (the call succeeds and leaves the world as it is), the
  result and the process afterwards are those of the lookup without a cache.\<close>

lemma cached_is_lookup:
  assumes "caches_ok nm s" and "capi E ''_PyDict_GetItem_KnownHash'' () (proc s) = Ret (Some ()) (proc s)"
  shows "\<exists>f. (\<forall>j. j \<noteq> k \<longrightarrow> f j = site s j)
    \<and> get_cached E k (nm k) s = on_proc (pyx_GetModuleGlobalName E (nm k)) (s\<lparr>site := f\<rparr>)"
proof (cases "dict_version (site s k) = ma_version_tag s")
  case True
  then have v: "dict_cached_value (site s k) = mdict (proc s) (nm k)" using assms(1) by (simp add: caches_ok_def)
  have "get_cached E k (nm k) s = on_proc (pyx_GetModuleGlobalName E (nm k)) s"
    by (cases "mdict (proc s) (nm k)")
      (simp_all add: get_cached_def pyx_GetModuleGlobalName_def on_proc_def assms(2) True v run_defs)
  then show ?thesis by (intro exI [of _ "site s"]) simp
next
  case False
  let ?f = "(site s)(k := \<lparr>dict_version = ma_version_tag s, dict_cached_value = mdict (proc s) (nm k)\<rparr>)"
  have "get_cached E k (nm k) s = on_proc (pyx_GetModuleGlobalName E (nm k)) (s\<lparr>site := ?f\<rparr>)"
    by (cases "mdict (proc s) (nm k)")
      (simp_all add: get_cached_def get_and_cache_def dict_getitem_def update_dict_cache_def pyx_GetModuleGlobalName_def
        on_proc_def assms(2) False run_defs)
  then show ?thesis by (intro exI [of _ ?f]) simp
qed

text \<open>A lookup that failed leaves a cache that says the name is not in the dictionary.\<close>

lemma failed_lookup_poisons:
  assumes "dict_getitem E name (proc s) = Ret (True, None) c" and "dict_version (site s k) \<noteq> ma_version_tag s"
  shows "\<exists>u. get_cached E k name s = Ret None u \<and> ma_version_tag u = ma_version_tag s
    \<and> get_cached E k name u = on_proc (pyx_GetBuiltinName E name) u"
  using assms by (auto simp: get_cached_def get_and_cache_def update_dict_cache_def on_proc_def run_defs)

end
