(* ===== verification/FastCall.thy ===== *)
theory FastCall
  imports ErrProto
begin

text \<open>
  Calls of functions written in Python, and of C functions, without a tuple of
  arguments: \<open>__Pyx_PyFunction_FastCallDict\<close> and its siblings.  The evaluation of
  a frame and \<open>PyEval_EvalCodeEx\<close>, which binds arguments of every kind, belong to
  the interpreter; the locale \<open>evaluator\<close> states what the latter does with the
  calls that the fast path takes out, and the fast path is shown to be the same call.
\<close>

unbundle bit_operations_syntax

section \<open>Functions\<close>

text \<open>The fields of a function object and its code object that the call reads.\<close>

record pyfunc =
  co_argcount :: nat
  co_kwonlyargcount :: nat
  co_flags :: c_int
  func_code :: nat
  func_defaults :: "pyobj list option"
  func_kwdefaults :: "pyobj option"
  func_closure :: "pyobj option"

definition CO_OPTIMIZED :: c_int where "CO_OPTIMIZED = 0x1"
definition CO_NEWLOCALS :: c_int where "CO_NEWLOCALS = 0x2"
definition CO_NOFREE :: c_int where "CO_NOFREE = 0x40"

text \<open>
  The interpreter: \<open>PyEval_EvalFrameEx\<close> on a new frame of the function whose first
  locals are given, and \<open>PyEval_EvalCodeEx\<close> with arguments, keywords (names and
  values in turn) and defaults; it finds the rest in the function.
\<close>

record 'w interp =
  i_eval_frame :: "pyfunc \<Rightarrow> pyobj list \<Rightarrow> ('w, pyobj option) cprog"
  i_eval_code :: "pyfunc \<Rightarrow> pyobj list \<Rightarrow> pyobj list \<Rightarrow> pyobj list \<Rightarrow> ('w, pyobj option) cprog"

section \<open>The fast path\<close>

definition fast_call_nokw :: "'w env \<Rightarrow> 'w interp \<Rightarrow> pyfunc \<Rightarrow> pyobj list \<Rightarrow> ('w, pyobj option) cprog" where
  "fast_call_nokw E I f args = bnd (capi E ''PyFrame_New'' ()) (\<lambda>t. case t of
      None \<Rightarrow> ret None
    | Some _ \<Rightarrow> i_eval_frame I f args)"

text \<open>The keywords as a tuple of names and values, and the call of \<open>PyEval_EvalCodeEx\<close>.\<close>

definition call_eval_code :: "'w env \<Rightarrow> 'w interp \<Rightarrow> pyfunc \<Rightarrow> pyobj list \<Rightarrow> (pyobj \<times> pyobj) list option \<Rightarrow>
    ('w, pyobj option) cprog" where
  "call_eval_code E I f args kwargs =
    (let d = (case func_defaults f of None \<Rightarrow> [] | Some ds \<Rightarrow> ds) in
     case kwargs of
       None \<Rightarrow> i_eval_code I f args [] d
     | Some kw \<Rightarrow> bnd (capi E ''PyTuple_New'' ()) (\<lambda>t. case t of
           None \<Rightarrow> ret None
         | Some _ \<Rightarrow> i_eval_code I f args (concat (map (\<lambda>(k, v). [k, v]) kw)) d))"

definition fast_call_dict :: "'w env \<Rightarrow> 'w interp \<Rightarrow> pyfunc \<Rightarrow> pyobj list \<Rightarrow> (pyobj \<times> pyobj) list option \<Rightarrow>
    ('w, pyobj option) cprog" where
  "fast_call_dict E I f args kwargs =
    bnd (capi E ''Py_EnterRecursiveCall'' ()) (\<lambda>t. case t of
      None \<Rightarrow> ret None
    | Some _ \<Rightarrow>
        if co_kwonlyargcount f = 0 \<and> (kwargs = None \<or> kwargs = Some [])
          \<and> co_flags f = (CO_OPTIMIZED OR CO_NEWLOCALS OR CO_NOFREE)
        then (case func_defaults f of
            None \<Rightarrow> if co_argcount f = length args then fast_call_nokw E I f args
              else call_eval_code E I f args kwargs
          | Some ds \<Rightarrow> if length args = 0 \<and> co_argcount f = length ds then fast_call_nokw E I f ds
              else call_eval_code E I f args kwargs)
        else call_eval_code E I f args kwargs)"

text \<open>A C function that takes an array: \<open>__Pyx_PyCFunction_FastCall\<close>.  It must not be
  called with an exception pending; \<open>kw\<close> says that it takes keywords, which are none.\<close>

record 'w cfunc =
  cf_keywords :: bool
  cf_with_kw :: "pyobj list \<Rightarrow> pyobj option \<Rightarrow> ('w, pyobj option) cprog"
  cf_plain :: "pyobj list \<Rightarrow> ('w, pyobj option) cprog"

definition cfunction_fast_call :: "'w cfunc \<Rightarrow> pyobj list \<Rightarrow> ('w, pyobj option) cprog" where
  "cfunction_fast_call m args = bnd pyerr_occurred (\<lambda>b. if b then stuck Undefined
    else if cf_keywords m then cf_with_kw m args None else cf_plain m args)"

text \<open>What is called: a Python function, such a C function, or any other object;
  \<open>__Pyx_PyObject_Call2Args\<close> on each.\<close>

datatype 'w callee = PyFunction pyfunc | FastCFunction "'w cfunc" | OtherCallee pyobj

definition pyx_call2args :: "'w env \<Rightarrow> 'w interp \<Rightarrow> 'w callee \<Rightarrow> pyobj \<Rightarrow> pyobj \<Rightarrow> ('w, pyobj option) cprog" where
  "pyx_call2args E I f a b = (case f of
      PyFunction g \<Rightarrow> fast_call_dict E I g [a, b] None
    | FastCFunction m \<Rightarrow> cfunction_fast_call m [a, b]
    | OtherCallee x \<Rightarrow> bnd (capi E ''PyTuple_New'' ()) (\<lambda>t. case t of
          None \<Rightarrow> ret None
        | Some _ \<Rightarrow> pyx_PyObject_Call E x [a, b]))"

section \<open>The fast path is the general call\<close>

text \<open>A function whose parameters are all positional and that has no cells: what
  the test of the flags singles out.\<close>

definition plain_function :: "pyfunc \<Rightarrow> bool" where
  "plain_function f = (co_kwonlyargcount f = 0 \<and> co_flags f = (CO_OPTIMIZED OR CO_NEWLOCALS OR CO_NOFREE))"

text \<open>
  \<open>PyEval_EvalCodeEx\<close> on such a function and positional arguments: a frame is made
  and its locals are the arguments, then the last defaults for the parameters that
  are left; with too many or too few arguments it raises and is not described here.
\<close>

locale evaluator =
  fixes E :: "'w env" and I :: "'w interp"
  assumes eval_binds: "plain_function f \<Longrightarrow> length args \<le> co_argcount f \<Longrightarrow> co_argcount f \<le> length args + length ds \<Longrightarrow>
    i_eval_code I f args [] ds = bnd (capi E ''PyFrame_New'' ()) (\<lambda>t. case t of None \<Rightarrow> ret None
      | Some _ \<Rightarrow> i_eval_frame I f (args @ drop (length args + length ds - co_argcount f) ds))"
begin

lemma nokw_is_eval_code:
  assumes "plain_function f" and "length args \<le> co_argcount f" and "co_argcount f \<le> length args + length ds"
  shows "fast_call_nokw E I f (args @ drop (length args + length ds - co_argcount f) ds) = i_eval_code I f args [] ds"
  by (simp only: eval_binds [OF assms] fast_call_nokw_def)

lemma fast_is_general: "kwargs \<noteq> Some [] \<Longrightarrow>
    fast_call_dict E I f args kwargs = bnd (capi E ''Py_EnterRecursiveCall'' ()) (\<lambda>t. case t of
      None \<Rightarrow> ret None | Some _ \<Rightarrow> call_eval_code E I f args kwargs)"
proof -
  assume k: "kwargs \<noteq> Some []"
  have n: "fast_call_nokw E I f args = i_eval_code I f args [] []"
    if "plain_function f" "co_argcount f = length args"
    using nokw_is_eval_code [of f args "[]"] that by simp
  have d: "fast_call_nokw E I f ds = i_eval_code I f [] [] ds"
    if "plain_function f" "co_argcount f = length ds" for ds
    using nokw_is_eval_code [of f "[]" ds] that by simp
  show ?thesis unfolding fast_call_dict_def using k n d
    by (auto simp: call_eval_code_def plain_function_def intro!: arg_cong [of _ _ "bnd _"] ext split: option.splits)
qed

end

section \<open>An evaluator\<close>

text \<open>The interpreter that hands the bound locals to the caller as a tuple, and
  raises TypeError when the arguments do not fit.\<close>

definition tuple_interp :: "'w env \<Rightarrow> 'w interp" where
  "tuple_interp E = \<lparr>
    i_eval_frame = \<lambda>f locals. ret (Some (PyTuple locals)),
    i_eval_code = \<lambda>f args kws ds.
      if kws \<noteq> [] \<or> co_argcount f < length args \<or> length args + length ds < co_argcount f
      then sq (set_err TypeErrorT PyNone) (ret None)
      else bnd (capi E ''PyFrame_New'' ()) (\<lambda>t. case t of None \<Rightarrow> ret None
        | Some _ \<Rightarrow> ret (Some (PyTuple (args @ drop (length args + length ds - co_argcount f) ds))))\<rparr>"

interpretation ti: evaluator E "tuple_interp E" for E
  by unfold_locales (simp add: tuple_interp_def cong: option.case_cong)

end
