(* ===== verification/ExcInfo.thy ===== *)
theory ExcInfo
  imports HL_Cinit
begin

text \<open>
  The stack of handled exceptions, which the other theories leave out.  The only
  statement that touches it is the \<open>try\<close> of CREATE_NEW_OVERWRITE: it saves the
  exception that is being handled and puts it back on the way out of the \<open>except\<close>
  clauses.  Here the statement is modelled with the stack, and shown to do to the
  rest of the process what \<open>overwrite_existing\<close> does and to leave the exception
  that Python code sees as handled as it was.
\<close>

section \<open>The stack\<close>

text \<open>
  The entries from \<open>tstate->exc_info\<close> along \<open>previous_item\<close>; an entry whose type is
  NULL or None is None.  There is always one.
\<close>

record 'w xst =
  xbase :: "'w cst"
  exc_info :: "pyerr option"
  previous_items :: "pyerr option list"

text \<open>\<open>__Pyx_PyErr_GetTopmostException\<close>: the loop over \<open>previous_item\<close>.\<close>

fun topmost_from :: "pyerr option \<Rightarrow> pyerr option list \<Rightarrow> pyerr option" where
  "topmost_from e [] = e"
| "topmost_from e (p # ps) = (if e = None then topmost_from p ps else e)"

definition get_topmost_exception :: "'w xst \<Rightarrow> pyerr option" where
  "get_topmost_exception s = topmost_from (exc_info s) (previous_items s)"

definition exception_save :: "('w xst, pyerr option) prog" where
  "exception_save = rd get_topmost_exception"

definition exception_reset :: "pyerr option \<Rightarrow> ('w xst, unit) prog" where
  "exception_reset e = upd (\<lambda>s. s\<lparr>exc_info := e\<rparr>)"

definition on_base :: "('w, 'a) cprog \<Rightarrow> ('w xst, 'a) prog" where
  "on_base m s = (case m (xbase s) of Ret a c \<Rightarrow> Ret a (s\<lparr>xbase := c\<rparr>)
    | Goto p l c \<Rightarrow> Goto p l (s\<lparr>xbase := c\<rparr>) | Stuck u \<Rightarrow> Stuck u)"

section \<open>The try statement\<close>

text \<open>The \<open>except\<close> clauses in turn; an exception in one of them, or none that matches,
  goes to \<open>except_error\<close>.\<close>

definition overwrite_handlers :: "'w env \<Rightarrow> nat \<Rightarrow> int \<Rightarrow> ('w, unit) cprog" where
  "overwrite_handlers E f l =
    bnd (except_clause E 147 ''NoSuchSemaphoreException'') (\<lambda>b1.
    if b1 then ret ()
    else bnd (except_clause E 149 ''SemaphoreDestroyedException'') (\<lambda>b2.
      if b2 then ret () else pyx_err f l))"

definition overwrite_existing_exc :: "'w env \<Rightarrow> (pyobj list \<Rightarrow> ('w, pyobj option) cprog) \<Rightarrow> string \<Rightarrow> c_int \<Rightarrow>
    c_int \<Rightarrow> ('w xst, unit) prog" where
  "overwrite_existing_exc E newlock loc iv perm =
    bnd exception_save (\<lambda>saved.
    at_label (on_base (overwrite_try E newlock loc iv perm)) (\<lambda>f l.
      sq (at_label (on_base (overwrite_handlers E f l))
           (\<lambda>f l. sq (exception_reset saved) (pyx_err f l)))
      (exception_reset saved)))"

section \<open>It is the statement without the stack\<close>

lemma topmost_idem: "topmost_from (topmost_from e ps) ps = topmost_from e ps"
  by (induction e ps rule: topmost_from.induct) auto

text \<open>The outcome on the rest of the process, and on the stack: only the top entry may
  change, and the exception that is seen as handled stays the same.\<close>

definition same_handled :: "'w xst \<Rightarrow> 'w xst \<Rightarrow> bool" where
  "same_handled s t = (previous_items t = previous_items s \<and> get_topmost_exception t = get_topmost_exception s)"

lemma overwrite_exc_transparent:
  "case overwrite_existing E newlock loc iv perm (xbase s) of
      Ret r c \<Rightarrow> \<exists>t. overwrite_existing_exc E newlock loc iv perm s = Ret r t \<and> xbase t = c \<and> same_handled s t
    | Goto f l c \<Rightarrow> \<exists>t. overwrite_existing_exc E newlock loc iv perm s = Goto f l t \<and> xbase t = c \<and> same_handled s t
    | Stuck u \<Rightarrow> overwrite_existing_exc E newlock loc iv perm s = Stuck u"
proof -
  have o: "overwrite_existing E newlock loc iv perm = at_label (overwrite_try E newlock loc iv perm) (overwrite_handlers E)"
    by (simp add: overwrite_existing_def overwrite_handlers_def [abs_def])
  have id: "same_handled s (s\<lparr>xbase := c\<rparr>)" for c
    by (simp add: same_handled_def get_topmost_exception_def)
  have reset: "same_handled s (s\<lparr>xbase := c, exc_info := get_topmost_exception s\<rparr>)" for c
    by (simp add: same_handled_def get_topmost_exception_def topmost_idem)
  show ?thesis
  proof (cases "overwrite_try E newlock loc iv perm (xbase s)")
    case (Ret r c)
    then show ?thesis using id by (simp add: o overwrite_existing_exc_def exception_save_def on_base_def run_defs)
  next
    case (Goto f l c)
    then show ?thesis using reset
      by (cases "overwrite_handlers E f l c")
        (simp_all add: o overwrite_existing_exc_def exception_save_def exception_reset_def on_base_def run_defs)
  next
    case (Stuck u)
    then show ?thesis by (simp add: o overwrite_existing_exc_def exception_save_def on_base_def run_defs)
  qed
qed

end
