(* ===== verification/TypeObject.thy ===== *)
theory TypeObject
  imports ModInit
begin

text \<open>
  The tables through which the interpreter reaches the code: the slots of the
  extension type and of the module definition.  The interpreter's part is the
  documented protocol of the slots: a call of the type runs \<open>tp_new\<close> and then
  \<open>tp_init\<close> if there is one, the last reference to an instance runs \<open>tp_dealloc\<close>
  and nothing else, an import runs the slots of the module in their order.
\<close>

unbundle bit_operations_syntax

section \<open>The type\<close>

definition Py_TPFLAGS_DEFAULT :: c_long where "Py_TPFLAGS_DEFAULT = 0"
definition Py_TPFLAGS_HAVE_VERSION_TAG :: c_long where "Py_TPFLAGS_HAVE_VERSION_TAG = push_bit 18 1"
definition Py_TPFLAGS_BASETYPE :: c_long where "Py_TPFLAGS_BASETYPE = push_bit 10 1"
definition Py_TPFLAGS_HAVE_GC :: c_long where "Py_TPFLAGS_HAVE_GC = push_bit 14 1"

text \<open>The slots; an empty slot is None.  \<open>sizeof\<close> of the object structure is 72:
  the object header, the vtable pointer and the six fields with their padding.\<close>

record 'w type_slots =
  s_name :: string
  s_basicsize :: nat
  s_itemsize :: nat
  s_flags :: c_long
  s_methods :: "(string \<times> 'w meth) list"
  s_new :: "(pyobj list \<Rightarrow> (pyobj \<times> pyobj) list option \<Rightarrow> ('w, pyobj option) cprog) option"
  s_init :: "(nat \<Rightarrow> pyobj list \<Rightarrow> (pyobj \<times> pyobj) list option \<Rightarrow> ('w, c_int) cprog) option"
  s_dealloc :: "(nat \<Rightarrow> ('w, unit) cprog) option"
  s_finalize :: "(nat \<Rightarrow> ('w, unit) cprog) option"
  s_del :: "(nat \<Rightarrow> ('w, unit) cprog) option"
  s_traverse :: "nat option"
  s_call :: "(nat \<Rightarrow> pyobj list \<Rightarrow> ('w, pyobj option) cprog) option"
  s_base :: "cls option"

definition pyx_type :: "'w env \<Rightarrow> nat \<Rightarrow> 'w type_slots" where
  "pyx_type E depth = \<lparr>
    s_name = ''HybridLock.HybridLock'',
    s_basicsize = 72,
    s_itemsize = 0,
    s_flags = Py_TPFLAGS_DEFAULT OR Py_TPFLAGS_HAVE_VERSION_TAG,
    s_methods = hl_methods E,
    s_new = Some (hl_tp_new E (\<lambda>args. hl_call E depth args None)),
    s_init = None,
    s_dealloc = Some hl_tp_dealloc,
    s_finalize = None,
    s_del = None,
    s_traverse = None,
    s_call = None,
    s_base = None\<rparr>"

text \<open>The interpreter's \<open>type_call\<close>, and the end of an instance.\<close>

definition api_type_call :: "'w type_slots \<Rightarrow> pyobj list \<Rightarrow> (pyobj \<times> pyobj) list option \<Rightarrow> ('w, pyobj option) cprog" where
  "api_type_call T a k = (case s_new T of
      None \<Rightarrow> sq (set_err TypeErrorT (PyStr (''cannot create instances of '' @ s_name T))) (ret None)
    | Some new \<Rightarrow> bnd (new a k) (\<lambda>o1. case (o1, s_init T) of
          (Some (PyLock n), Some init) \<Rightarrow> bnd (init n a k) (\<lambda>r. ret (if sint r < 0 then None else o1))
        | _ \<Rightarrow> ret o1))"

definition api_Dealloc :: "'w type_slots \<Rightarrow> nat \<Rightarrow> ('w, unit) cprog" where
  "api_Dealloc T n = (case s_dealloc T of None \<Rightarrow> stuck Undefined | Some f \<Rightarrow> f n)"

text \<open>A call of the class goes through the slots.\<close>

lemma type_call_new: "api_type_call (pyx_type E d) a k = hl_tp_new E (\<lambda>args. hl_call E d args None) a k"
  by (rule ext) (simp add: api_type_call_def pyx_type_def bnd_def ret_def split: out.split option.split pyobj.split)

lemma hl_call_slots: "hl_call E (Suc d) a k = pyx_call_checked E (api_type_call (pyx_type E d) a k)"
  by (simp add: type_call_new)

text \<open>
  When the last reference to a lock goes, only its memory is freed: no call of the
  system is made, so the semaphore and the descriptor stay open, the page stays
  mapped, and the copy of the name stays allocated.
\<close>

lemma dropped_lock_stays_open:
  "api_Dealloc (pyx_type E d) n c = Ret () (c\<lparr>objs := (objs c)(n := None)\<rparr>)"
  by (simp add: api_Dealloc_def pyx_type_def hl_tp_dealloc_def upd_def)

section \<open>The module\<close>

datatype 'w mod_slot = Py_mod_create "(string \<Rightarrow> pyobj option) \<Rightarrow> ('w, nat option) iprog" | Py_mod_exec "nat \<Rightarrow> ('w, c_int) iprog"

definition moduledef_slots :: "'w env \<Rightarrow> ('w \<Rightarrow> int + pyerr) \<Rightarrow> (string \<Rightarrow> bool) \<Rightarrow> string \<Rightarrow> string \<Rightarrow> bool \<Rightarrow> 'w mod_slot list" where
  "moduledef_slots E I OA ct rt main = [Py_mod_create (pymod_create E I), Py_mod_exec (pymod_exec E OA ct rt main)]"

text \<open>An import: \<open>PyModule_FromDefAndSpec\<close> runs the create slot, \<open>PyModule_ExecDef\<close> the
  exec slots in their order until one fails.\<close>

fun api_create :: "'w mod_slot list \<Rightarrow> (string \<Rightarrow> pyobj option) \<Rightarrow> ('w, nat option) iprog" where
  "api_create [] sp = ret None"
| "api_create (Py_mod_create f # ss) sp = f sp"
| "api_create (Py_mod_exec f # ss) sp = api_create ss sp"

fun api_exec :: "'w mod_slot list \<Rightarrow> nat \<Rightarrow> ('w, bool) iprog" where
  "api_exec [] m = ret True"
| "api_exec (Py_mod_create f # ss) m = api_exec ss m"
| "api_exec (Py_mod_exec f # ss) m = bnd (f m) (\<lambda>r. if r \<noteq> 0 then ret False else api_exec ss m)"

definition api_import :: "'w mod_slot list \<Rightarrow> (string \<Rightarrow> pyobj option) \<Rightarrow> ('w, nat option) iprog" where
  "api_import ss sp = bnd (api_create ss sp) (\<lambda>r. case r of
      None \<Rightarrow> ret None
    | Some m \<Rightarrow> bnd (api_exec ss m) (\<lambda>b. ret (if b then Some m else None)))"

lemma import_run:
  assumes "pymod_create E I sp s = Ret (Some m) t" and "pymod_exec E OA ct rt main m t = Ret r u"
  shows "api_import (moduledef_slots E I OA ct rt main) sp s = Ret (if r = 0 then Some m else None) u"
  using assms by (simp add: api_import_def moduledef_slots_def run_defs)

end
