(* ===== verification/Conversions.thy ===== *)
theory Conversions
  imports PyArgs
begin

text \<open>
  The other conversions of the generated run-time support: Python ints to
  \<open>long\<close>, \<open>Py_ssize_t\<close> and \<open>Py_hash_t\<close>, and C values to Python objects.  Like
  \<open>__Pyx_PyInt_As_int\<close> they read the digits of a small int directly; the digits
  are combined with the shifts and ors of the source on 64-bit words.
\<close>

unbundle bit_operations_syntax

section \<open>Digits as machine words\<close>

text \<open>\<open>digits[k]\<close>, a \<open>digit\<close> (\<open>uint32_t\<close>), and the two-digit value
  \<open>(((unsigned long)digits[1]) << PyLong_SHIFT) | (unsigned long)digits[0]\<close>.\<close>

definition digit_at :: "int \<Rightarrow> nat \<Rightarrow> c_int" where
  "digit_at i k = word_of_nat (ob_digit i ! k)"

definition two_digits :: "int \<Rightarrow> c_long" where
  "two_digits i = push_bit 30 (ucast (digit_at i 1)) OR ucast (digit_at i 0)"

section \<open>long\<close>

text \<open>The \<open>switch (Py_SIZE(x))\<close> of \<open>__Pyx_PyInt_As_long\<close>, and \<open>PyLong_AsLong\<close>
  for the other sizes, whose OverflowError is None.  The range checks of
  \<open>__PYX_VERIFY_RETURN_INT\<close> compare the sizes of the types first and vanish.\<close>

definition pylong_as_long :: "int \<Rightarrow> c_long option" where
  "pylong_as_long i =
    (if Py_SIZE i = 0 then Some 0
     else if Py_SIZE i = - 1 then Some (scast (- digit_at i 0))
     else if Py_SIZE i = 1 then Some (ucast (digit_at i 0))
     else if Py_SIZE i = - 2 then Some (- two_digits i)
     else if Py_SIZE i = 2 then Some (two_digits i)
     else map_option word_of_int (api_AsLong i))"

definition long_as_long :: "int \<Rightarrow> ('w, c_long option) cprog" where
  "long_as_long i = (case pylong_as_long i of
      Some v \<Rightarrow> ret (Some v)
    | None \<Rightarrow> sq (set_err OverflowErrorT (PyStr aslong_msg)) (ret None))"

text \<open>\<open>__Pyx_PyInt_As_long\<close>; None is the result \<open>-1\<close> with an exception set.\<close>

definition pyx_As_long :: "'w env \<Rightarrow> pyobj \<Rightarrow> ('w, c_long option) cprog" where
  "pyx_As_long E x = (case x of
      PyInt i \<Rightarrow> long_as_long i
    | PyBool b \<Rightarrow> long_as_long (if b then 1 else 0)
    | _ \<Rightarrow> bnd (pyx_IntOrLong E x) (\<lambda>t. case t of
          None \<Rightarrow> ret None
        | Some (PyInt i) \<Rightarrow> long_as_long i
        | Some (PyBool b) \<Rightarrow> long_as_long (if b then 1 else 0)
        | Some _ \<Rightarrow> stuck Undefined))"

definition pyx_From_long :: "'w env \<Rightarrow> c_long \<Rightarrow> ('w, pyobj option) cprog" where
  "pyx_From_long E v = capi E ''PyInt_FromLong'' (PyInt (sint v))"

section \<open>Py_ssize_t and Py_hash_t\<close>

definition asssize_msg :: string where
  "asssize_msg = ''Python int too large to convert to C ssize_t''"

text \<open>\<open>PyLong_AsSsize_t\<close>: None is the OverflowError it sets.\<close>

definition api_AsSsize_t :: "int \<Rightarrow> int option" where
  "api_AsSsize_t i = (if - (2 ^ 63) \<le> i \<and> i < 2 ^ 63 then Some i else None)"

text \<open>The part of \<open>__Pyx_PyIndex_AsSsize_t\<close> for an exact int.\<close>

definition pylong_as_ssize :: "int \<Rightarrow> c_long option" where
  "pylong_as_ssize i =
    (let size = Py_SIZE i in
     if \<bar>size\<bar> \<le> 1 then
       (let ival = (if size \<noteq> 0 then ucast (digit_at i 0) else 0) in
        Some (if size = - 1 then - ival else ival))
     else if size = 2 then Some (two_digits i)
     else if size = - 2 then Some (- two_digits i)
     else map_option word_of_int (api_AsSsize_t i))"

definition ssize_of :: "int option \<Rightarrow> ('w, c_long option) cprog" where
  "ssize_of r = (case r of
      Some v \<Rightarrow> ret (Some (word_of_int v))
    | None \<Rightarrow> sq (set_err OverflowErrorT (PyStr asssize_msg)) (ret None))"

text \<open>\<open>PyNumber_Index\<close> on an object of the model: an int (or a bool, which is
  one) is returned as it is, anything else has no \<open>__index__\<close>.\<close>

definition api_Index :: "pyobj \<Rightarrow> ('w, int option) cprog" where
  "api_Index x = (case x of
      PyInt i \<Rightarrow> ret (Some i)
    | PyBool b \<Rightarrow> ret (Some (if b then 1 else 0))
    | _ \<Rightarrow> sq (set_err TypeErrorT (PyStr (CHR 0x27 # take 200 (tp_name (py_type x))
          @ CHR 0x27 # '' object cannot be interpreted as an integer''))) (ret None))"

text \<open>\<open>__Pyx_PyIndex_AsSsize_t\<close>; a bool is not an exact int.\<close>

definition pyx_AsSsize_t :: "pyobj \<Rightarrow> ('w, c_long option) cprog" where
  "pyx_AsSsize_t b = (case b of
      PyInt i \<Rightarrow> (case pylong_as_ssize i of
          Some v \<Rightarrow> ret (Some v)
        | None \<Rightarrow> sq (set_err OverflowErrorT (PyStr asssize_msg)) (ret None))
    | _ \<Rightarrow> bnd (api_Index b) (\<lambda>x. case x of
          None \<Rightarrow> ret None
        | Some i \<Rightarrow> ssize_of (api_AsSsize_t i)))"

text \<open>\<open>__Pyx_PyIndex_AsHash_t\<close>: \<open>Py_hash_t\<close> has the size of \<open>Py_ssize_t\<close>.\<close>

definition pyx_AsHash_t :: "pyobj \<Rightarrow> ('w, c_long option) cprog" where
  "pyx_AsHash_t x = pyx_AsSsize_t x"

section \<open>Small conversions\<close>

definition pyx_Bool_FromLong :: "c_long \<Rightarrow> pyobj" where
  "pyx_Bool_FromLong b = (if b \<noteq> 0 then PyBool True else PyBool False)"

definition pyx_FromSize_t :: "'w env \<Rightarrow> c_long \<Rightarrow> ('w, pyobj option) cprog" where
  "pyx_FromSize_t E v = capi E ''PyInt_FromSize_t'' (PyInt (uint v))"

text \<open>\<open>__Pyx_PyObject_IsTrueAndDecref\<close>: NULL gives \<open>-1\<close> (None).\<close>

definition pyx_IsTrueAndDecref :: "'w env \<Rightarrow> pyobj option \<Rightarrow> ('w, bool option) cprog" where
  "pyx_IsTrueAndDecref E x = (case x of None \<Rightarrow> ret None | Some y \<Rightarrow> pyx_IsTrue E y)"

section \<open>The conversions are exact\<close>

lemma ucast_digit: "ob_digit i ! k < 2 ^ 30 \<Longrightarrow> (ucast (digit_at i k) :: c_long) = word_of_nat (ob_digit i ! k)"
  by (simp add: digit_at_def unsigned_of_nat take_bit_nat_eq_self)

lemma push_or_add:
  assumes "b < 2 ^ 30"
  shows "push_bit 30 (word_of_nat a :: c_long) OR word_of_nat b = word_of_nat (a * 2 ^ 30 + b)"
proof -
  have "push_bit 30 (int a) OR int b = int (a * 2 ^ 30 + b)"
    using concat_bit_eq [of 30 "int b" "int a"] concat_bit_def [of 30 "int b" "int a"] assms
    by (simp add: take_bit_int_eq_self push_bit_eq_mult or.commute)
  then have "word_of_int (push_bit 30 (int a) OR int b) = (word_of_int (int (a * 2 ^ 30 + b)) :: c_long)"
    by (rule arg_cong)
  then show ?thesis by (simp add: of_int_or_eq push_bit_eq_mult)
qed

text \<open>The digits of an int by its size: none, one, two, more.\<close>

lemma digit_cases:
  obtains (zero) "i = 0" "Py_SIZE i = 0"
    | (one) "\<bar>i\<bar> < 2 ^ 30" "Py_SIZE i = sgn i" "i \<noteq> 0" "ob_digit i ! 0 = nat \<bar>i\<bar>"
    | (two) "\<bar>i\<bar> < 2 ^ 60" "Py_SIZE i = 2 * sgn i" "i \<noteq> 0" "two_digits i = word_of_int \<bar>i\<bar>"
    | (more) "2 < \<bar>Py_SIZE i\<bar>"
proof -
  let ?n = "nat \<bar>i\<bar>"
  consider "i = 0" | "0 < ?n" "?n < 2 ^ 30" | "2 ^ 30 \<le> ?n" "?n < 2 ^ 60" | "2 ^ 60 \<le> ?n" by fastforce
  then show thesis
  proof cases
    case 1
    then show ?thesis by (intro zero) (simp_all add: Py_SIZE_def)
  next
    case 2
    then show ?thesis by (intro one) (auto simp: Py_SIZE_def ob_digit_def digits30_cases(2))
  next
    case 3
    have d: "ob_digit i = [?n mod 2 ^ 30, ?n div 2 ^ 30]" using 3 by (simp add: ob_digit_def digits30_cases(3))
    have l: "ob_digit i ! 0 < 2 ^ 30" "ob_digit i ! 1 < 2 ^ 30"
      using 3 by (simp_all add: d div_less_iff_less_mult)
    have "two_digits i = word_of_nat (ob_digit i ! 1 * 2 ^ 30 + ob_digit i ! 0)"
      unfolding two_digits_def ucast_digit [OF l(1)] ucast_digit [OF l(2)] by (rule push_or_add [OF l(1)])
    also have "ob_digit i ! 1 * 2 ^ 30 + ob_digit i ! 0 = ?n" by (simp add: d div_mult_mod_eq)
    finally show ?thesis using 3 by (intro two) (auto simp: Py_SIZE_def d)
  next
    case 4
    then show ?thesis using digits30_cases(4) [OF 4] by (intro more) (auto simp: Py_SIZE_def ob_digit_def abs_mult)
  qed
qed

definition long_range :: "int \<Rightarrow> bool" where
  "long_range i = (- (2 ^ 63) \<le> i \<and> i < 2 ^ 63)"

lemma scast_neg_digit:
  assumes "ob_digit i ! 0 = nat \<bar>i\<bar>" and "\<bar>i\<bar> < 2 ^ 30" and "i < 0"
  shows "scast (- digit_at i 0) = (word_of_int i :: c_long)"
proof -
  have "- digit_at i 0 = word_of_int i" using assms(1,3) by (simp add: digit_at_def)
  then show ?thesis using assms(2) by (simp add: signed_of_int signed_take_bit_int_eq_self)
qed

lemma pylong_as_long_ref: "pylong_as_long i = (if long_range i then Some (word_of_int i) else None)"
proof (cases i rule: digit_cases)
  case zero
  then show ?thesis by (simp add: pylong_as_long_def long_range_def)
next
  case one
  then have "ob_digit i ! 0 < 2 ^ 30" "long_range i" by (auto simp: long_range_def)
  then show ?thesis using one ucast_digit [of i 0] scast_neg_digit [of i]
    by (cases "i > 0") (simp_all add: pylong_as_long_def)
next
  case two
  then have "long_range i" by (auto simp: long_range_def)
  then show ?thesis using two by (cases "i > 0") (simp_all add: pylong_as_long_def)
next
  case more
  then have "Py_SIZE i \<notin> {0, 1, - 1, 2, - 2}" by auto
  then show ?thesis by (simp add: pylong_as_long_def api_AsLong_def long_range_def)
qed

lemma pylong_as_ssize_ref: "pylong_as_ssize i = (if long_range i then Some (word_of_int i) else None)"
proof (cases i rule: digit_cases)
  case zero
  then show ?thesis by (simp add: pylong_as_ssize_def long_range_def)
next
  case one
  then have "ob_digit i ! 0 < 2 ^ 30" "long_range i" by (auto simp: long_range_def)
  then show ?thesis using one ucast_digit [of i 0]
    by (cases "i > 0") (simp_all add: pylong_as_ssize_def)
next
  case two
  then have "long_range i" by (auto simp: long_range_def)
  then show ?thesis using two by (cases "i > 0") (simp_all add: pylong_as_ssize_def)
next
  case more
  then have "Py_SIZE i \<notin> {0, 1, - 1, 2, - 2}" "\<not> \<bar>Py_SIZE i\<bar> \<le> 1" by auto
  then show ?thesis by (simp add: pylong_as_ssize_def api_AsSsize_t_def long_range_def)
qed

text \<open>\<open>long\<close> and \<open>Py_ssize_t\<close> accept the same ints with the same results, and every
  C value survives the way to Python and back.\<close>

lemma long_ssize_same: "pylong_as_long = pylong_as_ssize"
  by (rule ext) (simp add: pylong_as_long_ref pylong_as_ssize_ref)

lemma sint_long_range [simp]: "long_range (sint (w :: c_long))"
  using sint_ge [of w] sint_lt [of w] by (simp add: long_range_def)

lemma pylong_as_long_sint [simp]: "pylong_as_long (sint w) = Some w" "pylong_as_ssize (sint w) = Some w"
  by (simp_all add: pylong_as_long_ref pylong_as_ssize_ref)

text \<open>The generated conversion to \<open>int\<close> is the one to \<open>long\<close> and a range check.\<close>

lemma int_via_long: "pylong_as_int i = (case pylong_as_long i of
    None \<Rightarrow> Inl False | Some v \<Rightarrow> if int_range (sint v) then Inr (scast v) else Inl True)"
proof -
  have "sint (word_of_int i :: c_long) = i" "scast (word_of_int i :: c_long) = (word_of_int i :: c_int)" if "long_range i"
    using that by (simp_all add: long_range_def signed_of_int signed_take_bit_int_eq_self)
  moreover have "int_range i \<Longrightarrow> long_range i" by (simp add: int_range_def long_range_def)
  ultimately show ?thesis
    unfolding pylong_as_int_ref pylong_as_long_ref long_range_def [of i, symmetric] by (cases "long_range i") auto
qed

text \<open>An object that the C-API builds is the one asked for.\<close>

lemma capi_value: "capi E f v c = Ret (Some x) c' \<Longrightarrow> x = v"
  by (auto simp: capi_def need_gil_def sysc_def set_pyerr_def run_defs
      split: out.splits if_splits sysres.splits option.splits)

section \<open>The error protocol\<close>

lemma J_long_as_long: "keep.J pyok optq R (long_as_long i)"
  unfolding long_as_long_def
  by (auto intro!: keep.J_ret_optq keep.J_sq [OF keep.J_set_err(1)] split: option.splits)

lemma J_As_long: "keep.J pyok optq R (pyx_As_long E x)"
proof -
  have "keep.J (optq t) optq R (case t of None \<Rightarrow> ret None | Some (PyInt i) \<Rightarrow> long_as_long i
    | Some (PyBool b) \<Rightarrow> long_as_long (if b then 1 else 0) | Some _ \<Rightarrow> stuck Undefined)" for t
    by (auto simp: optq_def intro!: keep.J_ret_optq J_long_as_long keep.J_stuck split: option.splits pyobj.splits)
  then have res: "keep.J pyok optq R (bnd (pyx_IntOrLong E x) (\<lambda>t. case t of None \<Rightarrow> ret None
    | Some (PyInt i) \<Rightarrow> long_as_long i | Some (PyBool b) \<Rightarrow> long_as_long (if b then 1 else 0)
    | Some _ \<Rightarrow> stuck Undefined))" for x
    by (rule keep.J_bnd [OF J_IntOrLong])
  show ?thesis unfolding pyx_As_long_def
    by (cases x) (simp_all only: pyobj.case J_long_as_long res)
qed

lemma J_AsSsize_t: "keep.J pyok optq R (pyx_AsSsize_t x)" "keep.J pyok optq R (pyx_AsHash_t x)"
proof -
  have s: "keep.J pyok optq R (ssize_of r)" for r unfolding ssize_of_def
    by (auto intro!: keep.J_ret_optq keep.J_sq [OF keep.J_set_err(1)] split: option.splits)
  have i: "keep.J pyok optq R (api_Index x)" unfolding api_Index_def
    by (auto intro!: keep.J_ret_optq keep.J_sq [OF keep.J_set_err(1)] split: pyobj.splits)
  have "keep.J (optq t) optq R (case t of None \<Rightarrow> ret None | Some i \<Rightarrow> ssize_of (api_AsSsize_t i))" for t
    by (auto simp: optq_def intro!: keep.J_ret_optq s split: option.splits)
  then have n: "keep.J pyok optq R (bnd (api_Index x) (\<lambda>t. case t of None \<Rightarrow> ret None
      | Some i \<Rightarrow> ssize_of (api_AsSsize_t i)))"
    by (rule keep.J_bnd [OF i])
  show "keep.J pyok optq R (pyx_AsSsize_t x)" unfolding pyx_AsSsize_t_def using n
    by (auto intro!: keep.J_ret_optq keep.J_sq [OF keep.J_set_err(1)] split: option.splits pyobj.splits)
  then show "keep.J pyok optq R (pyx_AsHash_t x)" unfolding pyx_AsHash_t_def .
qed

end
