(* ===== verification/RunDemo.thy ===== *)
theory RunDemo
  imports Demo NameCache FastCall ExcInfo TypeObject Conversions
begin

text \<open>
  The run-time support on the concrete process: a name that was looked up and
  then rebound, and a function of two parameters.
\<close>

definition name_demo :: "nat \<Rightarrow> string" where
  "name_demo = (\<lambda>_. ''CONNECT_OR_CREATE'')"

text \<open>No cache is filled; place 0 has looked up its name; the name was rebound since.\<close>

definition v_cold :: "kern vst" where
  "v_cold = \<lparr>proc = p_demo, ma_version_tag = 1, site = (\<lambda>_. \<lparr>dict_version = 0, dict_cached_value = None\<rparr>)\<rparr>"

definition v_warm :: "kern vst" where
  "v_warm = v_cold\<lparr>site := (site v_cold)(0 := \<lparr>dict_version = 1, dict_cached_value = Some (PyInt 0)\<rparr>)\<rparr>"

definition v_rebound :: "kern vst" where
  "v_rebound = v_warm\<lparr>proc := (proc v_warm)\<lparr>mdict := (mdict (proc v_warm))(''CONNECT_OR_CREATE'' := Some (PyInt 9))\<rparr>,
    ma_version_tag := 2\<rparr>"

lemmas v_defs = v_cold_def v_warm_def v_rebound_def name_demo_def

lemma capi_demo: "capi kE f v (p_on k_demo) = Ret (Some v) (p_on k_demo)"
  by (simp add: capi_def need_gil_def sysc_def run_defs kE_def demo_defs)

lemma mdict_demo: "mdict (p_on k_demo) ''CONNECT_OR_CREATE'' = Some (PyInt 0)"
  by (simp add: p_on_def dict_demo_def)

lemma v_reach: "dict_reach kE name_demo v_rebound"
proof -
  have "dict_reach kE name_demo v_cold"
    by (rule dict_reach.start) (simp add: cold_def v_cold_def)
  moreover have "on_proc (dict_getitem kE (name_demo 0)) v_cold = Ret (False, Some (PyInt 0)) v_cold"
    by (simp add: on_proc_def dict_getitem_def run_defs v_defs p_demo_def capi_demo mdict_demo)
  moreover have "get_cached kE 0 (name_demo 0) v_cold = Ret (Some (PyInt 0)) v_warm"
    by (simp add: get_cached_def get_and_cache_def update_dict_cache_def on_proc_def dict_getitem_def
        run_defs v_defs p_demo_def capi_demo mdict_demo)
  ultimately have "dict_reach kE name_demo v_warm" by (rule dict_reach.lookup)
  moreover have "\<forall>k. dict_version (site v_warm k) \<noteq> 2" by (simp add: v_defs)
  ultimately show ?thesis unfolding v_rebound_def by (rule dict_reach.store)
qed

text \<open>\<open>def f(a, b=7)\<close>.\<close>

definition f_demo :: pyfunc where
  "f_demo = \<lparr>co_argcount = 2, co_kwonlyargcount = 0, co_flags = 0x43, func_code = 0, func_defaults = Some [PyInt 7],
    func_kwdefaults = None, func_closure = None\<rparr>"

lemma f_demo_plain: "plain_function f_demo"
  by (simp add: plain_function_def f_demo_def CO_OPTIMIZED_def CO_NEWLOCALS_def CO_NOFREE_def)

text \<open>Three types, of which 2 derives from the unrelated 0 and 1.\<close>

definition meta_sub :: "nat \<Rightarrow> nat \<Rightarrow> bool" where
  "meta_sub x y = (x = y \<or> x = 2)"

lemma meta_sub_order: "reflp meta_sub" "transp meta_sub"
  by (auto simp: meta_sub_def reflp_def transp_def)

end
