(* ===== verification/CLine.thy ===== *)
theory CLine
  imports PyArgs
begin

text \<open>
  The C line of a traceback.  \<open>__Pyx_AddTraceback\<close> is given the line of the C file,
  and shows it when the attribute \<open>cline_in_traceback\<close> of the module
  \<open>cython_runtime\<close> is true.  The other theories use \<open>pyx_AddTraceback\<close>, which has no
  C line; here it is shown that this is what the function does when the
  attribute is absent or false.
\<close>

section \<open>The choice of the C line\<close>

text \<open>
  \<open>__Pyx_CLineForTraceback\<close>.  \<open>rt\<close> says that the module \<open>cython_runtime\<close> is there and \<open>attr\<close>
  is its attribute (NULL is None); the result is the line and the attribute
  afterwards.  What fails in it is dropped when the pending exception is put back.
\<close>

definition cline_attr_false :: "'w env \<Rightarrow> pyobj option \<Rightarrow> ('w, pyobj option) cprog" where
  "cline_attr_false E attr = bnd (capi E ''PyObject_SetAttr'' ()) (\<lambda>r.
    ret (case r of None \<Rightarrow> attr | Some _ \<Rightarrow> Some (PyBool False)))"

definition pyx_CLineForTraceback :: "'w env \<Rightarrow> bool \<Rightarrow> pyobj option \<Rightarrow> int \<Rightarrow> ('w, int \<times> pyobj option) cprog" where
  "pyx_CLineForTraceback E rt attr c_line =
    (if \<not> rt then ret (c_line, attr)
     else bnd err_fetch (\<lambda>e.
      bnd (capi E ''_PyDict_GetItem_KnownHash'' ()) (\<lambda>r.
      bnd (case (case r of None \<Rightarrow> None | Some _ \<Rightarrow> attr) of
            None \<Rightarrow> bnd (cline_attr_false E attr) (\<lambda>a. ret (0, a))
          | Some use_cline \<Rightarrow>
              if use_cline = PyBool False then ret (0, attr)
              else if use_cline = PyBool True then ret (c_line, attr)
              else bnd (pyx_IsTrue E use_cline) (\<lambda>t. ret (if t = Some True then c_line else 0, attr))) (\<lambda>x.
      sq (err_restore e) (ret x)))))"

section \<open>The traceback with a C line\<close>

text \<open>\<open>__Pyx_CreateCodeObjectForTraceback\<close> with a C line: the name shows the C file
  (\<open>__FILE__\<close>, a parameter) and the line.\<close>

definition create_code_cline :: "'w env \<Rightarrow> string \<Rightarrow> string \<Rightarrow> int \<Rightarrow> int \<Rightarrow> string \<Rightarrow> ('w, pycode option) cprog" where
  "create_code_cline E cfilenm funcname c_line py_line filename =
    (if c_line = 0 then pyx_CreateCodeObject E funcname py_line filename
     else bnd (capi E ''PyUnicode_FromFormat'' ()) (\<lambda>u. case u of None \<Rightarrow> ret None | Some _ \<Rightarrow>
       bnd (capi E ''PyUnicode_AsUTF8'' ()) (\<lambda>f. case f of None \<Rightarrow> ret None | Some _ \<Rightarrow>
       pyx_CreateCodeObject E (funcname @ '' ('' @ cfilenm @ '':'' @ show_int c_line @ '')'')
         py_line filename)))"

definition add_traceback_cline :: "'w env \<Rightarrow> string \<Rightarrow> bool \<Rightarrow> pyobj option \<Rightarrow> string \<Rightarrow> int \<Rightarrow> int \<Rightarrow> string \<Rightarrow> ('w, pyobj option) cprog" where
  "add_traceback_cline E cfilenm rt attr funcname c_line0 py_line filename =
    bnd (if c_line0 \<noteq> 0 then pyx_CLineForTraceback E rt attr c_line0 else ret (0, attr)) (\<lambda>(c_line, attr1).
    let key = (if c_line \<noteq> 0 then - c_line else py_line) in
    bnd (rd cocache) (\<lambda>c0. sq (case pyx_find_code_object c0 key of
        Some code \<Rightarrow> traceback_here E code py_line
      | None \<Rightarrow> bnd (create_code_cline E cfilenm funcname c_line py_line filename) (\<lambda>r. case r of
            None \<Rightarrow> ret ()
          | Some code \<Rightarrow> bnd (cache_alloc E c0) (\<lambda>mem.
              sq (upd (\<lambda>s. s\<lparr>cocache := pyx_insert_code_object mem key code (cocache s)\<rparr>))
                 (traceback_here E code py_line))))
    (ret attr1)))"

section \<open>Without the attribute there is no C line\<close>

text \<open>Statements that change only the world and the pending exception.\<close>

definition near :: "'w cst \<Rightarrow> 'w cst \<Rightarrow> bool" where
  "near s t = (\<exists>w e. t = s\<lparr>wld := w, curexc := e\<rparr>)"

lemma near_refl [simp]: "near s s"
  unfolding near_def by (intro exI [of _ "wld s"] exI [of _ "curexc s"]) simp

lemma near_trans: "near s t \<Longrightarrow> near t u \<Longrightarrow> near s u"
  by (cases s) (auto simp: near_def)

lemma bnd_RetE:
  assumes "bnd m f s = Ret r t"
  obtains v u where "m s = Ret v u" and "f v u = Ret r t"
  using assms by (auto simp: bnd_def split: out.splits)

lemma capi_near: "capi E f v s = Ret r t \<Longrightarrow> near s t"
  unfolding near_def
  by (cases s) (auto simp: capi_def run_defs need_gil_def sysc_def set_pyerr_def split: if_splits sysres.splits prod.splits option.splits)

lemma op_call_near: "op_call E f v s = Ret r t \<Longrightarrow> near s t"
  unfolding near_def
  by (cases s) (auto simp: op_call_def run_defs need_gil_def sysc_def set_pyerr_def set_err_def
      split: if_splits sysres.splits prod.splits option.splits)

lemma IsTrue_near: "pyx_IsTrue E v s = Ret r t \<Longrightarrow> near s t"
  by (auto simp: pyx_IsTrue_def split: pyobj.splits elim!: bnd_RetE dest!: op_call_near split: option.splits)

text \<open>The pending exception survives the choice, whatever the attribute is and whatever fails in it.\<close>

lemma cline_keeps:
  assumes "pyx_CLineForTraceback E rt attr l s = Ret (l', attr') t"
  shows "\<exists>w. t = s\<lparr>wld := w\<rparr>" and "l' \<in> {0, l}"
proof -
  have "(\<exists>w. t = s\<lparr>wld := w\<rparr>) \<and> l' \<in> {0, l}"
  proof (cases rt)
    case False
    then show ?thesis using assms by (intro conjI exI [of _ "wld s"]) (simp_all add: pyx_CLineForTraceback_def)
  next
    case True
    let ?use = "\<lambda>r. case r of None \<Rightarrow> None | Some _ \<Rightarrow> attr"
    let ?m = "\<lambda>r. case ?use (r :: unit option) of
        None \<Rightarrow> bnd (cline_attr_false E attr) (\<lambda>a. ret (0, a))
      | Some v \<Rightarrow> if v = PyBool False then ret (0, attr) else if v = PyBool True then ret (l, attr)
          else bnd (pyx_IsTrue E v) (\<lambda>t. ret (if t = Some True then l else 0, attr))"
    obtain e s1 r s2 x s3 where r: "err_fetch s = Ret e s1" "capi E ''_PyDict_GetItem_KnownHash'' () s1 = Ret r s2"
      "?m r s2 = Ret x s3" "sq (err_restore e) (ret x) s3 = Ret (l', attr') t"
      using assms True by (auto simp: pyx_CLineForTraceback_def elim!: bnd_RetE)
    have e: "e = curexc s" "near s s1"
      using r(1) by (cases s; auto simp: err_fetch_def run_defs need_gil_def near_def split: if_splits)+
    have "near s2 s3 \<and> fst x \<in> {0, l}"
      using r(3) by (auto simp: cline_attr_false_def split: option.splits if_splits elim!: bnd_RetE dest: IsTrue_near capi_near)
    then have n: "near s s3" "fst x \<in> {0, l}" using near_trans e(2) capi_near [OF r(2)] by blast+
    have "t = s3\<lparr>curexc := curexc s\<rparr>" "(l', attr') = x"
      using r(4) e(1) by (simp_all add: err_restore_def run_defs need_gil_def split: if_splits)
    then show ?thesis using n by (auto simp: near_def)
  qed
  then show "\<exists>w. t = s\<lparr>wld := w\<rparr>" "l' \<in> {0, l}" by simp_all
qed

lemma cline_absent:
  assumes "attr = None \<or> attr = Some (PyBool False)" and "pyx_CLineForTraceback E True attr l s = Ret (l', attr') t"
  shows "l' = 0 \<and> (attr' = None \<or> attr' = Some (PyBool False))"
  using assms by (auto simp: pyx_CLineForTraceback_def cline_attr_false_def run_defs split: out.splits option.splits)

text \<open>So the function is the one without a C line, and the attribute stays absent or false.\<close>

lemma traceback_without_cline:
  assumes "attr = None \<or> attr = Some (PyBool False)" and "add_traceback_cline E cf True attr fn l pl fi s = Ret attr' t"
  shows "\<exists>w. pyx_AddTraceback E fn pl fi (s\<lparr>wld := w\<rparr>) = Ret () t \<and> (attr' = None \<or> attr' = Some (PyBool False))"
proof -
  obtain l' a u where c: "(if l \<noteq> 0 then pyx_CLineForTraceback E True attr l else ret (0, attr)) s = Ret (l', a) u"
    and r: "(let key = (if l' \<noteq> 0 then - l' else pl) in
      bnd (rd cocache) (\<lambda>c0. sq (case pyx_find_code_object c0 key of
          Some code \<Rightarrow> traceback_here E code pl
        | None \<Rightarrow> bnd (create_code_cline E cf fn l' pl fi) (\<lambda>r. case r of
              None \<Rightarrow> ret ()
            | Some code \<Rightarrow> bnd (cache_alloc E c0) (\<lambda>mem.
                sq (upd (\<lambda>s. s\<lparr>cocache := pyx_insert_code_object mem key code (cocache s)\<rparr>))
                   (traceback_here E code pl)))) (ret a))) u = Ret attr' t"
    using assms(2) by (auto simp: add_traceback_cline_def elim!: bnd_RetE)
  have "l' = 0 \<and> (a = None \<or> a = Some (PyBool False)) \<and> (\<exists>w. u = s\<lparr>wld := w\<rparr>)"
  proof (cases "l = 0")
    case True
    then show ?thesis using c assms(1) by (auto intro: exI [of _ "wld s"])
  next
    case False
    then show ?thesis using c cline_absent [OF assms(1)] cline_keeps(1) by fastforce
  qed
  then obtain w where u: "u = s\<lparr>wld := w\<rparr>" and l: "l' = 0" "a = None \<or> a = Some (PyBool False)" by blast
  have cc: "create_code_cline E cf fn l' pl fi = pyx_CreateCodeObject E fn pl fi" by (simp add: create_code_cline_def l(1))
  have "bnd (pyx_AddTraceback E fn pl fi) (\<lambda>_. ret a) u = Ret attr' t"
    using r unfolding cc by (simp add: l(1) pyx_AddTraceback_def bnd_assoc sq_def)
  then show ?thesis using u l(2) by (auto elim!: bnd_RetE)
qed

end
