(* ===== verification/Spec2Isabelle.thy ===== *)
theory Spec2Isabelle
  imports ModDemo TraceDemo RunDemo CLine
begin

text \<open>
  Verification of the inter-process lock of speedysvc:
  src/speedysvc/hybrid_lock/linux/HybridLock.c, the C file that Cython makes
  from HybridLock.pyx.  All line numbers in the development are lines of that
  pair: C functions by name, tracebacks by the line of the .pyx file.

  \<^bold>\<open>The program.\<close>  A HybridLock is a lock for processes.  Its state is spread
  over three places: a named POSIX semaphore with at most one permit (the
  lock), a page of shared memory of the same name whose first byte says
  UNLOCKED, LOCKED or DESTROYED (read by the spin phase of \<open>lock\<close>) and whose
  next four bytes are the pid of the holder, and the object of each process
  (\<open>struct __pyx_obj_10HybridLock_HybridLock\<close>: the semaphore's handle, the two
  addresses, the descriptor, the copy of the name, the cleaned-up flag).  The
  constructor connects an object by one of four modes, \<open>lock\<close> spins on the byte
  for at most 6 ms or 0x2002 rounds and then waits for the permit, with or without a
  timeout, \<open>unlock\<close> posts it back, \<open>destroy\<close> marks the byte and removes both
  names.  Around it lies the run-time support that Cython generates: errors and
  tracebacks with a cache of code objects, calls, module globals, argument
  parsing, conversions of integers, and the initialisation of the module.

  \<^bold>\<open>How code becomes a definition.\<close>  Prelude has the shape of a C computation:
  \<open>prog\<close>, a function from the state to an outcome, which is a value and the new
  state, a jump to the error label of the function with the source position
  (\<open>__PYX_ERR\<close>), or no further behaviour: a call that never returns, undefined
  behaviour, or a C-API call without the interpreter lock.  Env has the data
  (Python objects and classes, the C structures, the state \<open>cst\<close> of a process)
  and the interface \<open>env\<close> of everything that is not in HybridLock.c: libc, shared
  memory, the C-API.  Every definition takes the interface as the argument \<open>E\<close>;
  its world is abstract, and since each call, also a load of the shared byte,
  returns a new world, other processes and threads may act between any two calls.
  Machine integers are words of their width.

  \<^bold>\<open>Theories and what they model.\<close>
  CodeCache: \<open>__pyx_bisect_code_objects\<close>, find and insert.
  Runtime, ErrProto: the error indicator, \<open>__Pyx_AddTraceback\<close>, \<open>__Pyx_Raise\<close>,
  calls, names of the module and of builtins, exception matching; the locale
  \<open>frame\<close> carries "an error value is returned exactly with an exception pending,
  and the interpreter lock is held" through every statement.
  PyArgs: positional and keyword arguments, \<open>__Pyx_PyInt_As_int\<close>, C strings.
  Conversions: the conversions to \<open>long\<close>, \<open>Py_ssize_t\<close> and \<open>Py_hash_t\<close> and back.
  NameCache: the cache that each place keeps of a name of the module, shown to be
  transparent.  FastCall: calls without a tuple of arguments, shown to be the
  general call (locale \<open>evaluator\<close>).  ExcInfo: the stack of handled exceptions around
  the one \<open>try\<close> statement.  TypeObject: the slots of the type and of the module.
  CLine: the C line of a traceback, shown to be absent unless a program asks for it.
  HL_Lock: the clock, \<open>lock\<close>, \<open>unlock\<close>, \<open>get_value\<close>, \<open>get_destroyed\<close>,
  \<open>get_pid_holding_lock\<close>.  HL_Init: \<open>init_mmap\<close>.  HL_Destroy: \<open>destroy\<close>, \<open>__del__\<close>.
  HL_Cinit: \<open>__cinit__\<close>, \<open>tp_new\<close>, \<open>tp_dealloc\<close>.  HL_Wrappers: the Python-visible
  methods, the pickling stubs, the method table, and the call of a bound method through
  \<open>__Pyx_PyObject_CallMethO\<close> or \<open>__Pyx_PyObject_Call\<close>, which report a NULL without an exception
  as a SystemError; \<open>hl_invoke\<close> enters a wrapper without them.  ModInit: \<open>__pyx_pymod_create\<close>,
  \<open>__pyx_pymod_exec\<close> and their phases.

  \<^bold>\<open>Theories of properties.\<close>
  Posix states in the locale \<open>quiet_os\<close> the documented effect of each system call
  when nobody interferes, as an abstract view (the count of each semaphore, the
  byte and pid of each segment, names, descriptors); LockSpec proves the
  behaviour of the lock operations over it.  Names extends it to \<open>quiet_fs\<close> with
  the effect on names; NameSpec, Construct, Modes and DestroySpec prove what the
  constructor does in each mode and what destruction leaves.  Neutral, Permits and
  Effects assume nothing about interference.  Neutral (locale \<open>neutral_law\<close>) finds the parts of the code
  that do nothing to the semaphore and the page; Permits (\<open>permit_law\<close>) counts the permits that
  \<open>lock\<close> and \<open>unlock\<close> take and give back; Effects (\<open>effect_law\<close>) lists what the two do to
  the semaphore, the byte and the pid, in order.  Returns (\<open>live_law\<close>) shows that the
  calls of the lock end when those of the system do, and what of them is left where the machine
  does not make the unaligned accesses to the pid.  ModErr, ModStr and ModSpec are the error
  protocol, the string table and the result of the initialisation.
  Kernel is a concrete operating system with a schedule of what other processes
  do; it interprets \<open>quiet_os\<close>, \<open>quiet_fs\<close>, \<open>permit_law\<close> and \<open>live_law\<close>.  Demo, ModDemo,
  RunDemo and TraceDemo are concrete processes on which the properties are instantiated.
  Traces and Schedules put several processes side by side: a process is the list
  of the calls that its run of the code makes, with their results; a schedule
  interleaves them; the shared semaphore, byte and pid decide which results are
  possible.  The abstract specification is a mutex with an owner; the simulation also
  says that the owner's writes to the byte and the pid stay.  Final has the schedules on
  a destroyed lock: nothing of it changes any more.

  \<^bold>\<open>Bounds.\<close>  The spin loop is a total function (its counter stops it after
  0x2002 rounds); Returns shows that all of \<open>lock\<close> reads the clock at most 0x2004 times.  The constructor calls itself once in the mode
  CREATE_NEW_OVERWRITE; its fuel is the recursion depth the interpreter has left,
  and depth 0 is the RecursionError that Python raises there.  A process has
  \<open>open_max\<close> descriptors.  The count of a semaphore is at most \<open>sem_value_max\<close>.

  \<^bold>\<open>Undefined behaviour.\<close>  The pid is an \<open>int\<close> one byte into the page, so C leaves its loads and
  stores undefined.  The model leaves each to the machine, as the calls \<open>x_ld32\<close> and \<open>x_st32\<close> of the
  interface, which may be undefined: \<open>live_law\<close> allows that, the interfaces \<open>quiet_os\<close> and \<open>quiet_fs\<close>
  assume a machine that makes the accesses, and the others speak of the calls that returned.
  Signed arithmetic (the clock in milliseconds, the deadline of a timed wait) wraps around: setup.py gives
  the extension no flags of its own, and setuptools compiles it with those of the interpreter, with
  -fwrapv among them for GCC.  For a clock in the range of the property on the clock nothing overflows.

  \<^bold>\<open>What is simplified.\<close>  Reference counts, the chain \<open>__context__\<close> of exceptions, outside ExcInfo the stack of
  handled exceptions, outside NameCache the caches of names, and
  outside CLine the C line of a traceback are not part of the
  state; an object made by the code and dropped again has no effect but for the
  existing lock of CREATE_NEW_OVERWRITE, whose \<open>tp_dealloc\<close> is modelled.  Calls
  of the C-API that can only succeed or fail with an exception are one
  function \<open>x_py\<close> of the interface; the lookup of an attribute of a bound method is such a
  call.  The spin counter is an integer, as its bound is far below that of \<open>int\<close>.  The depth of recursion is an
  argument of the constructor and not part of the state.  The existing lock of CREATE_NEW_OVERWRITE is released before the
  error exit instead of after it, which nothing can observe.  The dictionary of the module is
  read from the interpreter once, when it is executed.  The
  loop for the metaclass takes the subclass relation as an argument, because a metaclass may have several
  bases and the classes of the model have one.  The dictionary
  of the type holds the entries of the method table.  In Permits and Effects, a call of a
  Python object that a user has put in the place of an exception class neither
  waits nor posts.  In Schedules, the code of a client
  between two calls may make any call of the system except that it leaves the
  semaphore and the page of its lock object alone (so it does not destroy the
  lock), and a client calls \<open>lock\<close> only while it does not have the lock (a
  process that does waits for itself).

  \<^bold>\<open>Not modelled.\<close>  The branches of the preprocessor for Python 2, PyPy, Stackless and
  compilers other than GCC, and the macros that choose them; the reference-count
  debugger; the separate
  Windows lock, of which the repository has only the Cython source; the Python services, servers,
  clients and loggers around the lock, which are not C.
\<close>

section \<open>Mutual exclusion and the functional behaviour of the lock\<close>

text \<open>C1: mutual exclusion.  Let the semaphore have one permit, either available, held by this thread or
  held by the rest of the system, in every world the run passes through.  Whatever other threads and
  processes do between and during the calls of lock, if lock does not report an error then this
  thread holds the permit, none is available and nobody else holds one.\<close>

theorem lock_excludes:
  assumes "permit_law E (tracks I held)"
    and "\<And>w. I w \<Longrightarrow> 0 \<le> avail w \<and> 0 \<le> rest w \<and> avail w + held w h + rest w = (1 :: int)"
    and "I (wld c)" and "objs c n = Some obj" and "semaphore obj = Some h" and "held (wld c) h = 0"
    and "lock_f E n oa c = Ret r c'" and "r \<noteq> - 1"
  shows "held (wld c') h = 1 \<and> avail (wld c') = 0 \<and> rest (wld c') = 0"
proof -
  have "tracks I held h 1 (wld c) (wld c')"
    using permit_law.lock_took [OF assms(1,7,4,5)] assms(8) by simp
  then have "I (wld c')" "held (wld c') h = 1" using assms(3,6) by (simp_all add: tracks_def)
  then show ?thesis using assms(2) [of "wld c'"] by auto
qed

theorem lock_excludes_witness:
  "\<exists>c'. lock_f kE 0 None p_demo = Ret 0 c' \<and> k_held (wld c') 3 = 1 \<and> k_held (wld p_demo) 3 = 0"
proof -
  obtain w' where w: "lock_f kE 0 None p_demo = Ret 0 (p_demo\<lparr>wld := w'\<rparr>)"
    using k.ev_apply [OF k.ev_lock [of p_demo _ 0 5 2]] by (auto simp: demo)
  have h: "k_held (wld p_demo) 3 = 0" "k_benign (wld p_demo)"
    by (simp_all add: k_held_def k_benign_def demo_defs)
  have "k_held (wld (p_demo\<lparr>wld := w'\<rparr>)) 3 = 1 \<and> 1 - k_held (wld (p_demo\<lparr>wld := w'\<rparr>)) 3 = 0 \<and> (0 :: int) = 0"
    by (rule lock_excludes [where avail = "\<lambda>w. 1 - k_held w 3" and rest = "\<lambda>w. 0" and obj = lock_demo, OF kp.permit_law_axioms _ h(2) _ _ h(1) w])
      (simp_all add: p_demo_def p_on_def lock_demo_def k_held_def split: option.split)
  then show ?thesis using w h by simp
qed

text \<open>C2: unlock gives back exactly one permit when it returns 0 and none when it returns anything else,
  whatever the rest of the system does meanwhile.\<close>

theorem unlock_gives_back:
  assumes "permit_law E (tracks I held)" and "I (wld c)" and "objs c n = Some obj" and "semaphore obj = Some h"
    and "unlock_f E n c = Ret r c'"
  shows "held (wld c') h = held (wld c) h - (if r = 0 then 1 else 0)"
  using permit_law.unlock_gave [OF assms(1,5,3,4)] assms(2) by (auto simp: tracks_def split: if_splits)

theorem unlock_gives_back_witness:
  "\<exists>c'. unlock_f kE 0 p_taken = Ret 0 c' \<and> k_held (wld c') 3 = k_held (wld p_taken) 3 - 1"
proof -
  obtain c' where w: "unlock_f kE 0 p_taken = Ret 0 c'"
    using k.ev_apply [OF k.ev_unlock [of p_taken _ 0 5 2]] by (auto simp: demo)
  have "k_held (wld c') 3 = k_held (wld p_taken) 3 - (if (0 :: c_int) = 0 then 1 else 0)"
    by (rule unlock_gives_back [OF kp.permit_law_axioms _ _ _ w, where obj = lock_demo])
      (simp_all add: k_benign_def demo_defs)
  then show ?thesis using w by simp
qed

text \<open>C3: the shared lock implements a mutex with an owner.  Take any number of processes, each of them a
  client that calls lock, unlock and the queries in any order and unlock only while it has the lock, each
  possibly in the middle of a call, and any schedule of their calls to the system in which the semaphore
  behaves as a semaphore with one permit and the shared page as memory.  Then the waits and posts of the
  schedule are a run of the abstract mutex (acquired only when free, released only by its owner); the count
  of the semaphore, the permits the processes hold, the byte and the pid are those of the abstract state; a
  process that is between two calls and has the lock is the owner, so no two processes have it; and as long
  as a process whose lock returned 0 makes no other call, no permit is available, the byte says LOCKED and
  the pid is its own, whatever the others do.\<close>

theorem schedules_refine_mutex:
  assumes "sh_run H A M T \<lparr>s_cnt = 1, s_byte = v, s_pid = i\<rparr> = Some s"
    and "\<And>p. client_prefix True (n p) (c p) (proj p T)" and "\<And>p. conn (n p) (H p) (A p) (c p)"
  shows "\<exists>q. mutex_run None (abs_ops H A T) = Some q \<and> sim H A T s q
    \<and> (\<forall>p c'. client True (n p) (c p) False (proj p T) True c' \<longrightarrow> q = Some p)
    \<and> (\<forall>p us vs oa c1 c2. proj p T = us @ vs \<and> client True (n p) (c p) False us False c1
        \<and> runs_on (lock_f traceE (n p) oa) c1 vs 0 c2 \<longrightarrow> s_cnt s = 0 \<and> s_byte s = 0 \<and> s_pid s = M p)"
proof -
  obtain q where q: "mutex_run None (abs_ops H A T) = Some q" "sim H A T s q" using strict_schedule [OF assms] by blast
  show ?thesis using q owner_unique [OF q(2) _ assms(3)] locked_state [OF assms(1) q(2) assms(3)] by blast
qed

theorem schedules_refine_mutex_witness:
  "\<exists>s. mutex_run None (abs_ops (\<lambda>_. 3) (\<lambda>_. 4096) T_demo) = Some (Some 0)
    \<and> sim (\<lambda>_. 3) (\<lambda>_. 4096) T_demo s (Some 0) \<and> s_byte s = 0 \<and> s_pid s = t_pid 0"
proof -
  let ?s = "\<lparr>s_cnt = 0, s_byte = 0, s_pid = 42\<rparr>"
  obtain q where q: "mutex_run None (abs_ops (\<lambda>_. 3) (\<lambda>_. 4096) T_demo) = Some q"
    "sim (\<lambda>_. 3) (\<lambda>_. 4096) T_demo ?s q"
    and own: "\<forall>p c'. client True 0 t_demo False (proj p T_demo) True c' \<longrightarrow> q = Some p"
    and top: "\<forall>p us vs oa c1 c2. proj p T_demo = us @ vs \<and> client True 0 t_demo False us False c1
        \<and> runs_on (lock_f traceE 0 oa) c1 vs 0 c2 \<longrightarrow> s_cnt ?s = 0 \<and> s_byte ?s = 0 \<and> s_pid ?s = t_pid p"
    using schedules_refine_mutex [OF T_demo_run, of "\<lambda>_. 0" "\<lambda>_. t_demo"] t_conn T_demo_prefix by auto
  have "client True 0 t_demo False (proj 0 T_demo) True t_demo" using t_locks [where b = 1 and i = 42] by (simp add: T_demo_proj)
  then have "q = Some 0" using own by blast
  moreover have "s_byte ?s = 0 \<and> s_pid ?s = t_pid 0"
    using top [rule_format, of 0 "[]" _ t_demo no_spin t_demo] t_lock [of 1 42] client.stop by (simp add: T_demo_proj)
  ultimately show ?thesis using q by blast
qed

text \<open>C4: a free lock is taken: lock returns 0 for every timeout and spin setting, takes one permit
  of the semaphore, marks the shared byte LOCKED, records the pid of the caller, and changes nothing else.\<close>

theorem lock_takes_free_lock:
  assumes "quiet_os E ok osv me" and "lock_at c (osv (wld c)) n k g" and "gil c" and "std_module c"
    and "v_byte (osv (wld c)) g \<noteq> 0x7F" and "0 < v_sem (osv (wld c)) k" and "ok (wld c)"
  shows "\<exists>w'. lock_f E n oa c = Ret 0 (c\<lparr>wld := w'\<rparr>) \<and> ok w' \<and> osv w' = take_view me k g (osv (wld c))"
  by (rule quiet_os.ev_apply [OF assms(1) quiet_os.ev_lock [OF assms(1-6)] assms(7)])

theorem lock_takes_free_lock_witness:
  "\<exists>w'. lock_f kE 0 None p_demo = Ret 0 (p_demo\<lparr>wld := w'\<rparr>) \<and> k_quiet w'
    \<and> k_view w' = take_view 42 5 2 (k_view (wld p_demo))"
  by (rule lock_takes_free_lock [OF k.quiet_os_axioms demo_lock(1)]) (simp_all add: demo)

text \<open>C5: a lock that another process keeps is not taken: with a timeout, lock returns -1 with a
  TimeoutError pending, and the semaphore, the byte and the pid are as before.\<close>

theorem lock_times_out:
  assumes "quiet_os E ok osv me" and "lock_at c (osv (wld c)) n k g" and "gil c" and "std_module c"
    and "v_byte (osv (wld c)) g \<noteq> 0x7F" and "v_sem (osv (wld c)) k = 0" and "lock_timeout oa \<noteq> - 1" and "ok (wld c)"
  shows "\<exists>w'. lock_f E n oa c = Ret (- 1) ((traced ''HybridLock.HybridLock.lock'' 380 (pyx_f 0)
      (raised TimeoutErrorT [] c))\<lparr>wld := w'\<rparr>) \<and> ok w' \<and> osv w' = osv (wld c)"
  by (rule quiet_os.ev_apply [OF assms(1) quiet_os.ev_lock_timeout [OF assms(1-7)] assms(8)])

theorem lock_times_out_witness:
  "\<exists>w'. lock_f kE 0 (Some \<lparr>pyx_n = 2, opt_timeout = 5, opt_spin = 0\<rparr>) p_taken
    = Ret (- 1) ((traced ''HybridLock.HybridLock.lock'' 380 (pyx_f 0) (raised TimeoutErrorT [] p_taken))\<lparr>wld := w'\<rparr>)
      \<and> k_quiet w' \<and> k_view w' = k_view (wld p_taken)"
  by (rule lock_times_out [OF k.quiet_os_axioms demo_lock(2)]) (simp_all add: demo lock_timeout_def)

text \<open>C6: without a timeout, lock on a lock that is never released waits in sem_wait for ever.\<close>

theorem lock_waits:
  assumes "quiet_os E ok osv me" and "lock_at c (osv (wld c)) n k g" and "gil c" and "std_module c"
    and "v_byte (osv (wld c)) g \<noteq> 0x7F" and "v_sem (osv (wld c)) k = 0" and "lock_timeout oa = - 1" and "ok (wld c)"
  shows "lock_f E n oa c = Stuck Blocks"
  by (rule quiet_os.evb_apply [OF assms(1) quiet_os.evb_lock [OF assms(1-7)] assms(8)])

theorem lock_waits_witness: "lock_f kE 0 None p_taken = Stuck Blocks"
  by (rule lock_waits [OF k.quiet_os_axioms demo_lock(2)]) (simp_all add: demo lock_timeout_def)

text \<open>C7: a destroyed lock is refused: on an object whose byte says DESTROYED, lock (for every timeout and
  spin setting) and unlock return -1 with SemaphoreDestroyedException set and a traceback entry of their
  own line, and neither waits, posts or changes anything in the system.\<close>

theorem lock_refuses_destroyed:
  assumes "quiet_os E ok osv me" and "mapped c (osv (wld c)) n g" and "gil c" and "std_module c"
    and "v_byte (osv (wld c)) g = 0x7F" and "ok (wld c)"
  shows "(\<exists>w'. lock_f E n oa c = Ret (- 1) ((traced ''HybridLock.HybridLock.lock'' 322 (pyx_f 0)
      (raised SemaphoreDestroyed [PyStr lock_destroyed_msg] c))\<lparr>wld := w'\<rparr>) \<and> ok w' \<and> osv w' = osv (wld c))
    \<and> (\<exists>w'. unlock_f E n c = Ret (- 1) ((traced ''HybridLock.HybridLock.unlock'' 391 (pyx_f 0)
      (raised SemaphoreDestroyed [] c))\<lparr>wld := w'\<rparr>) \<and> ok w' \<and> osv w' = osv (wld c))"
  by (intro conjI quiet_os.ev_apply [OF assms(1) quiet_os.ev_lock_destroyed [OF assms(1-5)] assms(6)]
      quiet_os.ev_apply [OF assms(1) quiet_os.ev_unlock_destroyed [OF assms(1-5)] assms(6)])

theorem lock_refuses_destroyed_witness:
  "(\<exists>w'. lock_f kE 0 None p_dead = Ret (- 1) ((traced ''HybridLock.HybridLock.lock'' 322 (pyx_f 0)
      (raised SemaphoreDestroyed [PyStr lock_destroyed_msg] p_dead))\<lparr>wld := w'\<rparr>) \<and> k_quiet w'
      \<and> k_view w' = k_view (wld p_dead))
    \<and> (\<exists>w'. unlock_f kE 0 p_dead = Ret (- 1) ((traced ''HybridLock.HybridLock.unlock'' 391 (pyx_f 0)
      (raised SemaphoreDestroyed [] p_dead))\<lparr>wld := w'\<rparr>) \<and> k_quiet w' \<and> k_view w' = k_view (wld p_dead))"
  by (rule lock_refuses_destroyed [OF k.quiet_os_axioms lock_at_mapped [OF demo_lock(3)]]) (simp_all add: demo)

text \<open>C8: unlock on a taken lock returns 0, marks the byte UNLOCKED and adds one permit; it does not
  look at who holds the lock.\<close>

theorem unlock_releases:
  assumes "quiet_os E ok osv me" and "lock_at c (osv (wld c)) n k g" and "gil c" and "std_module c"
    and "v_byte (osv (wld c)) g \<noteq> 0x7F" and "v_sem (osv (wld c)) k = 0" and "ok (wld c)"
  shows "\<exists>w'. unlock_f E n c = Ret 0 (c\<lparr>wld := w'\<rparr>) \<and> ok w' \<and> osv w' = release_view k g (osv (wld c))"
  by (rule quiet_os.ev_apply [OF assms(1) quiet_os.ev_unlock [OF assms(1-6)] assms(7)])

theorem unlock_releases_witness:
  "\<exists>w'. unlock_f kE 0 p_taken = Ret 0 (p_taken\<lparr>wld := w'\<rparr>) \<and> k_quiet w'
    \<and> k_view w' = release_view 5 2 (k_view (wld p_taken))"
  by (rule unlock_releases [OF k.quiet_os_axioms demo_lock(2)]) (simp_all add: demo)

text \<open>C9: unlock on a lock that is not taken fails from Python with the SystemError of a NULL result
  without an exception: the function returns its error value -1 without setting one.  No permit is added.\<close>

theorem unlock_of_free_lock:
  assumes "quiet_os E ok osv me" and "lock_at c (osv (wld c)) n k g" and "gil c" and "std_module c"
    and "v_byte (osv (wld c)) g \<noteq> 0x7F" and "0 < v_sem (osv (wld c)) k" and "v_sem (osv (wld c)) k \<le> sem_value_max"
    and "curexc c = None" and "ok (wld c)"
  shows "\<exists>w'. hl_method_call E n ''unlock'' [] None c
      = Ret None (((traced ''HybridLock.HybridLock.unlock'' 389 (pyx_f 0) c)\<lparr>curexc := Some null_error\<rparr>)\<lparr>wld := w'\<rparr>)
    \<and> ok w' \<and> osv w' = (osv (wld c))\<lparr>v_byte := (v_byte (osv (wld c)))(g := 1)\<rparr>"
  by (rule quiet_os.ev_apply [OF assms(1) quiet_os.ev_unlock_unlocked_pw [OF assms(1-8)] assms(9)])

theorem unlock_of_free_lock_witness:
  "\<exists>w'. hl_method_call kE 0 ''unlock'' [] None p_demo
      = Ret None (((traced ''HybridLock.HybridLock.unlock'' 389 (pyx_f 0) p_demo)\<lparr>curexc := Some null_error\<rparr>)\<lparr>wld := w'\<rparr>)
    \<and> k_quiet w' \<and> k_view w' = (k_view (wld p_demo))\<lparr>v_byte := (v_byte (k_view (wld p_demo)))(2 := 1)\<rparr>"
  by (rule unlock_of_free_lock [OF k.quiet_os_axioms demo_lock(1)]) (simp_all add: demo sem_value_max_def)

text \<open>C10: the queries.  On a lock that is not destroyed, get_value returns the count of the semaphore, for
  every count sem_t can have; get_pid_holding_lock returns the pid recorded by the last successful lock while
  the lock is taken, and 0 while it is free.  Neither changes anything.\<close>

theorem get_value_is_count:
  assumes "quiet_os E ok osv me" and "lock_at c (osv (wld c)) n k g" and "std_module c"
    and "v_byte (osv (wld c)) g \<noteq> 0x7F" and "v_sem (osv (wld c)) k \<le> sem_value_max" and "ok (wld c)"
  shows "(\<exists>w'. get_value_f E n c = Ret (of_nat (v_sem (osv (wld c)) k)) (c\<lparr>wld := w'\<rparr>) \<and> ok w' \<and> osv w' = osv (wld c))
    \<and> (\<exists>w'. get_pid_f E n c = Ret (if v_sem (osv (wld c)) k = 0 then v_pid (osv (wld c)) g else 0) (c\<lparr>wld := w'\<rparr>)
      \<and> ok w' \<and> osv w' = osv (wld c))"
  by (intro conjI quiet_os.ev_apply [OF assms(1) quiet_os.ev_get_value [OF assms(1-5)] assms(6)]
      quiet_os.ev_apply [OF assms(1) quiet_os.ev_get_pid [OF assms(1-5)] assms(6)])

theorem get_value_is_count_witness:
  "(\<exists>w'. get_value_f kE 0 p_taken = Ret (of_nat (v_sem (k_view (wld p_taken)) 5)) (p_taken\<lparr>wld := w'\<rparr>) \<and> k_quiet w'
      \<and> k_view w' = k_view (wld p_taken))
    \<and> (\<exists>w'. get_pid_f kE 0 p_taken = Ret (if v_sem (k_view (wld p_taken)) 5 = 0 then v_pid (k_view (wld p_taken)) 2 else 0)
      (p_taken\<lparr>wld := w'\<rparr>) \<and> k_quiet w' \<and> k_view w' = k_view (wld p_taken))"
  by (rule get_value_is_count [OF k.quiet_os_axioms demo_lock(2)]) (simp_all add: demo)

text \<open>C11: from Python, lock(timeout, spin) followed by unlock() returns 0 twice and gives the permit
  back: the semaphore is as before, the byte is UNLOCKED and the pid is the caller's.\<close>

theorem lock_unlock_roundtrip:
  assumes "quiet_os E ok osv me" and "lock_at c (osv (wld c)) n k g" and "gil c" and "std_module c"
    and "v_byte (osv (wld c)) g \<noteq> 0x7F" and "v_sem (osv (wld c)) k = 1" and "ok (wld c)"
  shows "\<exists>w1 w2. hl_method_call E n ''lock'' [PyInt (sint (t :: c_int)), PyInt (sint (sp :: c_int))] None c = Ret (Some (PyInt 0)) (c\<lparr>wld := w1\<rparr>)
    \<and> hl_method_call E n ''unlock'' [] None (c\<lparr>wld := w1\<rparr>) = Ret (Some (PyInt 0)) (c\<lparr>wld := w2\<rparr>)
    \<and> osv w2 = (osv (wld c))\<lparr>v_byte := (v_byte (osv (wld c)))(g := 1), v_pid := (v_pid (osv (wld c)))(g := me)\<rparr>"
proof -
  let ?V = "osv (wld c)"
  obtain w1 where 1: "hl_method_call E n ''lock'' [PyInt (sint t), PyInt (sint sp)] None c = Ret (Some (PyInt 0)) (c\<lparr>wld := w1\<rparr>)"
    "ok w1" "osv w1 = take_view me k g ?V"
    using quiet_os.ev_apply [OF assms(1) quiet_os.ev_lock_pw [OF assms(1) quiet_os.ev_lock_args(2) [OF assms(1), where t = t and sp = sp]
      assms(2-5)] assms(7)] assms(6) by auto
  let ?c = "c\<lparr>wld := w1\<rparr>"
  have c: "lock_at ?c (osv (wld ?c)) n k g" "gil ?c" "std_module ?c" "v_byte (osv (wld ?c)) g \<noteq> 0x7F"
    "v_sem (osv (wld ?c)) k = 0"
    using assms(2-4,6) 1(3) by (simp_all add: lock_at_def take_view_def std_module_def)
  obtain w2 where 2: "hl_method_call E n ''unlock'' [] None ?c = Ret (Some (PyInt 0)) (?c\<lparr>wld := w2\<rparr>)"
    "osv w2 = release_view k g (osv (wld ?c))"
    using quiet_os.ev_apply [OF assms(1) quiet_os.ev_unlock_pw [OF assms(1) c]] 1(2) by auto
  have "osv w2 = ?V\<lparr>v_byte := (v_byte ?V)(g := 1), v_pid := (v_pid ?V)(g := me)\<rparr>"
    using 2(2) 1(3) assms(6) by (simp add: take_view_def release_view_def fun_upd_idem)
  then show ?thesis using 1(1) 2(1) by (intro exI conjI) simp_all
qed

theorem lock_unlock_roundtrip_witness:
  "\<exists>w1 w2. hl_method_call kE 0 ''lock'' [PyInt (sint (3 :: c_int)), PyInt (sint (0 :: c_int))] None p_demo
      = Ret (Some (PyInt 0)) (p_demo\<lparr>wld := w1\<rparr>)
    \<and> hl_method_call kE 0 ''unlock'' [] None (p_demo\<lparr>wld := w1\<rparr>) = Ret (Some (PyInt 0)) (p_demo\<lparr>wld := w2\<rparr>)
    \<and> k_view w2 = (k_view (wld p_demo))\<lparr>v_byte := (v_byte (k_view (wld p_demo)))(2 := 1),
        v_pid := (v_pid (k_view (wld p_demo)))(2 := 42)\<rparr>"
  by (rule lock_unlock_roundtrip [OF k.quiet_os_axioms demo_lock(1)]) (simp_all add: demo)

text \<open>C12: every call ends.  When the calls of the system return, where sem_wait may not and where the
  machine may not make the unaligned accesses to the pid, and the object is connected, then lock returns and
  has read the clock at most 0x2004 times, however the shared byte behaves.  It does otherwise only when it
  was called without a timeout and its sem_wait never returns, or when the machine traps on the pid; the same
  trap is all that can keep get_pid_holding_lock from returning, and unlock and get_value always return.
  On a machine that makes no store to an odd address no call of lock succeeds: the store of the pid of a
  lock that was taken is the last thing that it does.\<close>

theorem calls_return:
  assumes "live_law E ok cnt h a" and "conn n h a c" and "ok (wld c)" and "gil c"
  shows "(case lock_f E n oa c of
        Ret r t \<Rightarrow> cnt (wld t) \<le> cnt (wld c) + 0x2004
      | Goto p l t \<Rightarrow> False
      | Stuck u \<Rightarrow> u = Blocks \<and> lock_timeout oa = - 1 \<or> u = Undefined \<and> traps E ok a)
    \<and> (\<exists>r t. unlock_f E n c = Ret r t) \<and> (\<exists>r t. get_value_f E n c = Ret r t)
    \<and> (case get_pid_f E n c of
        Ret r t \<Rightarrow> True
      | Goto p l t \<Rightarrow> False
      | Stuck u \<Rightarrow> u = Undefined \<and> traps E ok a)
    \<and> ((\<forall>w i. ok w \<longrightarrow> x_st32 E (a + 1) i w = SysUndef) \<longrightarrow> (\<forall>t. lock_f E n oa c \<noteq> Ret 0 t))"
  using live_law.lock_ends [OF assms, of oa] live_law.others_end [OF assms] live_law.get_pid_ends [OF assms]
    live_law.never_locked [OF assms, of oa] by blast

theorem calls_return_witness:
  "(case lock_f kE 0 (Some \<lparr>pyx_n = 2, opt_timeout = 5, opt_spin = 1\<rparr>) p_taken of
        Ret r t \<Rightarrow> k_ms (wld t) \<le> k_ms (wld p_taken) + 0x2004
      | Goto p l t \<Rightarrow> False
      | Stuck u \<Rightarrow> False)
    \<and> (\<exists>r t. unlock_f kE 0 p_taken = Ret r t) \<and> (\<exists>r t. get_value_f kE 0 p_taken = Ret r t)
    \<and> (\<exists>r t. get_pid_f kE 0 p_taken = Ret r t)
    \<and> (\<forall>t. lock_f kE_strict 0 None p_demo \<noteq> Ret 0 t)"
proof -
  have c: "conn 0 3 4096 p_taken" "k_open 3 4096 (wld p_taken)" "gil p_taken"
      "conn 0 3 4096 p_demo" "k_open 3 4096 (wld p_demo)" "gil p_demo"
    by (simp_all add: demo_defs conn_def k_open_def)
  note t = calls_return [OF kl.live_law_axioms c(1-3), of "Some \<lparr>pyx_n = 2, opt_timeout = 5, opt_spin = 1\<rparr>"]
  note d = calls_return [OF kls.live_law_axioms c(4-6), of None]
  have "\<forall>w i. k_open 3 4096 w \<longrightarrow> x_st32 kE_strict (4096 + 1) i w = SysUndef" by (simp add: kE_strict_def)
  then have "\<forall>t. lock_f kE_strict 0 None p_demo \<noteq> Ret 0 t" using d by blast
  moreover have "\<exists>r t. get_pid_f kE 0 p_taken = Ret r t" using t k_not_traps by (auto split: out.splits)
  moreover have "lock_timeout (Some \<lparr>pyx_n = 2, opt_timeout = 5, opt_spin = 1\<rparr>) \<noteq> - 1" by (simp add: lock_timeout_def)
  ultimately show ?thesis using t k_not_traps by (auto split: out.splits)
qed

section \<open>Races between processes\<close>

text \<open>C13: a process that calls unlock without having the lock can break mutual exclusion, although unlock
  looks at the count of the semaphore before it posts.  The schedule is the whole history of a fresh lock and
  of two processes.  Process 0 calls lock, which returns 0 and leaves the count 0.  Then both processes call
  unlock, process 1 without having the lock: each call makes the four calls up to sem_getvalue, which finds 0,
  before either makes its sem_post; both calls return 0 and the count is 2.  Then both processes call lock and
  both calls return 0, so that both have the lock.\<close>

theorem double_unlock_breaks_exclusion:
  "sh_run (\<lambda>_. 3) (\<lambda>_. 4096) t_pid (acts 0 (lock_check_ev 1 @ lock_take_ev 42))
        \<lparr>s_cnt = 1, s_byte = 1, s_pid = 0\<rparr> = Some \<lparr>s_cnt = 0, s_byte = 0, s_pid = 42\<rparr>
    \<and> sh_run (\<lambda>_. 3) (\<lambda>_. 4096) t_pid
        (acts 0 (unlock_free_ev 0) @ acts 1 (unlock_free_ev 1) @ acts 0 [EvPost 3 0] @ acts 1 [EvPost 3 0])
        \<lparr>s_cnt = 0, s_byte = 0, s_pid = 42\<rparr> = Some \<lparr>s_cnt = 2, s_byte = 1, s_pid = 42\<rparr>
    \<and> sh_run (\<lambda>_. 3) (\<lambda>_. 4096) t_pid (acts 0 (lock_check_ev 1 @ lock_take_ev 42) @ acts 1 (lock_check_ev 0 @ lock_take_ev 43))
        \<lparr>s_cnt = 2, s_byte = 1, s_pid = 42\<rparr> = Some \<lparr>s_cnt = 0, s_byte = 0, s_pid = 43\<rparr>
    \<and> runs_on (lock_f traceE 0 no_spin) t_demo (ev0 (lock_check_ev 1 @ lock_take_ev 42)) 0 t_demo
    \<and> runs_on (unlock_f traceE 0) t_demo (ev0 (unlock_free_ev 0 @ [EvPost 3 0])) 0 t_demo
    \<and> runs_on (unlock_f traceE 0) t_demo (ev0 (unlock_free_ev 1 @ [EvPost 3 0])) 0 t_demo
    \<and> runs_on (lock_f traceE 0 no_spin) t_demo (ev0 (lock_check_ev 0 @ lock_take_ev 43)) 0 t_demo
    \<and> client True 0 t_demo False (ev0 (lock_check_ev 1 @ lock_take_ev 42) @ ev0 (unlock_free_ev 0 @ [EvPost 3 0])
        @ ev0 (lock_check_ev 1 @ lock_take_ev 42)) True t_demo
    \<and> client False 0 t_demo False (ev0 (unlock_free_ev 1 @ [EvPost 3 0]) @ ev0 (lock_check_ev 0 @ lock_take_ev 43)) True t_demo"
  by (intro conjI t_lock t_unlock t_client_lock t_client_unlock t_locks) (simp_all add: acts_def ev_defs wait_eff_def t_pid_def)

text \<open>C14: the marker of a destroyed lock can be lost.  The schedule is the whole history of a fresh lock and of
  three processes.  Process 0 is in lock, after its test of the marker and before its wait, when process 1
  destroys the lock; the destroy returns 0, the byte is the marker and process 2 gets 1 from get_destroyed.
  Then process 0 goes on: it takes the permit and writes LOCKED over the marker, its call returns 0, and
  process 2 gets 0 from get_destroyed.\<close>

theorem destroyed_marker_lost:
  "sh_run (\<lambda>_. 3) (\<lambda>_. 4096) t_pid (acts 0 (lock_check_ev 1) @ acts 1 destroy_ev @ acts 2 [EvLd8 4096 0x7F])
        \<lparr>s_cnt = 1, s_byte = 1, s_pid = 0\<rparr> = Some \<lparr>s_cnt = 1, s_byte = 0x7F, s_pid = 0\<rparr>
    \<and> sh_run (\<lambda>_. 3) (\<lambda>_. 4096) t_pid (acts 0 (lock_take_ev 42) @ acts 2 [EvLd8 4096 0])
        \<lparr>s_cnt = 1, s_byte = 0x7F, s_pid = 0\<rparr> = Some \<lparr>s_cnt = 0, s_byte = 0, s_pid = 42\<rparr>
    \<and> runs_on (lock_f traceE 0 no_spin) t_demo (ev0 (lock_check_ev 1 @ lock_take_ev 42)) 0 t_demo
    \<and> (\<exists>c1. runs_on (destroy_f traceE 0) t_demo (ev0 destroy_ev) 0 c1)
    \<and> runs_on (get_destroyed_f traceE 0) t_demo (ev0 [EvLd8 4096 0x7F]) 1 t_demo
    \<and> runs_on (get_destroyed_f traceE 0) t_demo (ev0 [EvLd8 4096 0]) 0 t_demo"
  by (intro conjI t_lock t_destroy t_get_destroyed t_is_destroyed) (simp_all add: acts_def ev_defs wait_eff_def t_pid_def)

text \<open>C15: a destroyed lock stays destroyed for processes that are between two calls.  When the byte says
  DESTROYED and no process is inside a call, then whatever clients do afterwards, in any schedule, the count,
  the byte and the pid stay as they are; every lock returns -1 and no unlock returns 0, not even that of a
  process which has the lock; so when the permit was taken it is never given back, and a process that waits
  for it waits for ever.\<close>

theorem destroyed_is_final:
  assumes "sh_run H A M T s = Some s'" and "s_byte s = 0x7F"
    and "\<And>p. resumes (n p) (c p) (proj p T)" and "\<And>p. conn (n p) (H p) (A p) (c p)"
  shows "s' = s
    \<and> (\<forall>p us vs oa b b1 c1 r c2. proj p T = us @ vs \<and> client False (n p) (c p) b us b1 c1 \<longrightarrow>
        (runs_on (lock_f traceE (n p) oa) c1 vs r c2 \<longrightarrow> r = - 1)
        \<and> (runs_on (unlock_f traceE (n p)) c1 vs r c2 \<longrightarrow> r \<noteq> 0))
    \<and> (s_cnt s = 0 \<longrightarrow> (\<forall>p ts tn. sh_step (H p) (A p) (M p) (EvWait (H p) 0) s' = None
        \<and> sh_step (H p) (A p) (M p) (EvTimed (H p) ts tn 0) s' = None))"
proof -
  note f = destroyed_frozen [OF assms]
  have "(runs_on (lock_f traceE (n p) oa) c1 vs r c2 \<longrightarrow> r = - 1)
      \<and> (runs_on (unlock_f traceE (n p)) c1 vs r c2 \<longrightarrow> r \<noteq> 0)"
    if "proj p T = us @ vs" "client False (n p) (c p) b us b1 c1" for p us vs oa b b1 c1 r c2
    using destroyed_fails [OF _ that(2) assms(4), of vs] f(2) [of p] that(1) by simp
  then show ?thesis unfolding f(1) by (intro conjI) (blast, blast, simp)
qed

theorem destroyed_is_final_witness:
  "sh_run (\<lambda>_. 3) (\<lambda>_. 4096) t_pid (map (Pair 1) (ev0 refuse_ev)) \<lparr>s_cnt = 0, s_byte = 0x7F, s_pid = 42\<rparr>
      = Some \<lparr>s_cnt = 0, s_byte = 0x7F, s_pid = 42\<rparr>
    \<and> sh_step 3 4096 (t_pid 2) (EvWait 3 0) \<lparr>s_cnt = 0, s_byte = 0x7F, s_pid = 42\<rparr> = None"
proof -
  let ?s = "\<lparr>s_cnt = 0, s_byte = 0x7F, s_pid = 42\<rparr>" and ?T = "map (Pair (1 :: nat)) (ev0 refuse_ev)"
  have r: "sh_run (\<lambda>_. 3) (\<lambda>_. 4096) t_pid ?T ?s = Some ?s" by (simp add: refuse_ev_def)
  show ?thesis
    using destroyed_is_final [OF r, of "\<lambda>_. 0" "\<lambda>_. t_demo", THEN conjunct2, THEN conjunct2] r t_refuse_resumes t_conn by auto
qed

section \<open>Construction and destruction\<close>

text \<open>C16: construction, creating.  When no semaphore of the name exists, the modes CONNECT_OR_CREATE,
  CREATE_NEW_OVERWRITE and CREATE_NEW_EXCLUSIVE return a new lock object: its semaphore is new and has
  the initial value as its count, the byte is the initial value cut to eight bits, the name denotes the new
  semaphore and segment, and the locks other objects own stay theirs.\<close>

theorem constructor_creates:
  assumes "quiet_fs E ok osv me" and "ok (wld c)" and "gil c" and "std_module c" and "heap_ok c" and "curexc c = None"
    and "posix_name loc" and "v_semname (osv (wld c)) loc = None" and "unat iv \<le> sem_value_max" and "to_char iv \<noteq> 0x7F"
    and "fd_room (osv (wld c)) 2" and "mode = 0 \<or> mode = 2 \<or> mode = 3"
  shows "\<exists>s k g. hl_call E (Suc (Suc d)) (cinit_list loc mode iv perm) None c = Ret (Some (PyLock (nobj c))) s
    \<and> ok (wld s) \<and> created c (osv (wld c)) loc (unat iv) (to_char iv) k g s (osv (wld s))"
proof (cases "mode = 2")
  case True
  then show ?thesis using quiet_fs.evq_apply [OF assms(1) quiet_fs.overwrite_creates [OF assms(1,3-5,7-10,6,11)] assms(2)] by blast
next
  case False
  then have "mode = 3 \<or> mode = 0" using assms(12) by blast
  then show ?thesis using quiet_fs.evq_apply [OF assms(1) quiet_fs.create_new [OF assms(1,3-5,7-10) _ assms(11)] assms(2)] by blast
qed

theorem constructor_creates_witness:
  "\<exists>s k g. hl_call kE (Suc (Suc 0)) (cinit_list ''/b'' 3 1 0x1B6) None p_demo = Ret (Some (PyLock (nobj p_demo))) s
    \<and> k_sane (wld s) \<and> created p_demo (k_view (wld p_demo)) ''/b'' (unat (1 :: c_int)) (to_char 1) k g s (k_view (wld s))"
  by (rule constructor_creates [OF kf.quiet_fs_axioms]) (simp_all add: demo)

text \<open>C17: construction, joining.  When the semaphore and the segment of the name exist and are not marked
  destroyed, CONNECT_OR_CREATE and CONNECT_TO_EXISTING return a new object connected to that semaphore
  and that segment; count, byte and pid are as before, and every other object keeps its lock.\<close>

theorem constructor_joins:
  assumes "quiet_fs E ok osv me" and "ok (wld c)" and "gil c" and "std_module c" and "heap_ok c"
    and "posix_name loc" and "v_semname (osv (wld c)) loc = Some k" and "v_shmname (osv (wld c)) loc = Some g"
    and "v_byte (osv (wld c)) g \<noteq> 0x7F" and "fd_room (osv (wld c)) 2" and "mode = 1 \<or> mode = 0"
  shows "\<exists>s. hl_call E (Suc d) (cinit_list loc mode iv perm) None c = Ret (Some (PyLock (nobj c))) s
    \<and> ok (wld s) \<and> joined c (osv (wld c)) loc k g s (osv (wld s))"
  using quiet_fs.evq_apply [OF assms(1) quiet_fs.join_existing [OF assms(1,3-9,11,10)] assms(2)] by blast

theorem constructor_joins_witness:
  "\<exists>s. hl_call kE (Suc 0) (cinit_list ''/a'' 1 1 0x1B6) None p_demo = Ret (Some (PyLock (nobj p_demo))) s
    \<and> k_sane (wld s) \<and> joined p_demo (k_view (wld p_demo)) ''/a'' 5 2 s (k_view (wld s))"
  by (rule constructor_joins [OF kf.quiet_fs_axioms]) (simp_all add: demo)

text \<open>C18: construction, refusing.  CONNECT_TO_EXISTING raises NoSuchSemaphoreException when the name is
  free, CREATE_NEW_EXCLUSIVE raises SemaphoreExistsException when it is taken, each with the name as its
  argument; there is no new object and the system is as it was.\<close>

theorem constructor_refuses:
  assumes "quiet_fs E ok osv me" and "ok (wld c)" and "gil c" and "std_module c" and "posix_name loc"
  shows "\<exists>w'. hl_call E (Suc d) (cinit_list loc (if v_semname (osv (wld c)) loc = None then 1 else 3) iv perm) None c
    = Ret None ((if v_semname (osv (wld c)) loc = None then refused c loc NoSuchSemaphore 113
        else refused c loc SemaphoreExists 125)\<lparr>wld := w'\<rparr>) \<and> ok w' \<and> osv w' = osv (wld c)"
proof (cases "v_semname (osv (wld c)) loc")
  case None
  then show ?thesis
    using quiet_os.ev_apply [OF quiet_fs.axioms(1) [OF assms(1)] quiet_fs.refused_absent [OF assms(1,3-5) None] assms(2)]
    by simp
next
  case (Some k)
  then show ?thesis
    using quiet_os.ev_apply [OF quiet_fs.axioms(1) [OF assms(1)] quiet_fs.refused_taken [OF assms(1,3-5) Some] assms(2)]
    by simp
qed

theorem constructor_refuses_witness:
  "\<exists>w'. hl_call kE (Suc 0) (cinit_list ''/a'' 3 1 0x1B6) None p_demo
    = Ret None ((refused p_demo ''/a'' SemaphoreExists 125)\<lparr>wld := w'\<rparr>) \<and> k_sane w' \<and> k_view w' = k_view (wld p_demo)"
  using constructor_refuses [OF kf.quiet_fs_axioms, of p_demo "''/a''" 0 1 "0x1B6"] by (simp add: demo del: hl_call.simps)

text \<open>C19: CREATE_NEW_OVERWRITE on an existing lock: the old segment is marked destroyed, the name denotes a
  new segment and a semaphore with the initial count, the new object is connected to them, and the locks of
  other names are untouched.\<close>

theorem overwrite_replaces_lock:
  assumes "quiet_fs E ok osv me" and "ok (wld c)" and "gil c" and "std_module c" and "heap_ok c"
    and "posix_name loc" and "v_semname (osv (wld c)) loc = Some k0" and "v_shmname (osv (wld c)) loc = Some g0"
    and "v_byte (osv (wld c)) g0 \<noteq> 0x7F" and "unat iv \<le> sem_value_max" and "to_char iv \<noteq> 0x7F"
    and "fd_room (osv (wld c)) 4"
  shows "\<exists>s k g. hl_call E (Suc (Suc d)) (cinit_list loc 2 iv perm) None c = Ret (Some (PyLock (nobj c))) s
    \<and> ok (wld s) \<and> replaced c (osv (wld c)) loc (unat iv) (to_char iv) k0 g0 k g s (osv (wld s))"
  using quiet_fs.evq_apply [OF assms(1) quiet_fs.overwrite_replaces [OF assms(1,3-12)] assms(2)] by blast

theorem overwrite_replaces_lock_witness:
  "\<exists>s k g. hl_call kE (Suc (Suc 0)) (cinit_list ''/a'' 2 1 0x1B6) None p_demo = Ret (Some (PyLock (nobj p_demo))) s
    \<and> k_sane (wld s) \<and> replaced p_demo (k_view (wld p_demo)) ''/a'' (unat (1 :: c_int)) (to_char 1) 5 2 k g s (k_view (wld s))"
  by (rule overwrite_replaces_lock [OF kf.quiet_fs_axioms]) (simp_all add: demo)

text \<open>C20: objects of one name share one lock: after CREATE_NEW_EXCLUSIVE and then CONNECT_TO_EXISTING of the
  same name, the two objects are different and are connected to the same semaphore and the same segment.\<close>

theorem same_name_same_lock:
  assumes "quiet_fs E ok osv me" and "ok (wld c)" and "gil c" and "std_module c" and "heap_ok c" and "curexc c = None"
    and "posix_name loc" and "v_semname (osv (wld c)) loc = None" and "unat iv \<le> sem_value_max" and "to_char iv \<noteq> 0x7F"
    and "fd_room (osv (wld c)) 4"
  shows "\<exists>s n t m k g. hl_call E (Suc (Suc d)) (cinit_list loc 3 iv perm) None c = Ret (Some (PyLock n)) s
    \<and> hl_call E (Suc d') (cinit_list loc 1 iv' perm') None s = Ret (Some (PyLock m)) t
    \<and> n \<noteq> m \<and> lock_at t (osv (wld t)) n k g \<and> lock_at t (osv (wld t)) m k g \<and> v_sem (osv (wld t)) k = unat iv"
proof -
  let ?V = "osv (wld c)"
  have "fd_room ?V 2" by (rule fd_room_less [OF assms(11)]) simp
  then obtain s k g where s: "hl_call E (Suc (Suc d)) (cinit_list loc 3 iv perm) None c = Ret (Some (PyLock (nobj c))) s"
    "ok (wld s)" "created c ?V loc (unat iv) (to_char iv) k g s (osv (wld s))"
    using quiet_fs.evq_apply [OF assms(1) quiet_fs.create_new [OF assms(1,3-5,7-10)] assms(2), of 3] by blast
  have a: "attached c ?V loc k g s (osv (wld s))" and b: "v_sem (osv (wld s)) k = unat iv" "v_byte (osv (wld s)) g \<noteq> 0x7F"
    using s(3) assms(10) by (simp_all add: created_def)
  have f: "gil s" "std_module s" "heap_ok s" "v_semname (osv (wld s)) loc = Some k" "v_shmname (osv (wld s)) loc = Some g"
    "fd_room (osv (wld s)) 2" "nobj c < nobj s" "owns s (osv (wld s)) (nobj c) loc k g"
    using a assms(3,4,11) by (simp_all add: attached_def)
  obtain t where t: "hl_call E (Suc d') (cinit_list loc 1 iv' perm') None s = Ret (Some (PyLock (nobj s))) t"
    "ok (wld t)" "joined s (osv (wld s)) loc k g t (osv (wld t))"
    using quiet_fs.evq_apply [OF assms(1) quiet_fs.join_existing [OF assms(1) f(1-3) assms(7) f(4,5) b(2) _ f(6)] s(2), of 1]
    by blast
  have "lock_at t (osv (wld t)) (nobj c) k g" "lock_at t (osv (wld t)) (nobj s) k g" "v_sem (osv (wld t)) k = unat iv"
    using t(3) f(8) b(1) by (auto simp: joined_def attached_def intro!: owns_lock_at [where loc = loc])
  then show ?thesis using s(1) t(1) f(7) by (intro exI conjI) (assumption | simp)+
qed

theorem same_name_same_lock_witness:
  "\<exists>s n t m k g. hl_call kE (Suc (Suc 0)) (cinit_list ''/b'' 3 1 0x1B6) None p_demo = Ret (Some (PyLock n)) s
    \<and> hl_call kE (Suc 0) (cinit_list ''/b'' 1 1 0x1B6) None s = Ret (Some (PyLock m)) t
    \<and> n \<noteq> m \<and> lock_at t (k_view (wld t)) n k g \<and> lock_at t (k_view (wld t)) m k g
    \<and> v_sem (k_view (wld t)) k = unat (1 :: c_int)"
  by (rule same_name_same_lock [OF kf.quiet_fs_axioms]) (simp_all add: demo)

text \<open>C21: destroy on an open lock returns 0: the names are gone, the byte of the segment says destroyed, the
  descriptor is closed, the copy of the name is freed, the count is as it was, and the locks of other names,
  semaphores and segments stay usable.\<close>

theorem destroy_removes:
  assumes "quiet_fs E ok osv me" and "ok (wld c)" and "gil c" and "owns c (osv (wld c)) n loc k g"
    and "posix_name loc" and "std_module c"
  shows "\<exists>s. hl_method_call E n ''destroy'' [] None c = Ret (Some (PyInt 0)) s
    \<and> ok (wld s) \<and> destroyed c (osv (wld c)) n loc k g s (osv (wld s))"
  using quiet_fs.evq_apply [OF assms(1) quiet_fs.destroy_call [OF assms(1,3-6)] assms(2)] by blast

theorem destroy_removes_witness:
  "\<exists>s. hl_method_call kE 0 ''destroy'' [] None p_demo = Ret (Some (PyInt 0)) s
    \<and> k_sane (wld s) \<and> destroyed p_demo (k_view (wld p_demo)) 0 ''/a'' 5 2 s (k_view (wld s))"
  by (rule destroy_removes [OF kf.quiet_fs_axioms]) (simp_all add: demo)

text \<open>C22: destroy goes by the name and not by the lock.  Let another process have replaced the lock: the name
  denotes a new segment, while the object still belongs to the old one.  Then destroy through the old object
  returns 0 and removes the name of the new lock, whose byte and count stay as they are, so its users are not
  told; the next CONNECT_TO_EXISTING of that name raises NoSuchSemaphoreException.\<close>

theorem stale_destroy_unnames_new_lock:
  assumes "quiet_fs E ok osv me" and "ok (wld c)" and "gil c" and "owns c (osv (wld c)) n loc k g"
    and "posix_name loc" and "std_module c" and "v_shmname (osv (wld c)) loc = Some g'" and "g' \<noteq> g"
  shows "\<exists>s w'. hl_method_call E n ''destroy'' [] None c = Ret (Some (PyInt 0)) s
    \<and> v_semname (osv (wld s)) loc = None \<and> v_shmname (osv (wld s)) loc = None
    \<and> v_byte (osv (wld s)) g' = v_byte (osv (wld c)) g' \<and> v_sem (osv (wld s)) = v_sem (osv (wld c))
    \<and> hl_call E (Suc d) (cinit_list loc 1 iv perm) None s = Ret None ((refused s loc NoSuchSemaphore 113)\<lparr>wld := w'\<rparr>)"
proof -
  obtain s where s: "hl_method_call E n ''destroy'' [] None c = Ret (Some (PyInt 0)) s" "ok (wld s)"
    "destroyed c (osv (wld c)) n loc k g s (osv (wld s))"
    using quiet_fs.evq_apply [OF assms(1) quiet_fs.destroy_call [OF assms(1,3-6)] assms(2)] by blast
  have t: "gil s" "std_module s" "v_semname (osv (wld s)) loc = None" using s(3) assms(3,6) by (simp_all add: destroyed_def)
  show ?thesis
    using s(1,3) assms(8) t(3) quiet_os.ev_apply [OF quiet_fs.axioms(1) [OF assms(1)]
      quiet_fs.refused_absent [OF assms(1) t(1,2) assms(5) t(3)] s(2)] by (fastforce simp: destroyed_def)
qed

theorem stale_destroy_unnames_new_lock_witness:
  "\<exists>s w'. hl_method_call kE 0 ''destroy'' [] None p_stale = Ret (Some (PyInt 0)) s
    \<and> v_semname (k_view (wld s)) ''/a'' = None \<and> v_shmname (k_view (wld s)) ''/a'' = None
    \<and> v_byte (k_view (wld s)) 7 = v_byte (k_view (wld p_stale)) 7 \<and> v_sem (k_view (wld s)) = v_sem (k_view (wld p_stale))
    \<and> hl_call kE (Suc 0) (cinit_list ''/a'' 1 1 0x1B6) None s = Ret None ((refused s ''/a'' NoSuchSemaphore 113)\<lparr>wld := w'\<rparr>)"
  by (rule stale_destroy_unnames_new_lock [OF kf.quiet_fs_axioms demo_stale(2,4,3)]) (simp_all add: demo demo_stale)

text \<open>C23: destroy on a lock that was destroyed or deleted raises SemaphoreDestroyedException and does nothing
  else: nothing is freed, closed or unlinked twice.\<close>

theorem destroy_only_once:
  assumes "quiet_fs E ok osv me" and "ok (wld c)" and "objs c n = Some h" and "cleaned_up h \<noteq> 0" and "gil c" and "std_module c"
  shows "\<exists>w'. destroy_f E n c = Ret (- 1) ((traced ''HybridLock.HybridLock.destroy'' 252 (pyx_f 0)
      (raised SemaphoreDestroyed [PyStr ''HybridLock has already been destroyed''] c))\<lparr>wld := w'\<rparr>) \<and> ok w' \<and> osv w' = osv (wld c)"
  by (rule quiet_os.ev_apply [OF quiet_fs.axioms(1) [OF assms(1)] quiet_fs.destroy_closed [OF assms(1,3-6)] assms(2)])

theorem destroy_only_once_witness:
  "\<exists>s w'. destroy_f kE 0 p_demo = Ret 0 s \<and> destroy_f kE 0 s = Ret (- 1) ((traced ''HybridLock.HybridLock.destroy'' 252 (pyx_f 0)
      (raised SemaphoreDestroyed [PyStr ''HybridLock has already been destroyed''] s))\<lparr>wld := w'\<rparr>)"
proof -
  obtain s where s: "destroy_f kE 0 p_demo = Ret 0 s" "k_sane (wld s)"
    "destroyed p_demo (k_view (wld p_demo)) 0 ''/a'' 5 2 s (k_view (wld s))"
    using kf.evq_apply [OF kf.destroy_open [of p_demo _ 0 "''/a''" 5 2]] by (auto simp: demo)
  have "objs s 0 = Some (lock_demo\<lparr>cleaned_up := 1\<rparr>)" using s(3) by (auto simp: destroyed_def p_demo_def p_on_def)
  moreover have "gil s" "std_module s" using s(3) by (simp_all add: destroyed_def demo)
  ultimately show ?thesis
    using s(1) destroy_only_once [OF kf.quiet_fs_axioms s(2), of 0 "lock_demo\<lparr>cleaned_up := 1\<rparr>"] by auto
qed

text \<open>C24: a destroyed lock refuses every object connected to it: after destroy through one object, lock
  through any other object that maps the same segment raises SemaphoreDestroyedException.\<close>

theorem destroy_stops_others:
  assumes "quiet_fs E ok osv me" and "ok (wld c)" and "gil c" and "owns c (osv (wld c)) n loc k g"
    and "posix_name loc" and "std_module c" and "mapped c (osv (wld c)) m g" and "m \<noteq> n"
  shows "\<exists>s w'. destroy_f E n c = Ret 0 s \<and> lock_f E m oa s = Ret (- 1) ((traced ''HybridLock.HybridLock.lock'' 322 (pyx_f 0)
      (raised SemaphoreDestroyed [PyStr lock_destroyed_msg] s))\<lparr>wld := w'\<rparr>)"
proof -
  obtain s where s: "destroy_f E n c = Ret 0 s" "ok (wld s)" "destroyed c (osv (wld c)) n loc k g s (osv (wld s))"
    using quiet_fs.evq_apply [OF assms(1) quiet_fs.destroy_open [OF assms(1,4-6)] assms(2)] by blast
  have "mapped s (osv (wld s)) m g" "gil s" "std_module s" "v_byte (osv (wld s)) g = 0x7F"
    using s(3) assms(3,6-8) by (auto simp: destroyed_def mapped_def)
  then have r: "quiet_os.ev ok osv (lock_f E m oa) s (osv (wld s)) (- 1) (traced ''HybridLock.HybridLock.lock'' 322 (pyx_f 0)
      (raised SemaphoreDestroyed [PyStr lock_destroyed_msg] s)) (osv (wld s))"
    by (rule quiet_os.ev_lock_destroyed [OF quiet_fs.axioms(1) [OF assms(1)]])
  show ?thesis using quiet_os.ev_apply [OF quiet_fs.axioms(1) [OF assms(1)] r s(2)] s(1) by blast
qed

theorem destroy_stops_others_witness:
  "\<exists>c s w'. destroy_f kE 0 c = Ret 0 s \<and> lock_f kE 1 None s = Ret (- 1) ((traced ''HybridLock.HybridLock.lock'' 322 (pyx_f 0)
      (raised SemaphoreDestroyed [PyStr lock_destroyed_msg] s))\<lparr>wld := w'\<rparr>)"
proof -
  obtain c where c: "k_sane (wld c)" "joined p_demo (k_view (wld p_demo)) ''/a'' 5 2 c (k_view (wld c))"
    using kf.evq_apply [OF kf.join_existing [of p_demo "''/a''" _ 5 2 1 0 1 "0x1B6"]] by (auto simp: demo simp del: hl_call.simps)
  have "nobj p_demo = 1" by (simp add: demo_defs)
  then have o: "gil c" "std_module c" "owns c (k_view (wld c)) 0 ''/a'' 5 2" "owns c (k_view (wld c)) 1 ''/a'' 5 2"
    using c(2) demo_owns(1) by (auto simp: joined_def attached_def demo)
  have "mapped c (k_view (wld c)) 1 2" by (rule lock_at_mapped [OF owns_lock_at [OF o(4)]])
  then show ?thesis using destroy_stops_others [OF kf.quiet_fs_axioms c(1) o(1,3) _ o(2), of 1 None] by (auto simp: demo)
qed

section \<open>The error protocol towards the interpreter\<close>

text \<open>C25: lock, in every environment: it returns -1 exactly when an exception is pending, holds the
  interpreter lock at the end, never calls the interpreter without it, and changes neither the lock
  objects nor the module.\<close>

theorem lock_error_protocol:
  assumes "gil c" and "curexc c = None"
  shows "case lock_f E n oa c of
      Ret r c' \<Rightarrow> gil c' \<and> (r = - 1 \<longleftrightarrow> curexc c' \<noteq> None) \<and> objs c' = objs c \<and> cmem c' = cmem c \<and> mdict c' = mdict c
    | Goto p l c' \<Rightarrow> False
    | Stuck u \<Rightarrow> u \<noteq> NoGil"
  using keep.JD [OF J_lock_f [where R = "\<lambda>_. False" and E = E and self = n and oa = oa], where s = c] assms
  by (auto simp: wp_def valq_def state_defs same_def split: out.splits if_splits)

theorem lock_error_protocol_witness:
  "case lock_f kE 0 None p_dead of
      Ret r c' \<Rightarrow> gil c' \<and> (r = - 1 \<longleftrightarrow> curexc c' \<noteq> None) \<and> objs c' = objs p_dead \<and> cmem c' = cmem p_dead
        \<and> mdict c' = mdict p_dead
    | Goto p l c' \<Rightarrow> False
    | Stuck u \<Rightarrow> u \<noteq> NoGil"
  by (rule lock_error_protocol) (simp_all add: demo)



text \<open>C27: construction, HybridLock(...) with any arguments and any recursion limit, in every environment:
  NULL exactly with an exception.\<close>

theorem construction_error_protocol:
  assumes "gil c" and "curexc c = None"
  shows "case hl_call E depth args kwds c of
      Ret r c' \<Rightarrow> gil c' \<and> (r = None \<longleftrightarrow> curexc c' \<noteq> None)
    | Goto p l c' \<Rightarrow> False
    | Stuck u \<Rightarrow> u \<noteq> NoGil"
  using anyf.JD [OF J_hl_call [where R = "\<lambda>_. False" and E = E and depth = depth and a = args and k = kwds], where s = c] assms
  by (auto simp: wp_def optq_def state_defs split: out.splits if_splits)

theorem construction_error_protocol_witness:
  "case hl_call kE 3 [PyBytes ''/b'', PyInt 0] None p_demo of
      Ret r c' \<Rightarrow> gil c' \<and> (r = None \<longleftrightarrow> curexc c' \<noteq> None)
    | Goto p l c' \<Rightarrow> False
    | Stuck u \<Rightarrow> u \<noteq> NoGil"
  by (rule construction_error_protocol) (simp_all add: demo)

text \<open>C28: destroy, in every environment: -1 exactly with an exception, and only this lock object and the C
  heap change, not the other locks or the module.\<close>

theorem destroy_error_protocol:
  assumes "gil c" and "curexc c = None"
  shows "case destroy_f E n c of
      Ret r c' \<Rightarrow> gil c' \<and> (r = - 1 \<longleftrightarrow> curexc c' \<noteq> None) \<and> mdict c' = mdict c
        \<and> objs c' = (objs c)(n := objs c' n) \<and> (objs c' n = None \<longleftrightarrow> objs c n = None)
    | Goto p l c' \<Rightarrow> False
    | Stuck u \<Rightarrow> u \<noteq> NoGil"
  using own.JD [OF J_destroy_f [where R = "\<lambda>_. False" and E = E and self = n], where s = c] assms
  by (auto simp: wp_def valq_def state_defs only_def fun_eq_iff split: out.splits if_splits)

theorem destroy_error_protocol_witness:
  "case destroy_f kE 0 p_demo of
      Ret r c' \<Rightarrow> gil c' \<and> (r = - 1 \<longleftrightarrow> curexc c' \<noteq> None) \<and> mdict c' = mdict p_demo
        \<and> objs c' = (objs p_demo)(0 := objs c' 0) \<and> (objs c' 0 = None \<longleftrightarrow> objs p_demo 0 = None)
    | Goto p l c' \<Rightarrow> False
    | Stuck u \<Rightarrow> u \<noteq> NoGil"
  by (rule destroy_error_protocol) (simp_all add: demo)

section \<open>The run-time support\<close>

text \<open>C29: importing the module.  When no call outside the module fails, __pyx_pymod_create gives a
  module object and __pyx_pymod_exec returns 0, so that an import through the slots of the module definition gives the module; the C globals of the string table and of the numbers hold
  their objects, the module dictionary is the one of the spec with the names of the body, the type has its
  methods and its vtable, and the module is as the lock needs it: every name its error paths look up, the
  four modes, and the three markers of the byte.\<close>

theorem module_initialised:
  assumes "quiet_os E ok osv me" and "ok (wld (base s))" and "pyok (base s)" and "py_m s = None"
    and "sp ''name'' = Some nm" and "\<And>w. ok w \<Longrightarrow> I w = Inl i" and "i \<noteq> - 1" and "main_id s = - 1 \<or> main_id s = i"
    and "object_attrs OA" and "bdict (base s) ''SystemError'' = Some a" and "bdict (base s) ''TypeError'' = Some b"
    and "bdict (base s) ''TimeoutError'' = Some (PyCls TimeoutErrorT)"
  shows "\<exists>t u. pymod_create E I sp s = Ret (Some (nmod s)) t \<and> pymod_exec E OA ct rt main (nmod s) t = Ret 0 u
    \<and> api_import (moduledef_slots E I OA ct rt main) sp s = Ret (Some (nmod s)) u
    \<and> initialised E OA main (nmod s) t (atw (wld (base t)) u) \<and> moddicts t (nmod s) = spec_dict sp nm
    \<and> std_module (base u) \<and> osv (wld (base u)) = osv (wld (base s))"
proof -
  obtain t u where r: "pymod_create E I sp s = Ret (Some (nmod s)) t" "pymod_exec E OA ct rt main (nmod s) t = Ret 0 u"
    "initialised E OA main (nmod s) t (atw (wld (base t)) u)" "moddicts t (nmod s) = spec_dict sp nm"
    "osv (wld (base u)) = osv (wld (base s))" and b: "bdict (base u) = bdict (base s)"
    using quiet_os.run_module [where I = I and i = i and sp = sp, OF assms(1,3-11,2)] by blast
  have "bdict (base u) = bdict (base t)" by (rule initialised_bdict [OF r(3)])
  then have "std_module (base (atw (wld (base t)) u))"
    using initialised_std [OF r(3)] r(4) b assms(12) by (simp add: spec_dict_timeout)
  then show ?thesis using r import_run [OF r(1,2)] by auto
qed

theorem module_initialised_witness:
  "\<exists>t u. pymod_create kE (\<lambda>_. Inl 0) spec_demo fresh = Ret (Some (nmod fresh)) t
    \<and> pymod_exec kE object_310 ''3.8'' ''3.8'' False (nmod fresh) t = Ret 0 u
    \<and> api_import (moduledef_slots kE (\<lambda>_. Inl 0) object_310 ''3.8'' ''3.8'' False) spec_demo fresh = Ret (Some (nmod fresh)) u
    \<and> initialised kE object_310 False (nmod fresh) t (atw (wld (base t)) u)
    \<and> moddicts t (nmod fresh) = spec_dict spec_demo (PyStr ''HybridLock'')
    \<and> std_module (base u) \<and> k_view (wld (base u)) = k_view (wld (base fresh))"
  by (rule module_initialised [OF k.quiet_os_axioms _ _ _ _ _, where i = 0]) (simp_all add: fresh_simps spec_demo_def)

text \<open>C30: the error protocol of the initialisation, in every environment: __pyx_pymod_exec on a fresh
  process returns 0 with no exception and __pyx_m set to the module, or -1 with an exception and __pyx_m
  back to NULL, so that the import can be tried again; no C-API call is made without the interpreter lock.\<close>

theorem module_error_protocol:
  assumes "pyok (base s)" and "py_m s = None"
  shows "case pymod_exec E OA ct rt main m s of
      Ret r t \<Rightarrow> r = 0 \<and> pyok (base t) \<and> py_m t = Some m \<or> r = - 1 \<and> pyex (base t) \<and> py_m t = None
    | Goto p l t \<Rightarrow> False | Stuck u \<Rightarrow> u \<noteq> NoGil"
  using iJD [OF iJ_pymod_exec [where R = "\<lambda>_. False" and E = E and OA = OA and ct = ct and rt = rt and main = main and m = m], of s] assms
  by (auto simp: wp_def iok_def iex_def split: out.splits)

theorem module_error_protocol_witness:
  "case pymod_exec kE object_310 ''3.8'' ''3.9'' True 5 fresh of
      Ret r t \<Rightarrow> r = 0 \<and> pyok (base t) \<and> py_m t = Some 5 \<or> r = - 1 \<and> pyex (base t) \<and> py_m t = None
    | Goto p l t \<Rightarrow> False | Stuck u \<Rightarrow> u \<noteq> NoGil"
  by (rule module_error_protocol) (simp_all add: fresh_simps)

text \<open>C31: once per process.  When the module exists, running its body again with the same module object
  returns 0 and changes nothing, with another one it raises RuntimeError; the creation slot hands out the
  existing module in the interpreter that loaded it and raises ImportError in any other.\<close>

theorem module_once:
  assumes "py_m s = Some x" and "gil (base s)" and "main_id s \<noteq> - 1" and "I (wld (base s)) = Inl j"
  shows "pymod_exec E OA ct rt main m s =
      (if m = x then Ret 0 s else Ret (- 1) (s\<lparr>base := (base s)\<lparr>curexc := Some reimport_error\<rparr>\<rparr>))
    \<and> pymod_create E I sp s =
      (if j = main_id s then Ret (Some x) s else Ret None (s\<lparr>base := (base s)\<lparr>curexc := Some interpreter_error\<rparr>\<rparr>))"
  using exec_again [OF assms(1,2)] create_again [where I = I, OF assms(3,4,2,1)] by (auto simp: eq_commute)

theorem module_once_witness:
  "pymod_exec kE object_310 ''3.8'' ''3.8'' False 6 (fresh\<lparr>py_m := Some 5, main_id := 0\<rparr>) =
      (if 6 = (5 :: nat) then Ret 0 (fresh\<lparr>py_m := Some 5, main_id := 0\<rparr>)
       else Ret (- 1) (fresh\<lparr>py_m := Some 5, main_id := 0, base := (base (fresh\<lparr>py_m := Some 5, main_id := 0\<rparr>))\<lparr>curexc := Some reimport_error\<rparr>\<rparr>))
    \<and> pymod_create kE (\<lambda>_. Inl 3) spec_demo (fresh\<lparr>py_m := Some 5, main_id := 0\<rparr>) =
      (if 3 = main_id (fresh\<lparr>py_m := Some 5, main_id := 0\<rparr>) then Ret (Some 5) (fresh\<lparr>py_m := Some 5, main_id := 0\<rparr>)
       else Ret None (fresh\<lparr>py_m := Some 5, main_id := 0, base := (base (fresh\<lparr>py_m := Some 5, main_id := 0\<rparr>))\<lparr>curexc := Some interpreter_error\<rparr>\<rparr>))"
  by (rule module_once) (simp_all add: fresh_simps)

text \<open>C32: pickling.  The type is given its stubs: up to version 3.10 __reduce__ and __setstate__ become the
  methods that refuse to pickle a lock and the names of the stubs go away; since 3.11, where object has
  a __getstate__, nothing is moved, so the type keeps the __reduce__ of object.\<close>

theorem reduce_stubs_installed:
  assumes "quiet_os E ok osv me" and "ok (wld (base s))" and "pyok (base s)" and "strs (cg s)" and "object_attrs OA"
  shows "\<exists>t. type_init E OA s = Ret 0 t \<and> vtable t = hl_vtable \<and> ptype t
    \<and> tdict t ''__reduce__'' = (if OA ''__getstate__'' then None else Some (TMethod ''__reduce_cython__''))
    \<and> tdict t ''__setstate__'' = (if OA ''__getstate__'' then None else Some (TMethod ''__setstate_cython__''))
    \<and> tdict t ''__reduce_cython__'' = (if OA ''__getstate__'' then Some (TMethod ''__reduce_cython__'') else None)
    \<and> tdict t ''lock'' = Some (TMethod ''lock'')"
proof -
  let ?Q = "\<lambda>r t. r = 0 \<and> vtable t = hl_vtable \<and> ptype t \<and> tdict t = type_dict E OA"
  have "quiet_os.run ok osv (type_init E OA) s ?Q"
    by (rule quiet_os.run_type_init [OF assms(1)])
      (use assms(3-5) in \<open>simp_all add: pyok_def type_dict_def del: fun_upd_apply\<close>)
  from quiet_os.run_apply [OF assms(1) this assms(2)] obtain t w where
    "type_init E OA s = Ret 0 (atw w t)" "vtable t = hl_vtable" "ptype t" "tdict t = type_dict E OA" by blast
  then show ?thesis
    by (intro exI [of _ "atw w t"]) (simp add: atw_def type_dict_def reduced_def type_methods_def hl_methods_def)
qed

theorem reduce_stubs_installed_witness:
  "\<exists>t. type_init kE object_311 (fresh\<lparr>cg := put_strs string_tab (\<lambda>_. None)\<rparr>) = Ret 0 t \<and> vtable t = hl_vtable \<and> ptype t
    \<and> tdict t ''__reduce__'' = (if object_311 ''__getstate__'' then None else Some (TMethod ''__reduce_cython__''))
    \<and> tdict t ''__setstate__'' = (if object_311 ''__getstate__'' then None else Some (TMethod ''__setstate_cython__''))
    \<and> tdict t ''__reduce_cython__'' = (if object_311 ''__getstate__'' then Some (TMethod ''__reduce_cython__'') else None)
    \<and> tdict t ''lock'' = Some (TMethod ''lock'')"
  by (rule reduce_stubs_installed [OF k.quiet_os_axioms]) (simp_all add: fresh_simps strs_put del: put_strs.simps)

text \<open>C33: the metaclass of a class statement, for types with any number of bases: sub is
  PyType_IsSubtype, of which only reflexivity and transitivity are used.  The loop of
  __Pyx_CalculateMetaclass goes through the given metaclass, when there is one, and then the types of the
  bases.  What it returns is one of them and a subclass of all of them; and it reports a conflict exactly
  when some beginning of that list has no member that is a subclass of the whole beginning, so the order
  of the bases matters: a later type derived from two unrelated earlier ones does not save them.\<close>

theorem metaclass_most_derived:
  assumes "reflp sub" and "transp sub" and "(case m of None \<Rightarrow> ts | Some x \<Rightarrow> x # ts) = k # ks"
  shows "(\<forall>w. calc_metaclass sub ty m ts = Some w \<longrightarrow> derives_all sub (set (k # ks)) w)
    \<and> (calc_metaclass sub ty m ts = None
      \<longleftrightarrow> (\<exists>j \<le> length ks. \<not> (\<exists>w. derives_all sub (set (take (Suc j) (k # ks))) w)))"
proof -
  have "calc_metaclass sub ty m ts = calc_metaclass sub ty (Some k) ks"
    using assms(3) by (auto split: option.splits)
  then show ?thesis
    using calc_some [OF assms(1,2), of ty k ks] calc_through [OF assms(1,2), of ty k ks] by auto
qed

theorem metaclass_most_derived_witness:
  "derives_all meta_sub {2, 0, 1} 2 \<and> calc_metaclass meta_sub 9 None [2, 0, 1] = Some 2
    \<and> derives_all meta_sub {0, 1, 2} 2 \<and> calc_metaclass meta_sub 9 None [0, 1, 2] = None"
proof -
  have r: "calc_metaclass meta_sub 9 None [2, 0, 1] = Some 2" by (simp add: meta_sub_def)
  have d: "derives_all meta_sub {2, 0, 1} 2"
    using metaclass_most_derived [OF meta_sub_order, where m = None and ts = "[2, 0, 1]" and k = 2 and ks = "[0, 1]" and ty = 9] r by simp
  have n: "\<not> (\<exists>w. derives_all meta_sub (set (take (Suc 1) [0, 1, 2])) w)"
    by (auto simp: derives_all_def meta_sub_def)
  have "calc_metaclass meta_sub 9 None [0, 1, 2] = None"
    by (rule metaclass_most_derived [OF meta_sub_order, where m = None and ts = "[0, 1, 2]" and k = 0 and ks = "[1, 2]"
          and ty = 9, THEN conjunct2, THEN iffD2]) (simp, intro exI [of _ 1] conjI n, simp)
  then show ?thesis using r d by (simp add: insert_commute)
qed

text \<open>C34: the code-object cache.  Insertion keeps the array sorted, without duplicates and within its
  allocation; looking a line up afterwards finds the inserted code object for that line and what was
  there before for every other line.  When the memory for growing is refused, every line keeps what it
  had or has the new object.  The bisection that both use returns the position that splits the keys at the
  line looked for.\<close>

theorem code_cache_insert:
  assumes "cc_ok cc" and "line \<noteq> 0"
  shows "cc_ok (pyx_insert_code_object mem line code cc)
    \<and> pyx_find_code_object (pyx_insert_code_object True line code cc) j
      = (if j = line then Some code else pyx_find_code_object cc j)
    \<and> pyx_find_code_object (pyx_insert_code_object mem line code cc) j
      \<in> {pyx_find_code_object cc j, if j = line then Some code else pyx_find_code_object cc j}
    \<and> (keys_sorted es n \<and> 0 < n \<longrightarrow> (let p = pyx_bisect_code_objects es n j in 0 \<le> p \<and> p \<le> int n
      \<and> (\<forall>i < nat p. fst (es ! i) < j) \<and> (\<forall>i. nat p \<le> i \<and> i < n \<longrightarrow> j \<le> fst (es ! i))))"
  using cc.ok_put [OF assms(1), of mem line code] cc.get_put [OF assms, of code j]
    cc.get_put_any [OF assms(1), of mem line code j] bisect_splits [of es n j]
  by (simp add: splits_at_def Let_def) blast

theorem code_cache_insert_witness:
  "cc_ok (pyx_insert_code_object False 391 (PyCode ''f'' 391 ''g'') empty_cache)
    \<and> pyx_find_code_object (pyx_insert_code_object True 391 (PyCode ''f'' 391 ''g'') empty_cache) 5
      = pyx_find_code_object empty_cache 5
    \<and> (let p = pyx_bisect_code_objects [(3, PyCode [] 3 [])] 1 5 in 0 \<le> p \<and> p \<le> int 1
      \<and> (\<forall>i < nat p. fst ([(3, PyCode [] 3 [])] ! i) < (5 :: int)))"
  using code_cache_insert [OF cc.ok_empty, of 391 False "PyCode ''f'' 391 ''g''" 5 "[(3, PyCode [] 3 [])]" 1]
  by (simp add: keys_sorted_def Let_def)

text \<open>C35: an except clause matches exactly the exceptions whose method resolution order contains the class,
  as the interpreter matches them.\<close>

theorem except_matches_subclasses:
  assumes "exc_class e" and "exc_class k"
  shows "pyx_GivenExceptionMatches e (PyCls k) = (k \<in> set (tp_mro e))
    \<and> pyx_GivenExceptionMatches e (PyCls k) = api_given_matches e (PyCls k)"
  using GivenExceptionMatches_cls [OF assms(1), of k] assms by simp

theorem except_matches_subclasses_witness:
  "pyx_GivenExceptionMatches NoSuchSemaphore (PyCls ExceptionT) = (ExceptionT \<in> set (tp_mro NoSuchSemaphore))
    \<and> pyx_GivenExceptionMatches NoSuchSemaphore (PyCls ExceptionT) = api_given_matches NoSuchSemaphore (PyCls ExceptionT)"
  by (rule except_matches_subclasses) simp_all

text \<open>C36: the caches of module globals are transparent.  In every state that cached lookups without an
  exception, writes of the dictionary (each with a version tag no cache has) and any other code reach, a
  cached lookup at any place gives the same result, exception and process as the lookup without a cache,
  when the dictionary can be read; only the cache of the place may differ afterwards.\<close>

theorem cached_name_is_lookup:
  assumes "dict_reach E nm s" and "capi E ''_PyDict_GetItem_KnownHash'' () (proc s) = Ret (Some ()) (proc s)"
  shows "\<exists>f. (\<forall>j. j \<noteq> k \<longrightarrow> f j = site s j)
    \<and> get_cached E k (nm k) s = on_proc (pyx_GetModuleGlobalName E (nm k)) (s\<lparr>site := f\<rparr>)"
  by (rule cached_is_lookup [OF reach_caches_ok [OF assms(1)] assms(2)])

theorem cached_name_is_lookup_witness:
  "dict_cached_value (site v_rebound 0) = Some (PyInt 0)
    \<and> (\<exists>s. get_cached kE 0 ''CONNECT_OR_CREATE'' v_rebound = Ret (Some (PyInt 9)) s)"
proof -
  have c: "capi kE ''_PyDict_GetItem_KnownHash'' () (proc v_rebound) = Ret (Some ()) (proc v_rebound)"
    by (simp add: capi_def need_gil_def sysc_def run_defs kE_def demo_defs v_defs)
  obtain f where "get_cached kE 0 (name_demo 0) v_rebound
      = on_proc (pyx_GetModuleGlobalName kE (name_demo 0)) (v_rebound\<lparr>site := f\<rparr>)"
    using cached_name_is_lookup [OF v_reach c, of 0] by blast
  also have "\<dots> = Ret (Some (PyInt 9)) (v_rebound\<lparr>site := f\<rparr>)"
    using c by (simp add: on_proc_def pyx_GetModuleGlobalName_def run_defs) (simp add: v_defs)
  finally show ?thesis by (simp add: v_defs)
qed

text \<open>C37: the fast path for functions written in Python is the general call: with arguments and no empty
  keyword dictionary, __Pyx_PyFunction_FastCallDict does what entering the recursion check and calling
  PyEval_EvalCodeEx with the arguments, keywords and defaults does, for every function, also one with
  defaults, keyword-only parameters or cells.\<close>

theorem fast_call_is_general:
  assumes "evaluator E I" and "kwargs \<noteq> Some []"
  shows "fast_call_dict E I f args kwargs = bnd (capi E ''Py_EnterRecursiveCall'' ()) (\<lambda>t. case t of
      None \<Rightarrow> ret None | Some _ \<Rightarrow> call_eval_code E I f args kwargs)"
  by (rule evaluator.fast_is_general [OF assms])

theorem fast_call_is_general_witness:
  "fast_call_dict kE (tuple_interp kE) f_demo [PyInt 1] None p_demo = Ret (Some (PyTuple [PyInt 1, PyInt 7])) p_demo
    \<and> fast_call_dict kE (tuple_interp kE) (f_demo\<lparr>co_argcount := 1\<rparr>) [] None p_demo = Ret (Some (PyTuple [PyInt 7])) p_demo"
  unfolding fast_call_is_general [OF ti.evaluator_axioms option.distinct(1)]
  by (simp add: capi_demo call_eval_code_def tuple_interp_def f_demo_def run_defs p_demo_def)

text \<open>C38: the conversions of a Python int to int, long and Py_ssize_t: exactly the ints in the range of the
  type are converted, to the C value of the same number, and every other int gives the overflow error of that
  type; the digits of the int object are read correctly for none, one, two and more digits and both signs.\<close>

theorem int_conversion:
  "pylong_as_int i = (if - (2 ^ 31) \<le> i \<and> i < 2 ^ 31 then Inr (word_of_int i)
      else Inl (- (2 ^ 63) \<le> i \<and> i < 2 ^ 63))
    \<and> pylong_as_long i = (if - (2 ^ 63) \<le> i \<and> i < 2 ^ 63 then Some (word_of_int i) else None)
    \<and> pylong_as_ssize i = (if - (2 ^ 63) \<le> i \<and> i < 2 ^ 63 then Some (word_of_int i) else None)"
  using pylong_as_int_ref [of i] pylong_as_long_ref [of i] pylong_as_ssize_ref [of i]
  by (simp only: int_range_def long_range_def simp_thms)

text \<open>C39: converting a C int or long to a Python int and back gives it again: when the interpreter can build
  the int object, __Pyx_PyInt_As_int, __Pyx_PyInt_As_long and __Pyx_PyIndex_AsSsize_t return the value it was
  made from and raise nothing.\<close>

theorem int_roundtrip:
  assumes "pyx_From_int E v c = Ret (Some x) c1" and "pyx_From_long E w c1 = Ret (Some y) c2"
  shows "pyx_As_int E x c2 = Ret (Some v) c2 \<and> pyx_As_long E y c2 = Ret (Some w) c2
    \<and> pyx_AsSsize_t y c2 = Ret (Some w) c2"
  using assms by (auto simp: pyx_From_int_def pyx_From_long_def pyx_As_int_def pyx_As_long_def pyx_AsSsize_t_def
      long_as_int_def long_as_long_def ret_def dest!: capi_value)

theorem int_roundtrip_witness:
  "\<exists>x y. pyx_From_int kE (- 5) p_demo = Ret (Some x) p_demo \<and> pyx_From_long kE (2 ^ 40) p_demo = Ret (Some y) p_demo
    \<and> pyx_As_int kE x p_demo = Ret (Some (- 5)) p_demo \<and> pyx_As_long kE y p_demo = Ret (Some (2 ^ 40)) p_demo"
proof -
  obtain x y where "pyx_From_int kE (- 5) p_demo = Ret (Some x) p_demo" "pyx_From_long kE (2 ^ 40) p_demo = Ret (Some y) p_demo"
    by (simp add: pyx_From_int_def pyx_From_long_def capi_def need_gil_def sysc_def run_defs kE_def demo_defs)
  from this int_roundtrip [OF this] show ?thesis by blast
qed

text \<open>C40: the clock in milliseconds is the clock of the system rounded down, for every time of the next
  hundred thousand years; the division __Pyx_div_long that it uses rounds towards minus infinity for every
  divisor but 0 and every pair of operands but the one whose quotient does not fit a long.\<close>

theorem clock_in_milliseconds:
  assumes "x_clock_gettime E (wld c) = Sys ((r, sec, nsec), w')"
    and "- (2 ^ 52) \<le> sint sec" and "sint sec < 2 ^ 52" and "0 \<le> sint nsec" and "sint nsec < 10 ^ 9"
  shows "(\<exists>v. get_current_time_ms E c = Ret v (c\<lparr>wld := w'\<rparr>) \<and> sint v = sint sec * 1000 + sint nsec div 10 ^ 6)
    \<and> (sint b \<noteq> 0 \<and> \<not> (sint a = - (2 ^ 63) \<and> sint b = - 1) \<longrightarrow> sint (pyx_div_long a b) = sint a div sint b)"
  using clock_ms [OF assms] div_long_floor by blast

theorem clock_in_milliseconds_witness:
  "(\<exists>v. get_current_time_ms kE p_demo = Ret v (p_demo\<lparr>wld := k_demo\<lparr>k_ms := 100001\<rparr>\<rparr>)
      \<and> sint v = sint (100 :: c_long) * 1000 + sint (0 :: c_long) div 10 ^ 6)
    \<and> sint (pyx_div_long (- 7) 2) = sint (- 7 :: c_long) div sint (2 :: c_long)"
  using clock_in_milliseconds [where r = 0 and E = kE and c = p_demo and sec = 100 and nsec = 0 and a = "- 7" and b = 2]
  by (simp add: kE_def k_clock_def demo_defs)

end
